theory Spec2Isabelle
  imports Complex_Main "HOL-Library.Word" "HOL-Library.Log_Nat"
begin

section \<open>Shared data: responses, exceptions, chunks\<close>

text \<open>
  A transport response as the facades read it: its function code and, for reads, the
  registers or bits it carries.
\<close>

record response =
  function_code :: int
  registers :: "int list"
  bits :: "bool list"

text \<open>
  The exceptions of \<^verbatim>\<open>exceptions.py\<close> and \<^verbatim>\<open>daemon.py\<close>, together with the Python
  built-ins that the modelled code can raise. All of them are instances of Python's
  \<^verbatim>\<open>Exception\<close>. \<open>OtherError\<close> stands for any further
  exception raised by a job or by the transport.
\<close>

datatype exn =
    NoSuchSlaveLayoutError int
  | MissingSubLayoutError int string
  | NoSuchSlaveError
  | VariableNotFoundError "string list"
  | ModbusResponseError response
  | NotConnectedError
  | NegativePeriodError
  | NoVariablesError
  | DuplicateVariableError string
  | InvalidAddressLayoutError string nat nat
  | UnknownTypeError string
  | OutOfBoundsError string int
  | EncodingError
  | AssertionError
  | AttributeError string
  | TimeoutError
  | RuntimeError
  | QueueEmpty
  | StopIteration
  | KeyError string
  | OtherError string

text \<open>A contiguous write region: a start address and the cells written from there on.\<close>

record 'c chunk =
  chunk_address :: nat
  chunk_values :: "'c list"

section \<open>layout.py: slave and server layouts\<close>

record ('r, 'c) SlaveContextLayout =
  holding_registers :: "'r option"
  input_registers :: "'r option"
  coils :: "'c option"
  discrete_inputs :: "'c option"

text \<open>
  \<^verbatim>\<open>ServerContextLayout._slaves\<close> is a dict from unit to slave layout. It is an association
  list here, in the dict's order, since \<^verbatim>\<open>find\<close> iterates over it; \<^verbatim>\<open>_slaves.get(unit)\<close> is
  \<open>map_of\<close>.
\<close>

type_synonym ('r, 'c) ServerContextLayout = "(int \<times> ('r, 'c) SlaveContextLayout) list"

text \<open>
  \<^verbatim>\<open>ServerContextLayout._get\<close> followed by \<^verbatim>\<open>_get_fallible\<close>. The attribute that
  \<^verbatim>\<open>getattr(slave, type, None)\<close> reads is passed as the field selector \<open>field\<close>
  together with its name \<open>ty\<close>.
\<close>

definition get_fallible ::
  "(('r, 'c) SlaveContextLayout \<Rightarrow> 'l option) \<Rightarrow> string \<Rightarrow>
   ('r, 'c) ServerContextLayout \<Rightarrow> int \<Rightarrow> exn + 'l" where
  "get_fallible field ty slaves unit =
     (case map_of slaves unit of
        None \<Rightarrow> Inl (NoSuchSlaveLayoutError unit)
      | Some slave \<Rightarrow>
          (case field slave of
             None \<Rightarrow> Inl (MissingSubLayoutError unit ty)
           | Some layout \<Rightarrow> Inr layout))"

definition get_holding_register_layout ::
  "('r, 'c) ServerContextLayout \<Rightarrow> int \<Rightarrow> exn + 'r" where
  "get_holding_register_layout = get_fallible holding_registers ''holding_registers''"

definition get_input_register_layout ::
  "('r, 'c) ServerContextLayout \<Rightarrow> int \<Rightarrow> exn + 'r" where
  "get_input_register_layout = get_fallible input_registers ''input_registers''"

definition get_coil_layout ::
  "('r, 'c) ServerContextLayout \<Rightarrow> int \<Rightarrow> exn + 'c" where
  "get_coil_layout = get_fallible coils ''coils''"

definition get_discrete_input_layout ::
  "('r, 'c) ServerContextLayout \<Rightarrow> int \<Rightarrow> exn + 'c" where
  "get_discrete_input_layout = get_fallible discrete_inputs ''discrete_inputs''"

text \<open>
  \<^verbatim>\<open>ServerContextLayout.find\<close>: the first unit, and for it the first sub-space in the order
  of \<^verbatim>\<open>_TYPES\<close> (input registers, holding registers, coils, discrete inputs), whose
  layout contains the variable. The test \<^verbatim>\<open>var in layout\<close> belongs to the layout classes;
  it is passed as \<open>rin\<close> for register layouts and \<open>cin\<close> for coil layouts. When no layout
  contains the variable, \<^verbatim>\<open>find\<close> gives the name itself to \<^verbatim>\<open>VariableNotFoundError\<close>, whose
  \<^verbatim>\<open>variables\<close> are an iterable of names: they are then the characters of the name.
\<close>

definition find_in_slave ::
  "('r \<Rightarrow> string \<Rightarrow> bool) \<Rightarrow> ('c \<Rightarrow> string \<Rightarrow> bool) \<Rightarrow> ('r, 'c) SlaveContextLayout \<Rightarrow> string \<Rightarrow>
   string option" where
  "find_in_slave rin cin slave var =
     (if (case input_registers slave of None \<Rightarrow> False | Some layout \<Rightarrow> rin layout var)
      then Some ''input_registers''
      else if (case holding_registers slave of None \<Rightarrow> False | Some layout \<Rightarrow> rin layout var)
      then Some ''holding_registers''
      else if (case coils slave of None \<Rightarrow> False | Some layout \<Rightarrow> cin layout var)
      then Some ''coils''
      else if (case discrete_inputs slave of None \<Rightarrow> False | Some layout \<Rightarrow> cin layout var)
      then Some ''discrete_inputs''
      else None)"

fun find ::
  "('r \<Rightarrow> string \<Rightarrow> bool) \<Rightarrow> ('c \<Rightarrow> string \<Rightarrow> bool) \<Rightarrow> ('r, 'c) ServerContextLayout \<Rightarrow> string \<Rightarrow>
   exn + (int \<times> string)" where
  "find rin cin [] var = Inl (VariableNotFoundError (map (\<lambda>c. [c]) var))"
| "find rin cin ((unit, slave) # slaves) var =
     (case find_in_slave rin cin slave var of
        Some ty \<Rightarrow> Inr (unit, ty)
      | None \<Rightarrow> find rin cin slaves var)"

section \<open>The layout objects as the facades use them\<close>

text \<open>
  \<^verbatim>\<open>context.py\<close>, \<^verbatim>\<open>async_io.py\<close> and \<^verbatim>\<open>threaded.py\<close> use a register or coil layout
  through five members only: \<^verbatim>\<open>address\<close>, \<^verbatim>\<open>size\<close>, \<^verbatim>\<open>build_payload\<close>,
  \<^verbatim>\<open>decode_registers\<close> (\<^verbatim>\<open>decode_coils\<close>) and the membership test \<^verbatim>\<open>var in layout\<close>.
  Here a layout is such an object, its methods being fields; nothing is assumed about how
  they order bytes or words. \<open>'v\<close> is the type of the values map and \<open>'d\<close> the type of the
  decoded map.
\<close>

record ('v, 'd) register_layout =
  rl_address :: nat
  rl_size :: nat
  rl_build_payload :: "'v \<Rightarrow> exn + (8 word list) chunk list"
  rl_decode_registers :: "int list \<Rightarrow> string list option \<Rightarrow> exn + 'd"
  rl_contains :: "string \<Rightarrow> bool"

record ('v, 'd) coil_layout =
  cl_address :: nat
  cl_size :: nat
  cl_build_payload :: "'v \<Rightarrow> exn + bool chunk list"
  cl_decode_coils :: "bool list \<Rightarrow> string list option \<Rightarrow> exn + 'd"
  cl_contains :: "string \<Rightarrow> bool"

type_synonym ('v, 'd) server_layout =
  "(('v, 'd) register_layout, ('v, 'd) coil_layout) ServerContextLayout"

section \<open>context.py: the local server context\<close>

text \<open>
  The datastore of pymodbus is an external collaborator. A data block is taken as an
  address-indexed array, \<^verbatim>\<open>setValues(address, values)\<close> overwriting the cells from
  \<open>address\<close> on; a slave holds one block per sub-space.
\<close>

type_synonym 'a datablock = "nat \<Rightarrow> 'a"

definition setValues :: "'a datablock \<Rightarrow> nat \<Rightarrow> 'a list \<Rightarrow> 'a datablock" where
  "setValues blk a vs = (\<lambda>i. if a \<le> i \<and> i < a + length vs then vs ! (i - a) else blk i)"

record slave_store =
  store_h :: "int datablock"
  store_i :: "int datablock"
  store_c :: "bool datablock"
  store_d :: "bool datablock"

type_synonym modbus_context = "int \<rightharpoonup> slave_store"

text \<open>\<^verbatim>\<open>_bytes_to_16bit_int\<close>: the assertion is a branch of the model.\<close>

definition bytes_to_16bit_int :: "8 word list \<Rightarrow> exn + int" where
  "bytes_to_16bit_int b =
     (if length b > 1 then Inr (256 * uint (b ! 0) + uint (b ! 1)) else Inl AssertionError)"

text \<open>The list comprehension \<^verbatim>\<open>[_bytes_to_16bit_int(x) for x in payload.values]\<close>.\<close>

fun convert_values :: "8 word list list \<Rightarrow> exn + int list" where
  "convert_values [] = Inr []"
| "convert_values (x # xs) =
     (case bytes_to_16bit_int x of
        Inl e \<Rightarrow> Inl e
      | Inr v \<Rightarrow> (case convert_values xs of Inl e \<Rightarrow> Inl e | Inr vs \<Rightarrow> Inr (v # vs)))"

text \<open>
  The loop over the payloads of \<^verbatim>\<open>set_holding_registers\<close> (\<open>holding = True\<close>, store
  \<^verbatim>\<open>"h"\<close>) and of \<^verbatim>\<open>set_input_registers\<close> (\<open>holding = False\<close>, store \<^verbatim>\<open>"i"\<close>). Each
  round first looks the store up (\<^verbatim>\<open>_get_store\<close>, which raises \<open>NoSuchSlaveError\<close>),
  then converts the chunk, then writes. The context is returned as it stands when an
  exception ends the loop.
\<close>

fun write_register_payloads ::
  "bool \<Rightarrow> modbus_context \<Rightarrow> int \<Rightarrow> (8 word list) chunk list \<Rightarrow> modbus_context \<times> exn option" where
  "write_register_payloads holding ctx unit [] = (ctx, None)"
| "write_register_payloads holding ctx unit (payload # payloads) =
     (case ctx unit of
        None \<Rightarrow> (ctx, Some NoSuchSlaveError)
      | Some slave \<Rightarrow>
          (case convert_values (chunk_values payload) of
             Inl e \<Rightarrow> (ctx, Some e)
           | Inr vs \<Rightarrow>
               write_register_payloads holding
                 (ctx(unit \<mapsto>
                    (if holding
                     then slave\<lparr>store_h := setValues (store_h slave) (chunk_address payload) vs\<rparr>
                     else slave\<lparr>store_i := setValues (store_i slave) (chunk_address payload) vs\<rparr>)))
                 unit payloads))"

definition set_holding_registers ::
  "modbus_context \<Rightarrow> ('v, 'd) server_layout \<Rightarrow> 'v \<Rightarrow> int \<Rightarrow> modbus_context \<times> exn option" where
  "set_holding_registers ctx layout vals unit =
     (case get_holding_register_layout layout unit of
        Inl e \<Rightarrow> (ctx, Some e)
      | Inr slave_layout \<Rightarrow>
          (case rl_build_payload slave_layout vals of
             Inl e \<Rightarrow> (ctx, Some e)
           | Inr payloads \<Rightarrow> write_register_payloads True ctx unit payloads))"

definition set_input_registers ::
  "modbus_context \<Rightarrow> ('v, 'd) server_layout \<Rightarrow> 'v \<Rightarrow> int \<Rightarrow> modbus_context \<times> exn option" where
  "set_input_registers ctx layout vals unit =
     (case get_input_register_layout layout unit of
        Inl e \<Rightarrow> (ctx, Some e)
      | Inr slave_layout \<Rightarrow>
          (case rl_build_payload slave_layout vals of
             Inl e \<Rightarrow> (ctx, Some e)
           | Inr payloads \<Rightarrow> write_register_payloads False ctx unit payloads))"

text \<open>
  What the specification says is stored: the chunk \<open>b\<close> as \<open>256 * b[0] + b[1]\<close>, register
  by register, payload by payload.
\<close>

definition to_u16 :: "8 word list \<Rightarrow> int" where
  "to_u16 b = 256 * uint (b ! 0) + uint (b ! 1)"

definition stored_block :: "int datablock \<Rightarrow> (8 word list) chunk list \<Rightarrow> int datablock" where
  "stored_block blk payloads =
     fold (\<lambda>p b. setValues b (chunk_address p) (map to_u16 (chunk_values p))) payloads blk"

definition two_byte_chunks :: "(8 word list) chunk list \<Rightarrow> bool" where
  "two_byte_chunks payloads = list_all (\<lambda>p. list_all (\<lambda>b. length b = 2) (chunk_values p)) payloads"

section \<open>The transport\<close>

text \<open>
  The requests the facades send. The transport itself (pymodbus) is external: it is a
  state \<open>'t\<close> and a function that answers a request with a response, or raises, and
  moves to its next state.
\<close>

datatype request =
    ReadCoilsRequest nat nat int
  | ReadDiscreteInputsRequest nat nat int
  | ReadHoldingRegistersRequest nat nat int
  | ReadInputRegistersRequest nat nat int
  | WriteCoilsRequest nat "bool list" int
  | WriteRegistersRequest nat "8 word list list" int

type_synonym 't transport = "'t \<Rightarrow> request \<Rightarrow> (exn + response) \<times> 't"

text \<open>The \<^verbatim>\<open>function_code\<close> attributes of the pymodbus response classes.\<close>

definition ReadCoilsResponse_function_code :: int where
  "ReadCoilsResponse_function_code = 1"
definition ReadDiscreteInputsResponse_function_code :: int where
  "ReadDiscreteInputsResponse_function_code = 2"
definition ReadHoldingRegistersResponse_function_code :: int where
  "ReadHoldingRegistersResponse_function_code = 3"
definition ReadInputRegistersResponse_function_code :: int where
  "ReadInputRegistersResponse_function_code = 4"
definition WriteMultipleCoilsResponse_function_code :: int where
  "WriteMultipleCoilsResponse_function_code = 15"
definition WriteMultipleRegistersResponse_function_code :: int where
  "WriteMultipleRegistersResponse_function_code = 16"

section \<open>async\_io.py: the Protocol facade\<close>

text \<open>
  Each operation returns what the coroutine returns or raises, and the transport's next
  state. The four reads differ in the layout they look up, the request, the expected code
  and the decoder only; each is written out as in the source.
\<close>

definition protocol_read_input_registers ::
  "'t transport \<Rightarrow> ('v, 'd) server_layout \<Rightarrow> string list option \<Rightarrow> int \<Rightarrow> 't \<Rightarrow> (exn + 'd) \<times> 't" where
  "protocol_read_input_registers send layout variables unit t =
     (case get_input_register_layout layout unit of
        Inl e \<Rightarrow> (Inl e, t)
      | Inr slave_layout \<Rightarrow>
          (case send t (ReadInputRegistersRequest (rl_address slave_layout) (rl_size slave_layout) unit) of
             (Inl e, t') \<Rightarrow> (Inl e, t')
           | (Inr resp, t') \<Rightarrow>
               if function_code resp \<noteq> ReadInputRegistersResponse_function_code
               then (Inl (ModbusResponseError resp), t')
               else (rl_decode_registers slave_layout (registers resp) variables, t')))"

definition protocol_read_holding_registers ::
  "'t transport \<Rightarrow> ('v, 'd) server_layout \<Rightarrow> string list option \<Rightarrow> int \<Rightarrow> 't \<Rightarrow> (exn + 'd) \<times> 't" where
  "protocol_read_holding_registers send layout variables unit t =
     (case get_holding_register_layout layout unit of
        Inl e \<Rightarrow> (Inl e, t)
      | Inr slave_layout \<Rightarrow>
          (case send t (ReadHoldingRegistersRequest (rl_address slave_layout) (rl_size slave_layout) unit) of
             (Inl e, t') \<Rightarrow> (Inl e, t')
           | (Inr resp, t') \<Rightarrow>
               if function_code resp \<noteq> ReadHoldingRegistersResponse_function_code
               then (Inl (ModbusResponseError resp), t')
               else (rl_decode_registers slave_layout (registers resp) variables, t')))"

definition protocol_read_coils ::
  "'t transport \<Rightarrow> ('v, 'd) server_layout \<Rightarrow> string list option \<Rightarrow> int \<Rightarrow> 't \<Rightarrow> (exn + 'd) \<times> 't" where
  "protocol_read_coils send layout variables unit t =
     (case get_coil_layout layout unit of
        Inl e \<Rightarrow> (Inl e, t)
      | Inr slave_layout \<Rightarrow>
          (case send t (ReadCoilsRequest (cl_address slave_layout) (cl_size slave_layout) unit) of
             (Inl e, t') \<Rightarrow> (Inl e, t')
           | (Inr resp, t') \<Rightarrow>
               if function_code resp \<noteq> ReadCoilsResponse_function_code
               then (Inl (ModbusResponseError resp), t')
               else (cl_decode_coils slave_layout (bits resp) variables, t')))"

definition protocol_read_discrete_inputs ::
  "'t transport \<Rightarrow> ('v, 'd) server_layout \<Rightarrow> string list option \<Rightarrow> int \<Rightarrow> 't \<Rightarrow> (exn + 'd) \<times> 't" where
  "protocol_read_discrete_inputs send layout variables unit t =
     (case get_discrete_input_layout layout unit of
        Inl e \<Rightarrow> (Inl e, t)
      | Inr slave_layout \<Rightarrow>
          (case send t (ReadDiscreteInputsRequest (cl_address slave_layout) (cl_size slave_layout) unit) of
             (Inl e, t') \<Rightarrow> (Inl e, t')
           | (Inr resp, t') \<Rightarrow>
               if function_code resp \<noteq> ReadDiscreteInputsResponse_function_code
               then (Inl (ModbusResponseError resp), t')
               else (cl_decode_coils slave_layout (bits resp) variables, t')))"

text \<open>The write loops: one request per payload, the first exception ends the loop.\<close>

fun protocol_write_register_payloads ::
  "'t transport \<Rightarrow> int \<Rightarrow> (8 word list) chunk list \<Rightarrow> 't \<Rightarrow> (exn + unit) \<times> 't" where
  "protocol_write_register_payloads send unit [] t = (Inr (), t)"
| "protocol_write_register_payloads send unit (payload # payloads) t =
     (case send t (WriteRegistersRequest (chunk_address payload) (chunk_values payload) unit) of
        (Inl e, t') \<Rightarrow> (Inl e, t')
      | (Inr resp, t') \<Rightarrow>
          if function_code resp \<noteq> WriteMultipleRegistersResponse_function_code
          then (Inl (ModbusResponseError resp), t')
          else protocol_write_register_payloads send unit payloads t')"

definition protocol_write_holding_registers ::
  "'t transport \<Rightarrow> ('v, 'd) server_layout \<Rightarrow> 'v \<Rightarrow> int \<Rightarrow> 't \<Rightarrow> (exn + unit) \<times> 't" where
  "protocol_write_holding_registers send layout vals unit t =
     (case get_holding_register_layout layout unit of
        Inl e \<Rightarrow> (Inl e, t)
      | Inr slave_layout \<Rightarrow>
          (case rl_build_payload slave_layout vals of
             Inl e \<Rightarrow> (Inl e, t)
           | Inr payloads \<Rightarrow> protocol_write_register_payloads send unit payloads t))"

fun protocol_write_coil_payloads ::
  "'t transport \<Rightarrow> int \<Rightarrow> bool chunk list \<Rightarrow> 't \<Rightarrow> (exn + unit) \<times> 't" where
  "protocol_write_coil_payloads send unit [] t = (Inr (), t)"
| "protocol_write_coil_payloads send unit (payload # payloads) t =
     (case send t (WriteCoilsRequest (chunk_address payload) (chunk_values payload) unit) of
        (Inl e, t') \<Rightarrow> (Inl e, t')
      | (Inr resp, t') \<Rightarrow>
          if function_code resp \<noteq> WriteMultipleCoilsResponse_function_code
          then (Inl (ModbusResponseError resp), t')
          else protocol_write_coil_payloads send unit payloads t')"

definition protocol_write_coils ::
  "'t transport \<Rightarrow> ('v, 'd) server_layout \<Rightarrow> 'v \<Rightarrow> int \<Rightarrow> 't \<Rightarrow> (exn + unit) \<times> 't" where
  "protocol_write_coils send layout vals unit t =
     (case get_coil_layout layout unit of
        Inl e \<Rightarrow> (Inl e, t)
      | Inr slave_layout \<Rightarrow>
          (case cl_build_payload slave_layout vals of
             Inl e \<Rightarrow> (Inl e, t)
           | Inr payloads \<Rightarrow> protocol_write_coil_payloads send unit payloads t))"

text \<open>
  The operations on one variable. A read of one variable reads the whole layout and
  subscripts the decoded dict, an association list here; a key that is missing is a
  \<open>KeyError\<close>. A write of one variable writes the dict \<^verbatim>\<open>{var: value}\<close>.
\<close>

definition subscript :: "(string \<times> 'y) list \<Rightarrow> string \<Rightarrow> exn + 'y" where
  "subscript d var = (case map_of d var of None \<Rightarrow> Inl (KeyError var) | Some y \<Rightarrow> Inr y)"

definition protocol_read_input_register ::
  "'t transport \<Rightarrow> ('v, (string \<times> 'y) list) server_layout \<Rightarrow> string \<Rightarrow> int \<Rightarrow> 't \<Rightarrow> (exn + 'y) \<times> 't" where
  "protocol_read_input_register send layout var unit t =
     (case protocol_read_input_registers send layout None unit t of
        (Inl e, t') \<Rightarrow> (Inl e, t')
      | (Inr d, t') \<Rightarrow> (subscript d var, t'))"

definition protocol_read_holding_register ::
  "'t transport \<Rightarrow> ('v, (string \<times> 'y) list) server_layout \<Rightarrow> string \<Rightarrow> int \<Rightarrow> 't \<Rightarrow> (exn + 'y) \<times> 't" where
  "protocol_read_holding_register send layout var unit t =
     (case protocol_read_holding_registers send layout None unit t of
        (Inl e, t') \<Rightarrow> (Inl e, t')
      | (Inr d, t') \<Rightarrow> (subscript d var, t'))"

definition protocol_read_coil ::
  "'t transport \<Rightarrow> ('v, (string \<times> 'y) list) server_layout \<Rightarrow> string \<Rightarrow> int \<Rightarrow> 't \<Rightarrow> (exn + 'y) \<times> 't" where
  "protocol_read_coil send layout var unit t =
     (case protocol_read_coils send layout None unit t of
        (Inl e, t') \<Rightarrow> (Inl e, t')
      | (Inr d, t') \<Rightarrow> (subscript d var, t'))"

definition protocol_read_discrete_input ::
  "'t transport \<Rightarrow> ('v, (string \<times> 'y) list) server_layout \<Rightarrow> string \<Rightarrow> int \<Rightarrow> 't \<Rightarrow> (exn + 'y) \<times> 't" where
  "protocol_read_discrete_input send layout var unit t =
     (case protocol_read_discrete_inputs send layout None unit t of
        (Inl e, t') \<Rightarrow> (Inl e, t')
      | (Inr d, t') \<Rightarrow> (subscript d var, t'))"

definition protocol_write_holding_register ::
  "'t transport \<Rightarrow> ((string \<times> 'x) list, 'd) server_layout \<Rightarrow> string \<Rightarrow> 'x \<Rightarrow> int \<Rightarrow> 't \<Rightarrow>
   (exn + unit) \<times> 't" where
  "protocol_write_holding_register send layout var val unit t =
     protocol_write_holding_registers send layout [(var, val)] unit t"

definition protocol_write_coil ::
  "'t transport \<Rightarrow> ((string \<times> 'x) list, 'd) server_layout \<Rightarrow> string \<Rightarrow> 'x \<Rightarrow> int \<Rightarrow> 't \<Rightarrow>
   (exn + unit) \<times> 't" where
  "protocol_write_coil send layout var val unit t =
     protocol_write_coils send layout [(var, val)] unit t"

section \<open>threaded.py: the client shell\<close>

text \<open>
  What a call of the main thread does: it returns a value, raises, or never returns
  because it waits on a queue that nobody will fill.
\<close>

datatype 'a outcome = Returns 'a | Raises exn | Blocks

text \<open>
  The two queues carry commands (the string \<^verbatim>\<open>DISCONNECT\<close> or an \<^verbatim>\<open>RpcCall\<close>) and
  messages (the strings \<^verbatim>\<open>CONNECTED\<close> and \<^verbatim>\<open>DISCONNECT\<close>, a result of the transport,
  or an \<^verbatim>\<open>UnhandledException\<close> envelope).
\<close>

datatype command = DISCONNECT | RpcCall request

datatype message = CONNECTED | DISCONNECT_echo | Result response | UnhandledException exn

text \<open>
  The worker thread is not started, or waits in \<^verbatim>\<open>command_queue.get()\<close> holding the
  transport in state \<open>t\<close>, or has left \<^verbatim>\<open>_client_main\<close>.
\<close>

datatype 't thread_state = NotStarted | Running 't | Finished

text \<open>
  The \<^verbatim>\<open>while True\<close> loop of \<^verbatim>\<open>_client_main\<close>, run on the commands that are queued:
  it returns the messages the worker puts, the worker's state and the commands it has
  left in the queue. On the empty queue the worker waits. The \<^verbatim>\<open>except\<close> clause is
  outside the loop: an exception of the transport puts one envelope and ends the worker.
\<close>

fun command_loop ::
  "'t transport \<Rightarrow> 't \<Rightarrow> command list \<Rightarrow> message list \<times> 't thread_state \<times> command list" where
  "command_loop call t [] = ([], Running t, [])"
| "command_loop call t (DISCONNECT # cs) = ([DISCONNECT_echo], Finished, cs)"
| "command_loop call t (RpcCall rpc # cs) =
     (case call t rpc of
        (Inl e, t') \<Rightarrow> ([UnhandledException e], Finished, cs)
      | (Inr result, t') \<Rightarrow>
          (case command_loop call t' cs of
             (ms, th, rest) \<Rightarrow> (Result result # ms, th, rest)))"

text \<open>
  \<^verbatim>\<open>_client_main\<close>: \<open>connect\<close> is what \<^verbatim>\<open>factory(...)\<close> followed by
  \<^verbatim>\<open>client.connect()\<close> gives, the connected transport or the exception raised.
\<close>

definition client_main ::
  "exn + 't \<Rightarrow> 't transport \<Rightarrow> command list \<Rightarrow> message list \<times> 't thread_state \<times> command list" where
  "client_main connect call cs =
     (case connect of
        Inl e \<Rightarrow> ([UnhandledException e], Finished, cs)
      | Inr t \<Rightarrow>
          (case command_loop call t cs of
             (ms, th, rest) \<Rightarrow> (CONNECTED # ms, th, rest)))"

record 't client =
  active :: bool
  thread :: "'t thread_state"
  command_queue :: "command list"
  response_queue :: "message list"

text \<open>\<^verbatim>\<open>Client.__init__\<close>.\<close>

definition new_client :: "'t client" where
  "new_client = \<lparr>active = False, thread = NotStarted, command_queue = [], response_queue = []\<rparr>"

text \<open>
  The main thread puts one command and then waits for one message, so between two calls
  of the client the worker has run until it waits or has ended. \<open>run_thread\<close> is that run.
\<close>

definition run_thread :: "'t transport \<Rightarrow> 't client \<Rightarrow> 't client" where
  "run_thread call c =
     (case thread c of
        Running t \<Rightarrow>
          (case command_loop call t (command_queue c) of
             (ms, th, rest) \<Rightarrow>
               c\<lparr>thread := th, command_queue := rest, response_queue := response_queue c @ ms\<rparr>)
      | _ \<Rightarrow> c)"

text \<open>
  \<^verbatim>\<open>Client.start\<close> with \<^verbatim>\<open>timeout=None\<close>. A thread is started once only
  (\<open>RuntimeError\<close> otherwise); the assertion compares the message received with
  \<^verbatim>\<open>CONNECTED\<close>.
\<close>

definition client_start :: "exn + 't \<Rightarrow> 't transport \<Rightarrow> 't client \<Rightarrow> unit outcome \<times> 't client" where
  "client_start connect call c =
     (case thread c of
        NotStarted \<Rightarrow>
          (case client_main connect call (command_queue c) of
             (ms, th, rest) \<Rightarrow>
               (let c1 = c\<lparr>thread := th, command_queue := rest,
                           response_queue := response_queue c @ ms\<rparr>
                in case response_queue c1 of
                     [] \<Rightarrow> (Blocks, c1)
                   | m # q \<Rightarrow>
                       if m = CONNECTED
                       then (Returns (), c1\<lparr>response_queue := q, active := True\<rparr>)
                       else (Raises AssertionError, c1\<lparr>response_queue := q\<rparr>)))
      | _ \<Rightarrow> (Raises RuntimeError, c))"

text \<open>
  \<^verbatim>\<open>Client.stop\<close>. \<open>timeout\<close> says whether a timeout was given: joining a worker that
  still runs raises \<open>TimeoutError\<close> with one and never returns without.
\<close>

definition client_stop :: "'t transport \<Rightarrow> bool \<Rightarrow> 't client \<Rightarrow> unit outcome \<times> 't client" where
  "client_stop call timeout c =
     (let c1 = run_thread call (c\<lparr>command_queue := command_queue c @ [DISCONNECT]\<rparr>)
      in case response_queue c1 of
           [] \<Rightarrow> (Blocks, c1)
         | m # q \<Rightarrow>
             if m \<noteq> DISCONNECT_echo then (Raises AssertionError, c1\<lparr>response_queue := q\<rparr>)
             else (case thread c1 of
                     Finished \<Rightarrow> (Returns (), c1\<lparr>response_queue := q\<rparr>)
                   | NotStarted \<Rightarrow> (Raises RuntimeError, c1\<lparr>response_queue := q\<rparr>)
                   | Running t \<Rightarrow>
                       (if timeout then Raises TimeoutError else Blocks, c1\<lparr>response_queue := q\<rparr>)))"

text \<open>\<^verbatim>\<open>Client._execute\<close>: it returns whatever message it receives, unless it is an envelope.\<close>

definition client_execute :: "'t transport \<Rightarrow> 't client \<Rightarrow> request \<Rightarrow> message outcome \<times> 't client" where
  "client_execute call c rpc =
     (if \<not> active c then (Raises NotConnectedError, c)
      else
        (let c1 = run_thread call (c\<lparr>command_queue := command_queue c @ [RpcCall rpc]\<rparr>)
         in case response_queue c1 of
              [] \<Rightarrow> (Blocks, c1)
            | result # q \<Rightarrow>
                (case result of
                   UnhandledException e \<Rightarrow> (Raises e, c1\<lparr>response_queue := q\<rparr>)
                 | _ \<Rightarrow> (Returns result, c1\<lparr>response_queue := q\<rparr>))))"

text \<open>
  Reading \<^verbatim>\<open>response.function_code\<close>: a message that is no response (one of the two
  strings) has no such attribute.
\<close>

definition response_of :: "message \<Rightarrow> exn + response" where
  "response_of m = (case m of Result resp \<Rightarrow> Inr resp | _ \<Rightarrow> Inl (AttributeError ''function_code''))"

definition of_sum :: "exn + 'a \<Rightarrow> 'a outcome" where
  "of_sum r = (case r of Inl e \<Rightarrow> Raises e | Inr x \<Rightarrow> Returns x)"

text \<open>
  The part the four reads of \<^verbatim>\<open>Client\<close> share, from the call of \<^verbatim>\<open>_execute\<close> on: the
  check of the function code against \<open>code\<close> and the decoding by \<open>decode\<close>.
\<close>

definition client_checked_read ::
  "'t transport \<Rightarrow> 't client \<Rightarrow> request \<Rightarrow> int \<Rightarrow> (response \<Rightarrow> exn + 'd) \<Rightarrow> 'd outcome \<times> 't client" where
  "client_checked_read call c rpc code decode =
     (case client_execute call c rpc of
        (Raises e, c') \<Rightarrow> (Raises e, c')
      | (Blocks, c') \<Rightarrow> (Blocks, c')
      | (Returns m, c') \<Rightarrow>
          (case response_of m of
             Inl e \<Rightarrow> (Raises e, c')
           | Inr resp \<Rightarrow>
               if function_code resp \<noteq> code then (Raises (ModbusResponseError resp), c')
               else (of_sum (decode resp), c')))"

definition client_read_input_registers ::
  "'t transport \<Rightarrow> ('v, 'd) server_layout \<Rightarrow> string list option \<Rightarrow> int \<Rightarrow> 't client \<Rightarrow>
   'd outcome \<times> 't client" where
  "client_read_input_registers call layout variables unit c =
     (case get_input_register_layout layout unit of
        Inl e \<Rightarrow> (Raises e, c)
      | Inr slave_layout \<Rightarrow>
          client_checked_read call c
            (ReadInputRegistersRequest (rl_address slave_layout) (rl_size slave_layout) unit)
            ReadInputRegistersResponse_function_code
            (\<lambda>resp. rl_decode_registers slave_layout (registers resp) variables))"

definition client_read_holding_registers ::
  "'t transport \<Rightarrow> ('v, 'd) server_layout \<Rightarrow> string list option \<Rightarrow> int \<Rightarrow> 't client \<Rightarrow>
   'd outcome \<times> 't client" where
  "client_read_holding_registers call layout variables unit c =
     (case get_holding_register_layout layout unit of
        Inl e \<Rightarrow> (Raises e, c)
      | Inr slave_layout \<Rightarrow>
          client_checked_read call c
            (ReadHoldingRegistersRequest (rl_address slave_layout) (rl_size slave_layout) unit)
            ReadHoldingRegistersResponse_function_code
            (\<lambda>resp. rl_decode_registers slave_layout (registers resp) variables))"

definition client_read_coils ::
  "'t transport \<Rightarrow> ('v, 'd) server_layout \<Rightarrow> string list option \<Rightarrow> int \<Rightarrow> 't client \<Rightarrow>
   'd outcome \<times> 't client" where
  "client_read_coils call layout variables unit c =
     (case get_coil_layout layout unit of
        Inl e \<Rightarrow> (Raises e, c)
      | Inr slave_layout \<Rightarrow>
          client_checked_read call c
            (ReadCoilsRequest (cl_address slave_layout) (cl_size slave_layout) unit)
            ReadCoilsResponse_function_code
            (\<lambda>resp. cl_decode_coils slave_layout (bits resp) variables))"

definition client_read_discrete_inputs ::
  "'t transport \<Rightarrow> ('v, 'd) server_layout \<Rightarrow> string list option \<Rightarrow> int \<Rightarrow> 't client \<Rightarrow>
   'd outcome \<times> 't client" where
  "client_read_discrete_inputs call layout variables unit c =
     (case get_discrete_input_layout layout unit of
        Inl e \<Rightarrow> (Raises e, c)
      | Inr slave_layout \<Rightarrow>
          client_checked_read call c
            (ReadDiscreteInputsRequest (cl_address slave_layout) (cl_size slave_layout) unit)
            ReadDiscreteInputsResponse_function_code
            (\<lambda>resp. cl_decode_coils slave_layout (bits resp) variables))"

text \<open>
  The write loops of \<^verbatim>\<open>Client\<close>: \<open>requests\<close> are the requests of the payloads in
  order, \<open>code\<close> the expected function code.
\<close>

fun client_write_payloads ::
  "'t transport \<Rightarrow> int \<Rightarrow> request list \<Rightarrow> 't client \<Rightarrow> unit outcome \<times> 't client" where
  "client_write_payloads call code [] c = (Returns (), c)"
| "client_write_payloads call code (rpc # rpcs) c =
     (case client_execute call c rpc of
        (Raises e, c') \<Rightarrow> (Raises e, c')
      | (Blocks, c') \<Rightarrow> (Blocks, c')
      | (Returns m, c') \<Rightarrow>
          (case response_of m of
             Inl e \<Rightarrow> (Raises e, c')
           | Inr resp \<Rightarrow>
               if function_code resp \<noteq> code then (Raises (ModbusResponseError resp), c')
               else client_write_payloads call code rpcs c'))"

definition client_write_holding_registers ::
  "'t transport \<Rightarrow> ('v, 'd) server_layout \<Rightarrow> 'v \<Rightarrow> int \<Rightarrow> 't client \<Rightarrow> unit outcome \<times> 't client" where
  "client_write_holding_registers call layout vals unit c =
     (case get_holding_register_layout layout unit of
        Inl e \<Rightarrow> (Raises e, c)
      | Inr slave_layout \<Rightarrow>
          (case rl_build_payload slave_layout vals of
             Inl e \<Rightarrow> (Raises e, c)
           | Inr payloads \<Rightarrow>
               client_write_payloads call WriteMultipleRegistersResponse_function_code
                 (map (\<lambda>payload. WriteRegistersRequest (chunk_address payload) (chunk_values payload) unit)
                    payloads) c))"

definition client_write_coils ::
  "'t transport \<Rightarrow> ('v, 'd) server_layout \<Rightarrow> 'v \<Rightarrow> int \<Rightarrow> 't client \<Rightarrow> unit outcome \<times> 't client" where
  "client_write_coils call layout vals unit c =
     (case get_coil_layout layout unit of
        Inl e \<Rightarrow> (Raises e, c)
      | Inr slave_layout \<Rightarrow>
          (case cl_build_payload slave_layout vals of
             Inl e \<Rightarrow> (Raises e, c)
           | Inr payloads \<Rightarrow>
               client_write_payloads call WriteMultipleCoilsResponse_function_code
                 (map (\<lambda>payload. WriteCoilsRequest (chunk_address payload) (chunk_values payload) unit)
                    payloads) c))"

text \<open>
  The operations of \<^verbatim>\<open>Client\<close> on one variable: as in \<^verbatim>\<open>Protocol\<close>, a read subscripts
  the decoded dict of the whole layout and a write writes \<^verbatim>\<open>{var: value}\<close>.
\<close>

definition client_subscript ::
  "(string \<times> 'y) list outcome \<times> 't client \<Rightarrow> string \<Rightarrow> 'y outcome \<times> 't client" where
  "client_subscript r var =
     (case r of
        (Raises e, c') \<Rightarrow> (Raises e, c')
      | (Blocks, c') \<Rightarrow> (Blocks, c')
      | (Returns d, c') \<Rightarrow>
          (case map_of d var of None \<Rightarrow> (Raises (KeyError var), c') | Some y \<Rightarrow> (Returns y, c')))"

definition client_read_input_register ::
  "'t transport \<Rightarrow> ('v, (string \<times> 'y) list) server_layout \<Rightarrow> string \<Rightarrow> int \<Rightarrow> 't client \<Rightarrow>
   'y outcome \<times> 't client" where
  "client_read_input_register call layout var unit c =
     client_subscript (client_read_input_registers call layout None unit c) var"

definition client_read_holding_register ::
  "'t transport \<Rightarrow> ('v, (string \<times> 'y) list) server_layout \<Rightarrow> string \<Rightarrow> int \<Rightarrow> 't client \<Rightarrow>
   'y outcome \<times> 't client" where
  "client_read_holding_register call layout var unit c =
     client_subscript (client_read_holding_registers call layout None unit c) var"

definition client_read_coil ::
  "'t transport \<Rightarrow> ('v, (string \<times> 'y) list) server_layout \<Rightarrow> string \<Rightarrow> int \<Rightarrow> 't client \<Rightarrow>
   'y outcome \<times> 't client" where
  "client_read_coil call layout var unit c =
     client_subscript (client_read_coils call layout None unit c) var"

definition client_read_discrete_input ::
  "'t transport \<Rightarrow> ('v, (string \<times> 'y) list) server_layout \<Rightarrow> string \<Rightarrow> int \<Rightarrow> 't client \<Rightarrow>
   'y outcome \<times> 't client" where
  "client_read_discrete_input call layout var unit c =
     client_subscript (client_read_discrete_inputs call layout None unit c) var"

definition client_write_holding_register ::
  "'t transport \<Rightarrow> ((string \<times> 'x) list, 'd) server_layout \<Rightarrow> string \<Rightarrow> 'x \<Rightarrow> int \<Rightarrow> 't client \<Rightarrow>
   unit outcome \<times> 't client" where
  "client_write_holding_register call layout var val unit c =
     client_write_holding_registers call layout [(var, val)] unit c"

definition client_write_coil ::
  "'t transport \<Rightarrow> ((string \<times> 'x) list, 'd) server_layout \<Rightarrow> string \<Rightarrow> 'x \<Rightarrow> int \<Rightarrow> 't client \<Rightarrow>
   unit outcome \<times> 't client" where
  "client_write_coil call layout var val unit c =
     client_write_coils call layout [(var, val)] unit c"

text \<open>
  \<^verbatim>\<open>Client.write\<close>: it finds the unit and the sub-space of the variable, asserts that the
  sub-space can be written, and calls the method named \<^verbatim>\<open>"write_" + type_[:-1]\<close>, that
  is \<^verbatim>\<open>write_holding_register\<close> or \<^verbatim>\<open>write_coil\<close>.
\<close>

definition client_write ::
  "'t transport \<Rightarrow> ((string \<times> 'x) list, 'd) server_layout \<Rightarrow> string \<Rightarrow> 'x \<Rightarrow> 't client \<Rightarrow>
   unit outcome \<times> 't client" where
  "client_write call layout var val c =
     (case find rl_contains cl_contains layout var of
        Inl e \<Rightarrow> (Raises e, c)
      | Inr (unit, ty) \<Rightarrow>
          if ty \<notin> {''holding_registers'', ''coils''} then (Raises AssertionError, c)
          else if ty = ''holding_registers'' then client_write_holding_register call layout var val unit c
          else client_write_coil call layout var val unit c)"

text \<open>
  The answers the transport gives when it is sent the requests in order, whatever the
  caller does with them; the first response among them whose function code is not the
  expected one, no exception coming before it; and the case that every answer is a
  response with the expected code.
\<close>

fun answers :: "'t transport \<Rightarrow> 't \<Rightarrow> request list \<Rightarrow> (exn + response) list" where
  "answers send t [] = []"
| "answers send t (rpc # rpcs) = (case send t rpc of (a, t') \<Rightarrow> a # answers send t' rpcs)"

fun first_rejected :: "int \<Rightarrow> (exn + response) list \<Rightarrow> response option" where
  "first_rejected code [] = None"
| "first_rejected code (Inl e # as) = None"
| "first_rejected code (Inr resp # as) =
     (if function_code resp \<noteq> code then Some resp else first_rejected code as)"

definition all_accepted :: "int \<Rightarrow> (exn + response) list \<Rightarrow> bool" where
  "all_accepted code as =
     list_all (\<lambda>a. case a of Inl e \<Rightarrow> False | Inr resp \<Rightarrow> function_code resp = code) as"

definition register_requests :: "int \<Rightarrow> (8 word list) chunk list \<Rightarrow> request list" where
  "register_requests unit payloads =
     map (\<lambda>payload. WriteRegistersRequest (chunk_address payload) (chunk_values payload) unit) payloads"

definition coil_requests :: "int \<Rightarrow> bool chunk list \<Rightarrow> request list" where
  "coil_requests unit payloads =
     map (\<lambda>payload. WriteCoilsRequest (chunk_address payload) (chunk_values payload) unit) payloads"

text \<open>
  A client between two calls after a successful \<^verbatim>\<open>start\<close>: the flag is set, the worker
  waits for a command with the transport in state \<open>t\<close>, both queues are empty.
\<close>

definition idle :: "'t client \<Rightarrow> 't \<Rightarrow> bool" where
  "idle c t \<longleftrightarrow> active c \<and> thread c = Running t \<and> command_queue c = [] \<and> response_queue c = []"

text \<open>A transport that answers every request with one coil and the function code 1.\<close>

definition echo_transport :: "unit transport" where
  "echo_transport t rpc = (Inr \<lparr>function_code = 1, registers = [], bits = [True]\<rparr>, t)"

text \<open>
  The client after \<^verbatim>\<open>start()\<close> and \<^verbatim>\<open>stop()\<close> on a transport that connects, and the
  client after a \<^verbatim>\<open>start()\<close> whose factory raised.
\<close>

definition stopped_client :: "unit client" where
  "stopped_client =
     snd (client_stop echo_transport False (snd (client_start (Inr ()) echo_transport new_client)))"

definition unconnected_client :: "unit client" where
  "unconnected_client =
     snd (client_start (Inl (OtherError ''ConnectionRefusedError'')) echo_transport new_client)"

section \<open>The operations of the remote facades, as the specification lists them\<close>

text \<open>
  Section 4.7 of the specification names four reads and two writes and gives each its
  expected function code. The tables below say, for each of them, the expected code, the
  request, the sub-layout it works on and the methods of \<^verbatim>\<open>Protocol\<close> and \<^verbatim>\<open>Client\<close> that
  carry it out, for the whole layout and for one variable.
\<close>

datatype read_operation = ReadCoils | ReadDiscreteInputs | ReadHoldingRegisters | ReadInputRegisters

datatype write_operation = WriteCoils | WriteHoldingRegisters

fun read_code :: "read_operation \<Rightarrow> int" where
  "read_code ReadCoils = 1"
| "read_code ReadDiscreteInputs = 2"
| "read_code ReadHoldingRegisters = 3"
| "read_code ReadInputRegisters = 4"

fun write_code :: "write_operation \<Rightarrow> int" where
  "write_code WriteCoils = 15"
| "write_code WriteHoldingRegisters = 16"

fun read_request :: "read_operation \<Rightarrow> nat \<Rightarrow> nat \<Rightarrow> int \<Rightarrow> request" where
  "read_request ReadCoils = ReadCoilsRequest"
| "read_request ReadDiscreteInputs = ReadDiscreteInputsRequest"
| "read_request ReadHoldingRegisters = ReadHoldingRegistersRequest"
| "read_request ReadInputRegisters = ReadInputRegistersRequest"

text \<open>
  What a read works on: the address and the size of the sub-layout of the unit, and the
  decoding of a response by that sub-layout. \<open>None\<close> when the unit has no such sub-layout.
\<close>

fun read_target ::
  "read_operation \<Rightarrow> (('v, 'd) register_layout, ('v, 'd) coil_layout) SlaveContextLayout \<Rightarrow>
   (nat \<times> nat \<times> (response \<Rightarrow> string list option \<Rightarrow> exn + 'd)) option" where
  "read_target ReadCoils sl =
     map_option (\<lambda>l. (cl_address l, cl_size l, \<lambda>resp. cl_decode_coils l (bits resp))) (coils sl)"
| "read_target ReadDiscreteInputs sl =
     map_option (\<lambda>l. (cl_address l, cl_size l, \<lambda>resp. cl_decode_coils l (bits resp)))
       (discrete_inputs sl)"
| "read_target ReadHoldingRegisters sl =
     map_option (\<lambda>l. (rl_address l, rl_size l, \<lambda>resp. rl_decode_registers l (registers resp)))
       (holding_registers sl)"
| "read_target ReadInputRegisters sl =
     map_option (\<lambda>l. (rl_address l, rl_size l, \<lambda>resp. rl_decode_registers l (registers resp)))
       (input_registers sl)"

text \<open>
  What a write sends: one request per chunk that the sub-layout builds from the values,
  or the exception of the building. \<open>None\<close> when the unit has no such sub-layout.
\<close>

fun write_requests ::
  "write_operation \<Rightarrow> (('v, 'd) register_layout, ('v, 'd) coil_layout) SlaveContextLayout \<Rightarrow>
   int \<Rightarrow> 'v \<Rightarrow> (exn + request list) option" where
  "write_requests WriteCoils sl unit vals =
     map_option (\<lambda>l. map_sum id (coil_requests unit) (cl_build_payload l vals)) (coils sl)"
| "write_requests WriteHoldingRegisters sl unit vals =
     map_option (\<lambda>l. map_sum id (register_requests unit) (rl_build_payload l vals))
       (holding_registers sl)"

fun write_space :: "write_operation \<Rightarrow> string" where
  "write_space WriteCoils = ''coils''"
| "write_space WriteHoldingRegisters = ''holding_registers''"

fun protocol_read ::
  "read_operation \<Rightarrow> 't transport \<Rightarrow> ('v, 'd) server_layout \<Rightarrow> string list option \<Rightarrow> int \<Rightarrow> 't \<Rightarrow>
   (exn + 'd) \<times> 't" where
  "protocol_read ReadCoils = protocol_read_coils"
| "protocol_read ReadDiscreteInputs = protocol_read_discrete_inputs"
| "protocol_read ReadHoldingRegisters = protocol_read_holding_registers"
| "protocol_read ReadInputRegisters = protocol_read_input_registers"

fun protocol_read_one ::
  "read_operation \<Rightarrow> 't transport \<Rightarrow> ('v, (string \<times> 'y) list) server_layout \<Rightarrow> string \<Rightarrow> int \<Rightarrow> 't \<Rightarrow>
   (exn + 'y) \<times> 't" where
  "protocol_read_one ReadCoils = protocol_read_coil"
| "protocol_read_one ReadDiscreteInputs = protocol_read_discrete_input"
| "protocol_read_one ReadHoldingRegisters = protocol_read_holding_register"
| "protocol_read_one ReadInputRegisters = protocol_read_input_register"

fun client_read ::
  "read_operation \<Rightarrow> 't transport \<Rightarrow> ('v, 'd) server_layout \<Rightarrow> string list option \<Rightarrow> int \<Rightarrow>
   't client \<Rightarrow> 'd outcome \<times> 't client" where
  "client_read ReadCoils = client_read_coils"
| "client_read ReadDiscreteInputs = client_read_discrete_inputs"
| "client_read ReadHoldingRegisters = client_read_holding_registers"
| "client_read ReadInputRegisters = client_read_input_registers"

fun client_read_one ::
  "read_operation \<Rightarrow> 't transport \<Rightarrow> ('v, (string \<times> 'y) list) server_layout \<Rightarrow> string \<Rightarrow> int \<Rightarrow>
   't client \<Rightarrow> 'y outcome \<times> 't client" where
  "client_read_one ReadCoils = client_read_coil"
| "client_read_one ReadDiscreteInputs = client_read_discrete_input"
| "client_read_one ReadHoldingRegisters = client_read_holding_register"
| "client_read_one ReadInputRegisters = client_read_input_register"

fun protocol_write ::
  "write_operation \<Rightarrow> 't transport \<Rightarrow> ('v, 'd) server_layout \<Rightarrow> 'v \<Rightarrow> int \<Rightarrow> 't \<Rightarrow> (exn + unit) \<times> 't" where
  "protocol_write WriteCoils = protocol_write_coils"
| "protocol_write WriteHoldingRegisters = protocol_write_holding_registers"

fun protocol_write_one ::
  "write_operation \<Rightarrow> 't transport \<Rightarrow> ((string \<times> 'x) list, 'd) server_layout \<Rightarrow> string \<Rightarrow> 'x \<Rightarrow> int \<Rightarrow>
   't \<Rightarrow> (exn + unit) \<times> 't" where
  "protocol_write_one WriteCoils = protocol_write_coil"
| "protocol_write_one WriteHoldingRegisters = protocol_write_holding_register"

fun client_write_all ::
  "write_operation \<Rightarrow> 't transport \<Rightarrow> ('v, 'd) server_layout \<Rightarrow> 'v \<Rightarrow> int \<Rightarrow> 't client \<Rightarrow>
   unit outcome \<times> 't client" where
  "client_write_all WriteCoils = client_write_coils"
| "client_write_all WriteHoldingRegisters = client_write_holding_registers"

fun client_write_one ::
  "write_operation \<Rightarrow> 't transport \<Rightarrow> ((string \<times> 'x) list, 'd) server_layout \<Rightarrow> string \<Rightarrow> 'x \<Rightarrow> int \<Rightarrow>
   't client \<Rightarrow> unit outcome \<times> 't client" where
  "client_write_one WriteCoils = client_write_coil"
| "client_write_one WriteHoldingRegisters = client_write_holding_register"

section \<open>daemon.py and threaded.py: the periodic daemons\<close>

text \<open>
  What a job can raise: an instance of \<^verbatim>\<open>Exception\<close>, or one of the two exceptions
  outside that class that the interpreter itself delivers. An \<^verbatim>\<open>except Exception\<close>
  clause catches the first kind only.
\<close>

datatype base_exception = Exception exn | SystemExit | KeyboardInterrupt

text \<open>
  Time is the reading of \<^verbatim>\<open>time.perf_counter()\<close>, a real number. A run of the job lasts
  some time and then returns or raises. The world records the clock and what the daemon
  did: the calls of the job and the sleeps with their durations.
\<close>

datatype job_run = JobReturns real | JobRaises real base_exception

datatype event = JobCalled | Slept real

record world =
  clock :: real
  events :: "event list"

definition run_job :: "real \<Rightarrow> world \<Rightarrow> world" where
  "run_job duration w = w\<lparr>clock := clock w + duration, events := events w @ [JobCalled]\<rparr>"

definition sleep :: "real \<Rightarrow> world \<Rightarrow> world" where
  "sleep wait w = w\<lparr>clock := clock w + wait, events := events w @ [Slept wait]\<rparr>"

subsection \<open>AsyncDaemon\<close>

text \<open>
  The task of asyncio that runs \<^verbatim>\<open>_serve_coro\<close>: still in its loop, returned, ended
  with an exception that it keeps for whoever awaits it, or ended with a \<^verbatim>\<open>SystemExit\<close>
  or \<^verbatim>\<open>KeyboardInterrupt\<close>, which the task passes on out of the event loop.
\<close>

datatype task = TaskRunning | TaskReturned | TaskRaised exn | TaskLeftLoop base_exception

record async_daemon =
  ad_period :: real
  ad_event :: bool
  ad_task :: "task option"

definition AsyncDaemon_init :: "real \<Rightarrow> exn + async_daemon" where
  "AsyncDaemon_init period =
     (if period < 0 then Inl NegativePeriodError
      else Inr \<lparr>ad_period = period, ad_event = False, ad_task = None\<rparr>)"

definition AsyncDaemon_serve :: "async_daemon \<Rightarrow> async_daemon" where
  "AsyncDaemon_serve d = d\<lparr>ad_task := Some TaskRunning\<rparr>"

text \<open>
  \<^verbatim>\<open>_serve_coro\<close>, run for the job runs given: one element of the list is one round of
  the loop. On the empty list the coroutine stays suspended in its loop. An exception of
  the job leaves the coroutine. The task keeps an \<^verbatim>\<open>Exception\<close>, but a \<^verbatim>\<open>StopIteration\<close>
  that leaves a coroutine reaches the task as a \<open>RuntimeError\<close>; a \<^verbatim>\<open>SystemExit\<close> or
  \<^verbatim>\<open>KeyboardInterrupt\<close> leaves the event loop with the task.
\<close>

fun AsyncDaemon_serve_coro :: "job_run list \<Rightarrow> async_daemon \<times> world \<Rightarrow> async_daemon \<times> world" where
  "AsyncDaemon_serve_coro [] (d, w) = (d, w)"
| "AsyncDaemon_serve_coro (j # js) (d, w) =
     (if ad_task d \<noteq> Some TaskRunning then (d, w)
      else if ad_event d then (d\<lparr>ad_task := Some TaskReturned\<rparr>, w)
      else
        (let start = clock w in
         case j of
           JobRaises duration x \<Rightarrow>
             (case x of
                Exception e \<Rightarrow>
                  (d\<lparr>ad_task := Some (TaskRaised (if e = StopIteration then RuntimeError else e))\<rparr>,
                   run_job duration w)
              | _ \<Rightarrow> (d\<lparr>ad_task := Some (TaskLeftLoop x)\<rparr>, run_job duration w))
         | JobReturns duration \<Rightarrow>
             (let w1 = run_job duration w;
                  diff = start - clock w1;
                  wait = max (ad_period d - diff) 0
              in AsyncDaemon_serve_coro js (d, sleep wait w1))))"

definition AsyncDaemon_stop :: "async_daemon \<Rightarrow> task option \<times> async_daemon" where
  "AsyncDaemon_stop d = (ad_task d, d\<lparr>ad_event := True\<rparr>)"

text \<open>
  Awaiting the handle that \<^verbatim>\<open>stop()\<close> returned: a task that raised re-raises; a task
  still in its loop wakes up and, the event being set, returns, and without the event it
  never ends. Awaiting \<^verbatim>\<open>None\<close> is a \<open>TypeError\<close>. Nobody awaits in an event loop that
  an exception has left.
\<close>

definition await_task :: "async_daemon \<Rightarrow> task option \<Rightarrow> unit outcome" where
  "await_task d handle =
     (case handle of
        None \<Rightarrow> Raises (OtherError ''TypeError'')
      | Some TaskRunning \<Rightarrow> if ad_event d then Returns () else Blocks
      | Some TaskReturned \<Rightarrow> Returns ()
      | Some (TaskRaised e) \<Rightarrow> Raises e
      | Some (TaskLeftLoop x) \<Rightarrow> Blocks)"

subsection \<open>DaemonThread\<close>

text \<open>\<open>dt_thread\<close>: no thread yet, or whether the thread is alive.\<close>

record daemon_thread =
  dt_period :: real
  dt_event :: bool
  dt_thread :: "bool option"
  dt_queue :: "exn list"

definition DaemonThread_init :: "real \<Rightarrow> exn + daemon_thread" where
  "DaemonThread_init period =
     (if period < 0 then Inl NegativePeriodError
      else Inr \<lparr>dt_period = period, dt_event = False, dt_thread = None, dt_queue = []\<rparr>)"

definition DaemonThread_serve :: "daemon_thread \<Rightarrow> daemon_thread" where
  "DaemonThread_serve d = d\<lparr>dt_thread := Some True\<rparr>"

text \<open>
  \<^verbatim>\<open>_serve\<close>: the \<^verbatim>\<open>except Exception\<close> clause puts the exception on the queue and the
  thread ends. A \<^verbatim>\<open>SystemExit\<close> or \<^verbatim>\<open>KeyboardInterrupt\<close> passes the clause: the thread
  ends and nothing is put on the queue.
\<close>

fun DaemonThread_serve_loop :: "job_run list \<Rightarrow> daemon_thread \<times> world \<Rightarrow> daemon_thread \<times> world" where
  "DaemonThread_serve_loop [] (d, w) = (d, w)"
| "DaemonThread_serve_loop (j # js) (d, w) =
     (if dt_thread d \<noteq> Some True then (d, w)
      else if dt_event d then (d\<lparr>dt_thread := Some False\<rparr>, w)
      else
        (let start_time = clock w in
         case j of
           JobRaises duration x \<Rightarrow>
             (case x of
                Exception e \<Rightarrow>
                  (d\<lparr>dt_queue := dt_queue d @ [e], dt_thread := Some False\<rparr>, run_job duration w)
              | _ \<Rightarrow> (d\<lparr>dt_thread := Some False\<rparr>, run_job duration w))
         | JobReturns duration \<Rightarrow>
             (let w1 = run_job duration w;
                  diff = clock w1 - start_time;
                  wait = max 0 (dt_period d - diff)
              in DaemonThread_serve_loop js (d, sleep wait w1))))"

text \<open>
  \<^verbatim>\<open>stop\<close> with \<^verbatim>\<open>timeout=None\<close>, called while the thread is between two runs of the
  job. An exception on the queue is taken and raised at once; the \<^verbatim>\<open>except queue.Empty\<close>
  around that statement is meant for the empty queue, and it also catches a job's
  exception that is itself a \<^verbatim>\<open>queue.Empty\<close> (\<open>QueueEmpty\<close>). After it the event is
  set and the thread, joined, leaves its loop.
\<close>

definition DaemonThread_set_and_join :: "daemon_thread \<Rightarrow> unit outcome \<times> daemon_thread" where
  "DaemonThread_set_and_join d =
     (case dt_thread d of
        None \<Rightarrow> (Raises (AttributeError ''join''), d\<lparr>dt_event := True\<rparr>)
      | Some alive \<Rightarrow> (Returns (), d\<lparr>dt_event := True, dt_thread := Some False\<rparr>))"

definition DaemonThread_stop :: "daemon_thread \<Rightarrow> unit outcome \<times> daemon_thread" where
  "DaemonThread_stop d =
     (case dt_queue d of
        e # q \<Rightarrow>
          if e = QueueEmpty then DaemonThread_set_and_join (d\<lparr>dt_queue := q\<rparr>)
          else (Raises e, d\<lparr>dt_queue := q\<rparr>)
      | [] \<Rightarrow> DaemonThread_set_and_join d)"

subsection \<open>threaded.Daemon\<close>

record daemon =
  d_period :: real
  d_thread :: "bool option"

definition Daemon_init :: "real \<Rightarrow> exn + daemon" where
  "Daemon_init period =
     (if period < 0 then Inl NegativePeriodError
      else Inr \<lparr>d_period = period, d_thread = None\<rparr>)"

definition Daemon_serve :: "daemon \<Rightarrow> daemon" where
  "Daemon_serve d = d\<lparr>d_thread := Some True\<rparr>"

text \<open>
  \<^verbatim>\<open>_serve\<close> is \<^verbatim>\<open>while True\<close> with no \<^verbatim>\<open>try\<close>: an exception of the job ends the
  thread, and nothing of it is kept in the object.
\<close>

fun Daemon_serve_loop :: "job_run list \<Rightarrow> daemon \<times> world \<Rightarrow> daemon \<times> world" where
  "Daemon_serve_loop [] (d, w) = (d, w)"
| "Daemon_serve_loop (j # js) (d, w) =
     (if d_thread d \<noteq> Some True then (d, w)
      else
        (let start_time = clock w in
         case j of
           JobRaises duration x \<Rightarrow> (d\<lparr>d_thread := Some False\<rparr>, run_job duration w)
         | JobReturns duration \<Rightarrow>
             (let w1 = run_job duration w;
                  diff = clock w1 - start_time;
                  wait = max 0 (d_period d - diff)
              in Daemon_serve_loop js (d, sleep wait w1))))"

text \<open>
  The class defines \<^verbatim>\<open>__init__\<close>, \<^verbatim>\<open>serve\<close> and \<^verbatim>\<open>_serve\<close> only: a call of \<^verbatim>\<open>stop\<close>
  is Python's failed attribute lookup.
\<close>

definition Daemon_stop :: "daemon \<Rightarrow> unit outcome \<times> daemon" where
  "Daemon_stop d = (Raises (AttributeError ''stop''), d)"

subsection \<open>Serving, then stopping\<close>

text \<open>
  The scenario of \<^verbatim>\<open>test_daemon_raises_error\<close>: create the daemon, serve, let the job
  run as \<open>js\<close> says, then stop (and, for the async variant, await the handle). The world
  starts at clock 0. In the async variant the caller is a coroutine of the same event
  loop: when an exception has left the loop, the caller is not resumed and \<^verbatim>\<open>stop()\<close> is
  never reached.
\<close>

datatype stop_outcome = Stopped "unit outcome" | LoopLeft base_exception

definition world0 :: world where
  "world0 = \<lparr>clock = 0, events = []\<rparr>"

definition AsyncDaemon_serve_then_stop :: "real \<Rightarrow> job_run list \<Rightarrow> stop_outcome" where
  "AsyncDaemon_serve_then_stop period js =
     (case AsyncDaemon_init period of
        Inl e \<Rightarrow> Stopped (Raises e)
      | Inr d \<Rightarrow>
          (let d1 = fst (AsyncDaemon_serve_coro js (AsyncDaemon_serve d, world0)) in
           case ad_task d1 of
             Some (TaskLeftLoop x) \<Rightarrow> LoopLeft x
           | _ \<Rightarrow> (case AsyncDaemon_stop d1 of (handle, d') \<Rightarrow> Stopped (await_task d' handle))))"

definition DaemonThread_serve_then_stop :: "real \<Rightarrow> job_run list \<Rightarrow> unit outcome" where
  "DaemonThread_serve_then_stop period js =
     (case DaemonThread_init period of
        Inl e \<Rightarrow> Raises e
      | Inr d \<Rightarrow>
          fst (DaemonThread_stop (fst (DaemonThread_serve_loop js (DaemonThread_serve d, world0)))))"

definition Daemon_serve_then_stop :: "real \<Rightarrow> job_run list \<Rightarrow> unit outcome" where
  "Daemon_serve_then_stop period js =
     (case Daemon_init period of
        Inl e \<Rightarrow> Raises e
      | Inr d \<Rightarrow>
          fst (Daemon_stop (fst (Daemon_serve_loop js (Daemon_serve d, world0)))))"

text \<open>The job runs that end with the first exception \<open>x\<close>, raised after the runs \<open>durations\<close>.\<close>

definition raises_after :: "real list \<Rightarrow> real \<Rightarrow> base_exception \<Rightarrow> job_run list \<Rightarrow> job_run list" where
  "raises_after durations duration x rest = map JobReturns durations @ JobRaises duration x # rest"

section \<open>Concrete layouts and contexts\<close>

text \<open>
  A register layout object for two \<open>u16\<close> variables \<open>a\<close> and \<open>b\<close> at the addresses 7 and 8:
  it builds one chunk at address 7 with the given values in order, high byte first, and
  decodes the registers read to the two names. A coil layout object for three coils \<open>x\<close>,
  \<open>y\<close> and \<open>z\<close> at the addresses 2 to 4, a value other than 0 being a coil that is set.
  The server layout gives unit 0 holding registers and coils only, and unit 1 input
  registers and discrete inputs only. The datastores of both units are all zero.
\<close>

definition demo_register_layout :: "((string \<times> int) list, (string \<times> int) list) register_layout" where
  "demo_register_layout =
     \<lparr>rl_address = 7, rl_size = 2,
      rl_build_payload =
        (\<lambda>vals. Inr [\<lparr>chunk_address = 7,
                       chunk_values = map (\<lambda>(var, v). [word_of_int (v div 256), word_of_int v]) vals\<rparr>]),
      rl_decode_registers = (\<lambda>raw variables. Inr (zip [''a'', ''b''] raw)),
      rl_contains = (\<lambda>var. var \<in> set [''a'', ''b''])\<rparr>"

definition demo_coil_layout :: "((string \<times> int) list, (string \<times> int) list) coil_layout" where
  "demo_coil_layout =
     \<lparr>cl_address = 2, cl_size = 3,
      cl_build_payload =
        (\<lambda>vals. Inr [\<lparr>chunk_address = 2, chunk_values = map (\<lambda>(var, v). v \<noteq> 0) vals\<rparr>]),
      cl_decode_coils = (\<lambda>raw variables. Inr (zip [''x'', ''y'', ''z''] (map of_bool raw))),
      cl_contains = (\<lambda>var. var \<in> set [''x'', ''y'', ''z''])\<rparr>"

definition demo_slave_layout ::
  "(((string \<times> int) list, (string \<times> int) list) register_layout,
    ((string \<times> int) list, (string \<times> int) list) coil_layout) SlaveContextLayout" where
  "demo_slave_layout =
     \<lparr>holding_registers = Some demo_register_layout,
      input_registers = None,
      coils = Some demo_coil_layout,
      discrete_inputs = None\<rparr>"

definition demo_input_layout ::
  "(((string \<times> int) list, (string \<times> int) list) register_layout,
    ((string \<times> int) list, (string \<times> int) list) coil_layout) SlaveContextLayout" where
  "demo_input_layout =
     \<lparr>holding_registers = None,
      input_registers = Some demo_register_layout,
      coils = None,
      discrete_inputs = Some demo_coil_layout\<rparr>"

definition demo_layout :: "((string \<times> int) list, (string \<times> int) list) server_layout" where
  "demo_layout = [(0, demo_slave_layout), (1, demo_input_layout)]"

definition demo_slave :: slave_store where
  "demo_slave =
     \<lparr>store_h = (\<lambda>a. 0), store_i = (\<lambda>a. 0), store_c = (\<lambda>a. False), store_d = (\<lambda>a. False)\<rparr>"

definition demo_context :: modbus_context where
  "demo_context = [0 \<mapsto> demo_slave, 1 \<mapsto> demo_slave]"

text \<open>
  A transport that answers every request with the function code of its kind, and the
  client started on a transport that connects.
\<close>

definition server_transport :: "unit transport" where
  "server_transport t rpc =
     (Inr \<lparr>function_code =
             (case rpc of
                ReadCoilsRequest a n u \<Rightarrow> 1
              | ReadDiscreteInputsRequest a n u \<Rightarrow> 2
              | ReadHoldingRegistersRequest a n u \<Rightarrow> 3
              | ReadInputRegistersRequest a n u \<Rightarrow> 4
              | WriteCoilsRequest a bs u \<Rightarrow> 15
              | WriteRegistersRequest a rs u \<Rightarrow> 16),
           registers = [1024, 0], bits = [False, True, False]\<rparr>, t)"

definition started_client :: "unit client" where
  "started_client = snd (client_start (Inr ()) server_transport new_client)"

text \<open>An \<^verbatim>\<open>UnhandledException\<close> envelope among the messages.\<close>

definition is_envelope :: "message \<Rightarrow> bool" where
  "is_envelope m = (case m of UnhandledException e \<Rightarrow> True | _ \<Rightarrow> False)"

text \<open>
  A transport whose every call raises, and the client that was started on it and has
  made one call: its worker has put one envelope and ended.
\<close>

definition failing_transport :: "unit transport" where
  "failing_transport t rpc = (Inl (OtherError ''ConnectionException''), t)"

definition crashed_client :: "unit client" where
  "crashed_client =
     snd (client_execute failing_transport
            (snd (client_start (Inr ()) failing_transport new_client)) (ReadCoilsRequest 0 1 0))"

section \<open>registers.py: the payload builder and decoder\<close>

text \<open>
  \<^verbatim>\<open>registers.py\<close> and \<^verbatim>\<open>coils.py\<close> are not among the sources; only their tests are.
  The definitions of this section and of the next follow sections 3, 4.1 to 4.5 and 6 of
  the specification, and each says so.
\<close>

text \<open>Modelled from the spec: the byteorder and wordorder of \<^verbatim>\<open>registers.py\<close>, \<open>Big\<close> for
  \<^verbatim>\<open>">"\<close> and \<open>Little\<close> for \<^verbatim>\<open>"<"\<close>.\<close>

datatype order = Big | Little

text \<open>Modelled from the spec: the primitive type tags that \<^verbatim>\<open>registers.py\<close> accepts.\<close>

datatype tag = U16 | I16 | U32 | I32 | U64 | I64 | F16 | F32 | F64

text \<open>Modelled from the spec: the names of the tags of \<^verbatim>\<open>registers.py\<close>; any other name,
  the 8-bit ones among them, is unknown.\<close>

definition tag_of_name :: "string \<Rightarrow> tag option" where
  "tag_of_name s =
     (if s = ''u16'' then Some U16 else if s = ''i16'' then Some I16
      else if s = ''u32'' then Some U32 else if s = ''i32'' then Some I32
      else if s = ''u64'' then Some U64 else if s = ''i64'' then Some I64
      else if s = ''f16'' then Some F16 else if s = ''f32'' then Some F32
      else if s = ''f64'' then Some F64 else None)"

text \<open>Modelled from the spec: the name under which \<^verbatim>\<open>registers.py\<close> knows a tag.\<close>

fun tag_name :: "tag \<Rightarrow> string" where
  "tag_name U16 = ''u16''" | "tag_name I16 = ''i16''"
| "tag_name U32 = ''u32''" | "tag_name I32 = ''i32''"
| "tag_name U64 = ''u64''" | "tag_name I64 = ''i64''"
| "tag_name F16 = ''f16''" | "tag_name F32 = ''f32''"
| "tag_name F64 = ''f64''"

text \<open>Modelled from the spec: the size in registers of a number of \<^verbatim>\<open>registers.py\<close>, 1 for
  16 bits, 2 for 32 bits, 4 for 64 bits.\<close>

fun tag_registers :: "tag \<Rightarrow> nat" where
  "tag_registers U16 = 1" | "tag_registers I16 = 1" | "tag_registers F16 = 1"
| "tag_registers U32 = 2" | "tag_registers I32 = 2" | "tag_registers F32 = 2"
| "tag_registers U64 = 4" | "tag_registers I64 = 4" | "tag_registers F64 = 4"

text \<open>Modelled from the spec: the signed integer tags of \<^verbatim>\<open>registers.py\<close>.\<close>

fun tag_signed :: "tag \<Rightarrow> bool" where
  "tag_signed I16 = True" | "tag_signed I32 = True" | "tag_signed I64 = True"
| "tag_signed t = False"

text \<open>Modelled from the spec: the float tags of \<^verbatim>\<open>registers.py\<close>, which are not
  range-checked.\<close>

fun tag_float :: "tag \<Rightarrow> bool" where
  "tag_float F16 = True" | "tag_float F32 = True" | "tag_float F64 = True"
| "tag_float t = False"

text \<open>Modelled from the spec: the lower end of the integer range \<open>[min, max]\<close> of a tag of
  \<^verbatim>\<open>registers.py\<close> that spans \<open>n\<close> registers.\<close>

definition tag_min :: "tag \<Rightarrow> int" where
  "tag_min t = (if tag_signed t then - (65536 ^ tag_registers t div 2) else 0)"

text \<open>Modelled from the spec: the upper end of the integer range of a tag of
  \<^verbatim>\<open>registers.py\<close>.\<close>

definition tag_max :: "tag \<Rightarrow> int" where
  "tag_max t =
     (if tag_signed t then 65536 ^ tag_registers t div 2 - 1 else 65536 ^ tag_registers t - 1)"

text \<open>Modelled from the spec: a number that \<^verbatim>\<open>registers.py\<close> encodes or decodes. It is a
  Python int, or a Python float: a finite float is modelled by the real number it stands
  for (the real 0 stands for both zeros, which Python holds equal), an infinity by its
  sign, \<open>True\<close> for the negative one, and a NaN by itself.\<close>

datatype number = PyInt int | PyFloat real | PyInf bool | PyNaN

text \<open>Modelled from the spec: the width of the exponent field of an IEEE 754 float of 16,
  32 and 64 bits, for the float tags of \<^verbatim>\<open>registers.py\<close>.\<close>

fun float_exponent_bits :: "tag \<Rightarrow> nat" where
  "float_exponent_bits F16 = 5" | "float_exponent_bits F32 = 8" | "float_exponent_bits F64 = 11"
| "float_exponent_bits t = 0"

text \<open>Modelled from the spec: the width of the fraction field of an IEEE 754 float of 16,
  32 and 64 bits, for the float tags of \<^verbatim>\<open>registers.py\<close>.\<close>

fun float_fraction_bits :: "tag \<Rightarrow> nat" where
  "float_fraction_bits F16 = 10" | "float_fraction_bits F32 = 23" | "float_fraction_bits F64 = 52"
| "float_fraction_bits t = 0"

text \<open>Modelled from the spec: the exponent of the smallest normal IEEE 754 float of a float
  tag of \<^verbatim>\<open>registers.py\<close>, that is 1 minus the bias: -14, -126 and -1022.\<close>

definition float_emin :: "tag \<Rightarrow> int" where
  "float_emin t = 2 - 2 ^ (float_exponent_bits t - 1)"

text \<open>Modelled from the spec: \<open>x\<close> times 2 to the power \<open>k\<close>, as IEEE 754 floats of
  \<^verbatim>\<open>registers.py\<close> scale their significand.\<close>

definition ldexp :: "real \<Rightarrow> int \<Rightarrow> real" where
  "ldexp x k = (if 0 \<le> k then x * 2 ^ nat k else x / 2 ^ nat (- k))"

text \<open>Modelled from the spec: the rounding of IEEE 754 that the float tags of
  \<^verbatim>\<open>registers.py\<close> use, to the nearest integer and to the even one of two that are equally
  near.\<close>

definition round_half_even :: "real \<Rightarrow> int" where
  "round_half_even r =
     (let n = \<lfloor>r\<rfloor>; d = r - of_int n
      in if d < 1 / 2 then n else if 1 / 2 < d then n + 1 else if even n then n else n + 1)"

text \<open>Modelled from the spec: the exponent and fraction fields, read as one integer, of the
  IEEE 754 float of a float tag of \<^verbatim>\<open>registers.py\<close> that is nearest to \<open>a \<ge> 0\<close>. With
  \<open>p\<close> fraction bits, \<open>n\<close> counts the smallest subnormal steps in \<open>a\<close>, \<open>k\<close> is the number of
  binades \<open>a\<close> lies above the lowest one, and \<open>q\<close> is the significand of \<open>a\<close> rounded at
  the step of that binade; a significand that rounds up to \<open>2 ^ (p + 1)\<close> carries into
  the exponent field by the addition.\<close>

definition float_magnitude :: "tag \<Rightarrow> real \<Rightarrow> int" where
  "float_magnitude t a =
     (let p = int (float_fraction_bits t);
          n = \<lfloor>ldexp a (p - float_emin t)\<rfloor>;
          k = max 0 (bitlen n - p - 1);
          q = round_half_even (ldexp a (p - float_emin t - k))
      in k * 2 ^ float_fraction_bits t + q)"

text \<open>Modelled from the spec: the exponent and fraction fields of the infinity of a float
  tag of \<^verbatim>\<open>registers.py\<close>: the exponent all ones, the fraction zero.\<close>

definition float_infinity :: "tag \<Rightarrow> int" where
  "float_infinity t = (2 ^ float_exponent_bits t - 1) * 2 ^ float_fraction_bits t"

text \<open>Modelled from the spec: the sign bit of a float tag of \<^verbatim>\<open>registers.py\<close>, the highest
  bit of the pattern.\<close>

definition float_sign_bit :: "tag \<Rightarrow> int" where
  "float_sign_bit t = 2 ^ (float_exponent_bits t + float_fraction_bits t)"

text \<open>Modelled from the spec: the IEEE 754 pattern of a finite value under a float tag of
  \<^verbatim>\<open>registers.py\<close>. Float tags are not range-checked: a value too large for the tag rounds
  to the infinity, as IEEE 754 has it.\<close>

definition finite_bits :: "tag \<Rightarrow> real \<Rightarrow> int" where
  "finite_bits t x =
     (if x < 0 then float_sign_bit t else 0) + min (float_magnitude t \<bar>x\<bar>) (float_infinity t)"

text \<open>Modelled from the spec: the IEEE 754 pattern of a number under a float tag of
  \<^verbatim>\<open>registers.py\<close>, as an unsigned integer. An int is taken as the real number it is; a
  NaN is the quiet one.\<close>

definition float_bits :: "tag \<Rightarrow> number \<Rightarrow> int" where
  "float_bits t v =
     (case v of
        PyInt i \<Rightarrow> finite_bits t (of_int i)
      | PyFloat x \<Rightarrow> finite_bits t x
      | PyInf negative \<Rightarrow> (if negative then float_sign_bit t else 0) + float_infinity t
      | PyNaN \<Rightarrow> float_infinity t + 2 ^ (float_fraction_bits t - 1))"

text \<open>Modelled from the spec: the value of the exponent and fraction fields \<open>m\<close> of a finite
  IEEE 754 float of a float tag of \<^verbatim>\<open>registers.py\<close>: subnormal when the exponent field \<open>e\<close>
  is zero, with the hidden bit otherwise.\<close>

definition float_value :: "tag \<Rightarrow> int \<Rightarrow> real" where
  "float_value t m =
     (let p = float_fraction_bits t; e = m div 2 ^ p; f = m mod 2 ^ p
      in if e = 0 then ldexp (of_int f) (float_emin t - int p)
         else ldexp (of_int (2 ^ p + f)) (float_emin t - int p + e - 1))"

text \<open>Modelled from the spec: the number that an IEEE 754 pattern stands for under a float
  tag of \<^verbatim>\<open>registers.py\<close>.\<close>

definition bits_float :: "tag \<Rightarrow> int \<Rightarrow> number" where
  "bits_float t u =
     (let negative = (float_sign_bit t \<le> u); m = u mod float_sign_bit t
      in if float_infinity t < m then PyNaN
         else if m = float_infinity t then PyInf negative
         else PyFloat (if negative then - float_value t m else float_value t m))"

text \<open>
  The largest finite value of a float tag, its smallest normal value and its machine
  epsilon, the distance from 1 to the next float: 65504, \<open>2 ^ -14\<close> and \<open>2 ^ -10\<close> for
  \<open>f16\<close>.
\<close>

definition float_max :: "tag \<Rightarrow> real" where
  "float_max t = float_value t (float_infinity t - 1)"

definition float_min_normal :: "tag \<Rightarrow> real" where
  "float_min_normal t = ldexp 1 (float_emin t)"

definition float_epsilon :: "tag \<Rightarrow> real" where
  "float_epsilon t = ldexp 1 (- int (float_fraction_bits t))"

text \<open>
  The two intermediate values of \<open>float_magnitude\<close>, named for the proofs: the binade \<open>k\<close>
  and the significand before it is rounded.
\<close>

definition float_step :: "tag \<Rightarrow> real \<Rightarrow> int" where
  "float_step t a =
     max 0 (bitlen \<lfloor>ldexp a (int (float_fraction_bits t) - float_emin t)\<rfloor>
            - int (float_fraction_bits t) - 1)"

definition float_scaled :: "tag \<Rightarrow> real \<Rightarrow> real" where
  "float_scaled t a = ldexp a (int (float_fraction_bits t) - float_emin t - float_step t a)"

text \<open>
  The values a tag can represent: for an integer tag the ints of its range, for a float
  tag the numbers within its finite range and the two infinities. A NaN is left out: it
  is not equal to itself. \<open>number_value\<close> is the real number that a finite number stands
  for.
\<close>

definition representable :: "tag \<Rightarrow> number \<Rightarrow> bool" where
  "representable t v =
     (case v of
        PyInt i \<Rightarrow>
          if tag_float t then \<bar>of_int i\<bar> \<le> float_max t else tag_min t \<le> i \<and> i \<le> tag_max t
      | PyFloat x \<Rightarrow> tag_float t \<and> \<bar>x\<bar> \<le> float_max t
      | PyInf negative \<Rightarrow> tag_float t
      | PyNaN \<Rightarrow> False)"

fun number_value :: "number \<Rightarrow> real option" where
  "number_value (PyInt i) = Some (of_int i)"
| "number_value (PyFloat x) = Some x"
| "number_value v = None"

text \<open>Modelled from the spec: the \<open>n\<close> registers of a value in \<^verbatim>\<open>registers.py\<close>, least
  significant first; a negative value is in two's complement.\<close>

fun registers_le :: "nat \<Rightarrow> int \<Rightarrow> int list" where
  "registers_le 0 v = []"
| "registers_le (Suc n) v = v mod 65536 # registers_le n (v div 65536)"

text \<open>Modelled from the spec: the byteorder inside one register chunk of \<^verbatim>\<open>registers.py\<close>,
  big for the high byte first, little for the low byte first.\<close>

definition register_bytes :: "order \<Rightarrow> int \<Rightarrow> 8 word list" where
  "register_bytes byteorder r =
     (case byteorder of
        Big \<Rightarrow> [word_of_int (r div 256), word_of_int (r mod 256)]
      | Little \<Rightarrow> [word_of_int (r mod 256), word_of_int (r div 256)])"

text \<open>Modelled from the spec: the wordorder of the registers of one value in
  \<^verbatim>\<open>registers.py\<close>, big for the most significant register first, little for the least
  significant first.\<close>

definition word_ordered :: "order \<Rightarrow> 'a list \<Rightarrow> 'a list" where
  "word_ordered wordorder rs = (case wordorder of Big \<Rightarrow> rev rs | Little \<Rightarrow> rs)"

text \<open>Modelled from the spec: the chunks of one number in \<^verbatim>\<open>registers.py\<close>.\<close>

definition encode_number :: "order \<Rightarrow> order \<Rightarrow> nat \<Rightarrow> int \<Rightarrow> 8 word list list" where
  "encode_number byteorder wordorder n v =
     map (register_bytes byteorder) (word_ordered wordorder (registers_le n v))"

text \<open>Modelled from the spec: the \<^verbatim>\<open>_PayloadBuilder\<close> of \<^verbatim>\<open>registers.py\<close>, a list of
  register chunks of two bytes each, with its two orders.\<close>

record builder =
  b_byteorder :: order
  b_wordorder :: order
  b_chunks :: "8 word list list"

text \<open>Modelled from the spec: the constructor of \<^verbatim>\<open>_PayloadBuilder\<close> in \<^verbatim>\<open>registers.py\<close>.\<close>

definition PayloadBuilder :: "order \<Rightarrow> order \<Rightarrow> builder" where
  "PayloadBuilder byteorder wordorder =
     \<lparr>b_byteorder = byteorder, b_wordorder = wordorder, b_chunks = []\<rparr>"

text \<open>Modelled from the spec: the integer that \<^verbatim>\<open>add_number\<close> of \<^verbatim>\<open>registers.py\<close> writes
  to the registers of a tag. An integer tag takes an int of its range, and any other int
  is an \<open>OutOfBoundsError\<close>; a value that is no int has no encoding under an integer tag,
  the catch-all \<open>EncodingError\<close>. A float tag is not range-checked and takes the IEEE 754
  pattern of the number.\<close>

definition number_bits :: "string \<Rightarrow> tag \<Rightarrow> number \<Rightarrow> exn + int" where
  "number_bits name t v =
     (if tag_float t then Inr (float_bits t v)
      else (case v of
              PyInt i \<Rightarrow>
                if i < tag_min t \<or> tag_max t < i then Inl (OutOfBoundsError name i) else Inr i
            | _ \<Rightarrow> Inl EncodingError))"

text \<open>Modelled from the spec: \<^verbatim>\<open>_PayloadBuilder.add_number\<close> of \<^verbatim>\<open>registers.py\<close>. It fails
  with \<open>UnknownTypeError\<close> on an unknown tag and with \<open>OutOfBoundsError\<close> on an integer
  outside the tag's range; float tags are not range-checked.\<close>

definition add_number :: "builder \<Rightarrow> string \<Rightarrow> number \<Rightarrow> exn + builder" where
  "add_number b name v =
     (case tag_of_name name of
        None \<Rightarrow> Inl (UnknownTypeError name)
      | Some t \<Rightarrow>
          (case number_bits name t v of
             Inl e \<Rightarrow> Inl e
           | Inr u \<Rightarrow>
               Inr (b\<lparr>b_chunks := b_chunks b @
                     encode_number (b_byteorder b) (b_wordorder b) (tag_registers t) u\<rparr>)))"

text \<open>Modelled from the spec: \<^verbatim>\<open>_PayloadBuilder.build\<close> of \<^verbatim>\<open>registers.py\<close>, the chunks in
  the order they were added.\<close>

definition build :: "builder \<Rightarrow> 8 word list list" where
  "build b = b_chunks b"

text \<open>Modelled from the spec: the \<^verbatim>\<open>_PayloadDecoder\<close> of \<^verbatim>\<open>registers.py\<close>, the bytes not
  yet read of a flat buffer, with its two orders.\<close>

record decoder =
  d_payload :: "8 word list"
  d_byteorder :: order
  d_wordorder :: order

text \<open>Modelled from the spec: the constructor of \<^verbatim>\<open>_PayloadDecoder\<close> in \<^verbatim>\<open>registers.py\<close>.\<close>

definition PayloadDecoder :: "8 word list \<Rightarrow> order \<Rightarrow> order \<Rightarrow> decoder" where
  "PayloadDecoder payload byteorder wordorder =
     \<lparr>d_payload = payload, d_byteorder = byteorder, d_wordorder = wordorder\<rparr>"

text \<open>Modelled from the spec: the inverse of \<open>register_bytes\<close>, the register that two bytes
  of the buffer of \<^verbatim>\<open>registers.py\<close> stand for.\<close>

definition register_value :: "order \<Rightarrow> 8 word \<Rightarrow> 8 word \<Rightarrow> int" where
  "register_value byteorder b0 b1 =
     (case byteorder of
        Big \<Rightarrow> 256 * uint b0 + uint b1
      | Little \<Rightarrow> 256 * uint b1 + uint b0)"

text \<open>Modelled from the spec: the registers of a run of bytes in \<^verbatim>\<open>registers.py\<close>, two
  bytes each.\<close>

fun register_values :: "order \<Rightarrow> 8 word list \<Rightarrow> int list" where
  "register_values byteorder (b0 # b1 # bs) =
     register_value byteorder b0 b1 # register_values byteorder bs"
| "register_values byteorder bs = []"

text \<open>Modelled from the spec: the inverse of \<open>registers_le\<close>, the unsigned value of
  registers given least significant first.\<close>

fun from_registers_le :: "int list \<Rightarrow> int" where
  "from_registers_le [] = 0"
| "from_registers_le (r # rs) = r + 65536 * from_registers_le rs"

text \<open>Modelled from the spec: \<^verbatim>\<open>_PayloadDecoder.decode_number\<close> of \<^verbatim>\<open>registers.py\<close>, the
  inverse of \<open>add_number\<close>. It reads the registers of the tag from the front of the
  buffer, as a two's complement integer for an integer tag and as an IEEE 754 pattern for
  a float tag; a buffer that is too short is an \<open>EncodingError\<close>.\<close>

definition decode_number :: "decoder \<Rightarrow> string \<Rightarrow> (exn + number) \<times> decoder" where
  "decode_number d name =
     (case tag_of_name name of
        None \<Rightarrow> (Inl (UnknownTypeError name), d)
      | Some t \<Rightarrow>
          (let n = tag_registers t in
           if length (d_payload d) < 2 * n then (Inl EncodingError, d)
           else
             (let rs = register_values (d_byteorder d) (take (2 * n) (d_payload d));
                  u = from_registers_le (word_ordered (d_wordorder d) rs);
                  v = (if tag_float t then bits_float t u
                       else PyInt (if tag_signed t \<and> 65536 ^ n div 2 \<le> u then u - 65536 ^ n else u))
              in (Inr v, d\<lparr>d_payload := drop (2 * n) (d_payload d)\<rparr>))))"

text \<open>
  The frames that address-independent permutations give: the bytes of every chunk
  reversed under the little byteorder, the chunks reversed under the little wordorder.
\<close>

definition swap_bytes :: "order \<Rightarrow> 8 word list list \<Rightarrow> 8 word list list" where
  "swap_bytes byteorder chunks = (case byteorder of Big \<Rightarrow> chunks | Little \<Rightarrow> map rev chunks)"

definition swap_words :: "order \<Rightarrow> 8 word list list \<Rightarrow> 8 word list list" where
  "swap_words wordorder chunks = (case wordorder of Big \<Rightarrow> chunks | Little \<Rightarrow> rev chunks)"

section \<open>registers.py and coils.py: layouts and the payload planner\<close>

text \<open>Modelled from the spec: a variable of a layout of \<^verbatim>\<open>registers.py\<close> or \<^verbatim>\<open>coils.py\<close>
  after placement, with its name, its address, its size in cells (registers or coils)
  and what kind of variable it is.\<close>

record 'k variable =
  var_name :: string
  var_address :: nat
  var_size :: nat
  var_kind :: 'k

text \<open>Modelled from the spec: a variable as it is declared to the layout constructors
  of \<^verbatim>\<open>registers.py\<close> and \<^verbatim>\<open>coils.py\<close>, the address being optional. Addresses are
  natural numbers, so the \<open>NegativeAddress\<close> error has no counterpart.\<close>

record 'k decl =
  decl_name :: string
  decl_size :: nat
  decl_address :: "nat option"
  decl_kind :: 'k

text \<open>Modelled from the spec: address assignment in the layout constructors of
  \<^verbatim>\<open>registers.py\<close> and \<^verbatim>\<open>coils.py\<close>. A variable without an address is placed where the
  previous one ends (\<open>next\<close>); an explicit address below that is an
  \<open>InvalidAddressLayoutError\<close>.\<close>

fun place :: "nat \<Rightarrow> 'k decl list \<Rightarrow> exn + 'k variable list" where
  "place next [] = Inr []"
| "place next (d # ds) =
     (let a = (case decl_address d of None \<Rightarrow> next | Some a \<Rightarrow> a) in
      if a < next then Inl (InvalidAddressLayoutError (decl_name d) a next)
      else
        (case place (a + decl_size d) ds of
           Inl e \<Rightarrow> Inl e
         | Inr vs \<Rightarrow>
             Inr (\<lparr>var_name = decl_name d, var_address = a, var_size = decl_size d,
                   var_kind = decl_kind d\<rparr> # vs)))"

text \<open>Modelled from the spec: the first name that occurs twice among the variables
  given to a layout constructor of \<^verbatim>\<open>registers.py\<close> or \<^verbatim>\<open>coils.py\<close>.\<close>

fun first_duplicate :: "string list \<Rightarrow> string option" where
  "first_duplicate [] = None"
| "first_duplicate (n # ns) = (if n \<in> set ns then Some n else first_duplicate ns)"

text \<open>Modelled from the spec: the layout constructors \<^verbatim>\<open>RegisterLayout\<close> and
  \<^verbatim>\<open>CoilLayout\<close> of \<^verbatim>\<open>registers.py\<close> and \<^verbatim>\<open>coils.py\<close>: at least one variable, unique
  names, then address assignment.\<close>

definition Layout :: "'k decl list \<Rightarrow> exn + 'k variable list" where
  "Layout ds =
     (if ds = [] then Inl NoVariablesError
      else
        (case first_duplicate (map decl_name ds) of
           Some n \<Rightarrow> Inl (DuplicateVariableError n)
         | None \<Rightarrow> place 0 ds))"

text \<open>Modelled from the spec: the keys that a layout of \<^verbatim>\<open>registers.py\<close> or \<^verbatim>\<open>coils.py\<close>
  does not declare, all of them, in the order given.\<close>

definition unknown_keys :: "'k variable list \<Rightarrow> string list \<Rightarrow> string list" where
  "unknown_keys vars keys = filter (\<lambda>k. k \<notin> set (map var_name vars)) keys"

text \<open>Modelled from the spec: the encoding of the values map by a layout of
  \<^verbatim>\<open>registers.py\<close> or \<^verbatim>\<open>coils.py\<close>, variable by variable in address order. A variable
  that is not in the map gives \<open>None\<close>, a variable that is gives its cells; the first
  failure of the encoder \<open>enc\<close> ends the encoding. The values map is an association list
  with the dict's keys.\<close>

fun encode_variables ::
  "('k variable \<Rightarrow> 'v \<Rightarrow> exn + 'c list) \<Rightarrow> 'k variable list \<Rightarrow> (string \<times> 'v) list \<Rightarrow>
   exn + ('k variable \<times> 'c list) option list" where
  "encode_variables enc [] vals = Inr []"
| "encode_variables enc (v # vs) vals =
     (case map_of vals (var_name v) of
        None \<Rightarrow>
          (case encode_variables enc vs vals of
             Inl e \<Rightarrow> Inl e
           | Inr items \<Rightarrow> Inr (None # items))
      | Some x \<Rightarrow>
          (case enc v x of
             Inl e \<Rightarrow> Inl e
           | Inr cells \<Rightarrow>
               (case encode_variables enc vs vals of
                  Inl e \<Rightarrow> Inl e
                | Inr items \<Rightarrow> Inr (Some (v, cells) # items))))"

text \<open>Modelled from the spec: the planner of \<^verbatim>\<open>build_payload\<close> in \<^verbatim>\<open>registers.py\<close> and
  \<^verbatim>\<open>coils.py\<close> (section 4.5). It walks the variables in address order with the chunk
  under construction and the address where the last written variable ends. A written
  variable that starts exactly there extends the chunk; any other written variable
  closes the chunk and opens a new one; a variable that is not written closes the chunk.\<close>

fun merge_chunks ::
  "(nat \<times> 'c chunk) option \<Rightarrow> ('k variable \<times> 'c list) option list \<Rightarrow> 'c chunk list" where
  "merge_chunks None [] = []"
| "merge_chunks (Some (e, c)) [] = [c]"
| "merge_chunks None (None # items) = merge_chunks None items"
| "merge_chunks (Some (e, c)) (None # items) = c # merge_chunks None items"
| "merge_chunks None (Some (v, cells) # items) =
     merge_chunks
       (Some (var_address v + var_size v, \<lparr>chunk_address = var_address v, chunk_values = cells\<rparr>))
       items"
| "merge_chunks (Some (e, c)) (Some (v, cells) # items) =
     (if e = var_address v
      then merge_chunks
             (Some (var_address v + var_size v, c\<lparr>chunk_values := chunk_values c @ cells\<rparr>)) items
      else c # merge_chunks
             (Some (var_address v + var_size v,
                    \<lparr>chunk_address = var_address v, chunk_values = cells\<rparr>)) items)"

text \<open>Modelled from the spec: \<^verbatim>\<open>build_payload\<close> of \<^verbatim>\<open>RegisterLayout\<close> and \<^verbatim>\<open>CoilLayout\<close>
  in \<^verbatim>\<open>registers.py\<close> and \<^verbatim>\<open>coils.py\<close>; the two differ in the encoder \<open>enc\<close> of a variable
  only. Keys that the layout does not declare raise \<open>VariableNotFoundError\<close> with all of
  them.\<close>

definition build_payload ::
  "('k variable \<Rightarrow> 'v \<Rightarrow> exn + 'c list) \<Rightarrow> 'k variable list \<Rightarrow> (string \<times> 'v) list \<Rightarrow>
   exn + 'c chunk list" where
  "build_payload enc vars vals =
     (if unknown_keys vars (map fst vals) \<noteq> []
      then Inl (VariableNotFoundError (unknown_keys vars (map fst vals)))
      else
        (case encode_variables enc vars vals of
           Inl e \<Rightarrow> Inl e
         | Inr items \<Rightarrow> Inr (merge_chunks None items)))"

text \<open>Modelled from the spec: the decoding of a readout by a layout of \<^verbatim>\<open>registers.py\<close>
  or \<^verbatim>\<open>coils.py\<close>. The raw cells cover the layout from the address of its first variable
  on; each variable is decoded by \<open>dec\<close> from its own cells.\<close>

fun decode_variables ::
  "('k variable \<Rightarrow> 'r list \<Rightarrow> exn + 'x) \<Rightarrow> nat \<Rightarrow> 'r list \<Rightarrow> 'k variable list \<Rightarrow>
   exn + (string \<times> 'x) list" where
  "decode_variables dec base raw [] = Inr []"
| "decode_variables dec base raw (v # vs) =
     (case dec v (take (var_size v) (drop (var_address v - base) raw)) of
        Inl e \<Rightarrow> Inl e
      | Inr x \<Rightarrow>
          (case decode_variables dec base raw vs of
             Inl e \<Rightarrow> Inl e
           | Inr xs \<Rightarrow> Inr ((var_name v, x) # xs)))"

text \<open>Modelled from the spec: \<^verbatim>\<open>decode_registers\<close> and \<^verbatim>\<open>decode_coils\<close> of the layouts in
  \<^verbatim>\<open>registers.py\<close> and \<^verbatim>\<open>coils.py\<close>. Without \<open>variables\<close> all variables are returned;
  names that the layout does not declare raise \<open>VariableNotFoundError\<close> with all of them.\<close>

definition decode_layout ::
  "('k variable \<Rightarrow> 'r list \<Rightarrow> exn + 'x) \<Rightarrow> 'k variable list \<Rightarrow> 'r list \<Rightarrow> string list option \<Rightarrow>
   exn + (string \<times> 'x) list" where
  "decode_layout dec vars raw variables =
     (let base = (case vars of [] \<Rightarrow> 0 | v # vs \<Rightarrow> var_address v) in
      case variables of
        None \<Rightarrow> decode_variables dec base raw vars
      | Some names \<Rightarrow>
          if unknown_keys vars names \<noteq> [] then Inl (VariableNotFoundError (unknown_keys vars names))
          else decode_variables dec base raw (filter (\<lambda>v. var_name v \<in> set names) vars))"

text \<open>Modelled from the spec: a value of a coil variable in \<^verbatim>\<open>coils.py\<close>, one bool for a
  variable of size 1, a sequence of bools otherwise.\<close>

datatype coil_value = CoilBit bool | CoilBits "bool list"

text \<open>Modelled from the spec: the encoding of one coil variable in \<^verbatim>\<open>coils.py\<close>. A value
  of the wrong shape or length is an \<open>EncodingError\<close>.\<close>

definition coil_encode :: "unit variable \<Rightarrow> coil_value \<Rightarrow> exn + bool list" where
  "coil_encode v x =
     (case x of
        CoilBit b \<Rightarrow> if var_size v = 1 then Inr [b] else Inl EncodingError
      | CoilBits bs \<Rightarrow>
          if var_size v \<noteq> 1 \<and> length bs = var_size v then Inr bs else Inl EncodingError)"

text \<open>Modelled from the spec: the decoding of one coil variable in \<^verbatim>\<open>coils.py\<close>.\<close>

definition coil_decode :: "unit variable \<Rightarrow> bool list \<Rightarrow> exn + coil_value" where
  "coil_decode v bs =
     (if length bs \<noteq> var_size v then Inl EncodingError
      else (case bs of [b] \<Rightarrow> Inr (CoilBit b) | _ \<Rightarrow> Inr (CoilBits bs)))"

text \<open>Modelled from the spec: the encoding of a \<^verbatim>\<open>Number\<close> variable of \<^verbatim>\<open>registers.py\<close>
  through a fresh builder; the kind of the variable is the name of its tag.\<close>

definition number_encode :: "order \<Rightarrow> order \<Rightarrow> string variable \<Rightarrow> number \<Rightarrow> exn + 8 word list list" where
  "number_encode byteorder wordorder v x =
     (case add_number (PayloadBuilder byteorder wordorder) (var_kind v) x of
        Inl e \<Rightarrow> Inl e
      | Inr b \<Rightarrow> Inr (build b))"

text \<open>
  The notions of section 4.5 of the specification that the planner is measured against.
  The written variables in address order, \<open>None\<close> for a declared variable that is not
  written; the number of maximal runs of written variables, a run starting at every
  written variable that does not begin exactly where a written variable directly before
  it ends; the cells of a chunk and of a variable with their addresses.
\<close>

definition written :: "'k variable list \<Rightarrow> string list \<Rightarrow> 'k variable option list" where
  "written vars keys = map (\<lambda>v. if var_name v \<in> set keys then Some v else None) vars"

fun run_starts :: "nat option \<Rightarrow> 'k variable option list \<Rightarrow> nat" where
  "run_starts prev_end [] = 0"
| "run_starts prev_end (None # ws) = run_starts None ws"
| "run_starts prev_end (Some v # ws) =
     (if prev_end = Some (var_address v) then 0 else 1)
     + run_starts (Some (var_address v + var_size v)) ws"

definition maximal_runs :: "'k variable list \<Rightarrow> string list \<Rightarrow> nat" where
  "maximal_runs vars keys = run_starts None (written vars keys)"

definition chunk_cells :: "'c chunk \<Rightarrow> (nat \<times> 'c) list" where
  "chunk_cells c =
     zip [chunk_address c ..< chunk_address c + length (chunk_values c)] (chunk_values c)"

definition variable_cells :: "'k variable \<Rightarrow> 'c list \<Rightarrow> (nat \<times> 'c) list" where
  "variable_cells v cells = zip [var_address v ..< var_address v + var_size v] cells"

definition expected_cells ::
  "('k variable \<Rightarrow> 'v \<Rightarrow> exn + 'c list) \<Rightarrow> 'k variable list \<Rightarrow> (string \<times> 'v) list \<Rightarrow> (nat \<times> 'c) list" where
  "expected_cells enc vars vals =
     concat (map (\<lambda>v. case map_of vals (var_name v) of
                        None \<Rightarrow> []
                      | Some x \<Rightarrow> (case enc v x of Inl e \<Rightarrow> [] | Inr cells \<Rightarrow> variable_cells v cells))
               vars)"

text \<open>Every value of the map is encoded by \<open>enc\<close> into as many cells as its variable has.\<close>

definition encodable ::
  "('k variable \<Rightarrow> 'v \<Rightarrow> exn + 'c list) \<Rightarrow> 'k variable list \<Rightarrow> (string \<times> 'v) list \<Rightarrow> bool" where
  "encodable enc vars vals =
     list_all (\<lambda>v. case map_of vals (var_name v) of
                     None \<Rightarrow> True
                   | Some x \<Rightarrow> (case enc v x of Inl e \<Rightarrow> False | Inr cells \<Rightarrow> length cells = var_size v))
       vars"

text \<open>The coil layout of \<^verbatim>\<open>test_coils.py\<close> and the values of \<^verbatim>\<open>test_build_payload\<close>.\<close>

definition test_coil_declarations :: "unit decl list" where
  "test_coil_declarations =
     [\<lparr>decl_name = ''x'', decl_size = 3, decl_address = Some 2, decl_kind = ()\<rparr>,
      \<lparr>decl_name = ''y'', decl_size = 1, decl_address = Some 7, decl_kind = ()\<rparr>,
      \<lparr>decl_name = ''z'', decl_size = 5, decl_address = None, decl_kind = ()\<rparr>,
      \<lparr>decl_name = ''u'', decl_size = 1, decl_address = None, decl_kind = ()\<rparr>,
      \<lparr>decl_name = ''v'', decl_size = 2, decl_address = None, decl_kind = ()\<rparr>]"

definition test_coil_layout :: "unit variable list" where
  "test_coil_layout =
     [\<lparr>var_name = ''x'', var_address = 2, var_size = 3, var_kind = ()\<rparr>,
      \<lparr>var_name = ''y'', var_address = 7, var_size = 1, var_kind = ()\<rparr>,
      \<lparr>var_name = ''z'', var_address = 8, var_size = 5, var_kind = ()\<rparr>,
      \<lparr>var_name = ''u'', var_address = 13, var_size = 1, var_kind = ()\<rparr>,
      \<lparr>var_name = ''v'', var_address = 14, var_size = 2, var_kind = ()\<rparr>]"

definition test_coil_values :: "(string \<times> coil_value) list" where
  "test_coil_values =
     [(''x'', CoilBits [False, True, False]), (''y'', CoilBit True),
      (''z'', CoilBits [False, False, True, True, False]), (''v'', CoilBits [False, True])]"

text \<open>
  The invariants the proofs about the planner carry along. A layout is ascending from
  \<open>lb\<close> when every variable starts at or after \<open>lb\<close> and at or after the end of the one
  before it. The items are what \<open>encode_variables\<close> yields when every encoder succeeds.
\<close>

fun ascending :: "nat \<Rightarrow> 'k variable list \<Rightarrow> bool" where
  "ascending lb [] = True"
| "ascending lb (v # vs) = (lb \<le> var_address v \<and> ascending (var_address v + var_size v) vs)"

definition item_of ::
  "('k variable \<Rightarrow> 'v \<Rightarrow> exn + 'c list) \<Rightarrow> (string \<times> 'v) list \<Rightarrow> 'k variable \<Rightarrow>
   ('k variable \<times> 'c list) option" where
  "item_of enc vals v =
     (case map_of vals (var_name v) of
        None \<Rightarrow> None
      | Some x \<Rightarrow> (case enc v x of Inl e \<Rightarrow> None | Inr cells \<Rightarrow> Some (v, cells)))"

definition item_cells :: "('k variable \<times> 'c list) option \<Rightarrow> (nat \<times> 'c) list" where
  "item_cells item = (case item of None \<Rightarrow> [] | Some (v, cells) \<Rightarrow> variable_cells v cells)"

definition sized :: "('k variable \<times> 'c list) option \<Rightarrow> bool" where
  "sized item = (case item of None \<Rightarrow> True | Some (v, cells) \<Rightarrow> length cells = var_size v)"

fun items_ascending :: "nat \<Rightarrow> ('k variable \<times> 'c list) option list \<Rightarrow> bool" where
  "items_ascending lb [] = True"
| "items_ascending lb (None # items) = items_ascending lb items"
| "items_ascending lb (Some (v, cells) # items) =
     (lb \<le> var_address v \<and> items_ascending (var_address v + var_size v) items)"

section \<open>The local context stores high byte times 256 plus low byte\<close>

lemma convert_values_two_byte:
  "list_all (\<lambda>b. length b = 2) xs \<Longrightarrow> convert_values xs = Inr (map to_u16 xs)"
  by (induction xs) (simp_all add: bytes_to_16bit_int_def to_u16_def)

lemma write_register_payloads_holding:
  "ctx unit = Some slave \<Longrightarrow> two_byte_chunks payloads \<Longrightarrow>
   write_register_payloads True ctx unit payloads =
     (ctx(unit \<mapsto> slave\<lparr>store_h := stored_block (store_h slave) payloads\<rparr>), None)"
proof (induction payloads arbitrary: ctx slave)
  case Nil
  then show ?case by (simp add: stored_block_def map_upd_triv)
next
  case (Cons p ps)
  from Cons.prems(2) have chunks: "list_all (\<lambda>b. length b = 2) (chunk_values p)"
    and rest: "two_byte_chunks ps"
    by (simp_all add: two_byte_chunks_def)
  let ?slave = "slave\<lparr>store_h := setValues (store_h slave) (chunk_address p) (map to_u16 (chunk_values p))\<rparr>"
  have "write_register_payloads True (ctx(unit \<mapsto> ?slave)) unit ps =
      ((ctx(unit \<mapsto> ?slave))(unit \<mapsto> ?slave\<lparr>store_h := stored_block (store_h ?slave) ps\<rparr>), None)"
    by (rule Cons.IH) (simp_all add: rest)
  with Cons.prems(1) chunks show ?case
    by (auto simp add: convert_values_two_byte stored_block_def fun_upd_def)
qed

lemma write_register_payloads_input:
  "ctx unit = Some slave \<Longrightarrow> two_byte_chunks payloads \<Longrightarrow>
   write_register_payloads False ctx unit payloads =
     (ctx(unit \<mapsto> slave\<lparr>store_i := stored_block (store_i slave) payloads\<rparr>), None)"
proof (induction payloads arbitrary: ctx slave)
  case Nil
  then show ?case by (simp add: stored_block_def map_upd_triv)
next
  case (Cons p ps)
  from Cons.prems(2) have chunks: "list_all (\<lambda>b. length b = 2) (chunk_values p)"
    and rest: "two_byte_chunks ps"
    by (simp_all add: two_byte_chunks_def)
  let ?slave = "slave\<lparr>store_i := setValues (store_i slave) (chunk_address p) (map to_u16 (chunk_values p))\<rparr>"
  have "write_register_payloads False (ctx(unit \<mapsto> ?slave)) unit ps =
      ((ctx(unit \<mapsto> ?slave))(unit \<mapsto> ?slave\<lparr>store_i := stored_block (store_i ?slave) ps\<rparr>), None)"
    by (rule Cons.IH) (simp_all add: rest)
  with Cons.prems(1) chunks show ?case
    by (auto simp add: convert_values_two_byte stored_block_def fun_upd_def)
qed

text \<open>
  C8. Let the context have a datastore for the unit. Whatever chunks of two bytes the
  unit's holding register layout builds from the values, and so whatever byte and word
  order it was configured with, \<open>set_holding_registers\<close> succeeds and leaves in the holding
  block, for every register of every chunk, the integer \<open>256 * b[0] + b[1]\<close> of its two
  bytes \<open>b\<close>, written at the chunk's address in the order of the payloads. The same holds
  of \<open>set_input_registers\<close>, the unit's input register layout and the input block. Neither
  needs the other layout.
\<close>

theorem set_registers_store_big_endian_u16:
  assumes "map_of layout unit = Some sl"
    and "ctx unit = Some slave"
  shows "(holding_registers sl = Some hl \<longrightarrow> rl_build_payload hl hvals = Inr hps \<longrightarrow>
          two_byte_chunks hps \<longrightarrow>
            set_holding_registers ctx layout hvals unit =
              (ctx(unit \<mapsto> slave\<lparr>store_h :=
                 fold (\<lambda>p blk. setValues blk (chunk_address p)
                         (map (\<lambda>b. 256 * uint (b ! 0) + uint (b ! 1)) (chunk_values p)))
                   hps (store_h slave)\<rparr>), None)) \<and>
         (input_registers sl = Some il \<longrightarrow> rl_build_payload il ivals = Inr ips \<longrightarrow>
          two_byte_chunks ips \<longrightarrow>
            set_input_registers ctx layout ivals unit =
              (ctx(unit \<mapsto> slave\<lparr>store_i :=
                 fold (\<lambda>p blk. setValues blk (chunk_address p)
                         (map (\<lambda>b. 256 * uint (b ! 0) + uint (b ! 1)) (chunk_values p)))
                   ips (store_i slave)\<rparr>), None))"
proof -
  have to_u16: "to_u16 = (\<lambda>b. 256 * uint (b ! 0) + uint (b ! 1))"
    by (rule ext) (simp add: to_u16_def)
  from assms show ?thesis
    by (simp add: set_holding_registers_def set_input_registers_def
        get_holding_register_layout_def get_input_register_layout_def get_fallible_def
        write_register_payloads_holding write_register_payloads_input stored_block_def to_u16)
qed

theorem set_registers_store_big_endian_u16_witness:
  "holding_registers demo_slave_layout = Some demo_register_layout \<and>
   input_registers demo_slave_layout = None \<and>
   snd (set_holding_registers demo_context demo_layout [(''a'', 4), (''b'', 258)] 0) = None \<and>
   map (store_h (the (fst (set_holding_registers demo_context demo_layout [(''a'', 4), (''b'', 258)] 0) 0)))
     [6, 7, 8, 9] = [0, 4, 258, 0] \<and>
   holding_registers demo_input_layout = None \<and>
   input_registers demo_input_layout = Some demo_register_layout \<and>
   snd (set_input_registers demo_context demo_layout [(''a'', 513), (''b'', 65535)] 1) = None \<and>
   map (store_i (the (fst (set_input_registers demo_context demo_layout [(''a'', 513), (''b'', 65535)] 1) 1)))
     [6, 7, 8, 9] = [0, 513, 65535, 0]"
  using set_registers_store_big_endian_u16 [of demo_layout 0 demo_slave_layout demo_context
      demo_slave demo_register_layout "[(''a'', 4), (''b'', 258)]"
      "[\<lparr>chunk_address = 7, chunk_values = [[0, 4], [1, 2]]\<rparr>]"]
    set_registers_store_big_endian_u16 [of demo_layout 1 demo_input_layout demo_context
      demo_slave _ _ _ demo_register_layout "[(''a'', 513), (''b'', 65535)]"
      "[\<lparr>chunk_address = 7, chunk_values = [[2, 1], [255, 255]]\<rparr>]"]
  by (simp add: demo_layout_def demo_context_def demo_register_layout_def demo_slave_layout_def
      demo_input_layout_def demo_slave_def two_byte_chunks_def setValues_def)

section \<open>The remote facades validate the function code\<close>

lemma protocol_write_register_payloads_rejected:
  "first_rejected WriteMultipleRegistersResponse_function_code
     (answers send t (register_requests unit payloads)) = Some resp \<Longrightarrow>
   fst (protocol_write_register_payloads send unit payloads t) = Inl (ModbusResponseError resp)"
  by (induction payloads arbitrary: t)
    (auto simp: register_requests_def split: prod.splits sum.splits if_splits)

lemma protocol_write_register_payloads_accepted:
  "all_accepted WriteMultipleRegistersResponse_function_code
     (answers send t (register_requests unit payloads)) \<Longrightarrow>
   fst (protocol_write_register_payloads send unit payloads t) = Inr ()"
  by (induction payloads arbitrary: t)
    (auto simp: register_requests_def all_accepted_def split: prod.splits sum.splits if_splits)

lemma protocol_write_coil_payloads_rejected:
  "first_rejected WriteMultipleCoilsResponse_function_code
     (answers send t (coil_requests unit payloads)) = Some resp \<Longrightarrow>
   fst (protocol_write_coil_payloads send unit payloads t) = Inl (ModbusResponseError resp)"
  by (induction payloads arbitrary: t)
    (auto simp: coil_requests_def split: prod.splits sum.splits if_splits)

lemma protocol_write_coil_payloads_accepted:
  "all_accepted WriteMultipleCoilsResponse_function_code
     (answers send t (coil_requests unit payloads)) \<Longrightarrow>
   fst (protocol_write_coil_payloads send unit payloads t) = Inr ()"
  by (induction payloads arbitrary: t)
    (auto simp: coil_requests_def all_accepted_def split: prod.splits sum.splits if_splits)

lemma client_execute_idle:
  assumes "idle c t"
  shows "client_execute call c rpc =
     (case call t rpc of
        (Inl e, t') \<Rightarrow> (Raises e, c\<lparr>thread := Finished\<rparr>)
      | (Inr resp, t') \<Rightarrow> (Returns (Result resp), c\<lparr>thread := Running t'\<rparr>))"
  using assms
  by (cases c) (auto simp: idle_def client_execute_def run_thread_def split: prod.splits sum.splits)

lemma idle_Running: "idle c t \<Longrightarrow> idle (c\<lparr>thread := Running t'\<rparr>) t'"
  by (simp add: idle_def)

lemma client_write_payloads_rejected:
  "idle c t \<Longrightarrow> first_rejected code (answers call t rpcs) = Some resp \<Longrightarrow>
   fst (client_write_payloads call code rpcs c) = Raises (ModbusResponseError resp)"
proof (induction rpcs arbitrary: c t)
  case Nil
  then show ?case by simp
next
  case (Cons rpc rpcs)
  obtain a t' where a: "call t rpc = (a, t')" by (cases "call t rpc")
  show ?case
  proof (cases a)
    case (Inl e)
    with Cons.prems a show ?thesis by simp
  next
    case (Inr r)
    show ?thesis
    proof (cases "function_code r = code")
      case True
      with Cons.prems a Inr have "first_rejected code (answers call t' rpcs) = Some resp" by simp
      with Cons.IH [OF idle_Running [OF Cons.prems(1)]]
      have "fst (client_write_payloads call code rpcs (c\<lparr>thread := Running t'\<rparr>)) =
          Raises (ModbusResponseError resp)" by simp
      with a Inr True show ?thesis
        by (simp add: client_execute_idle [OF Cons.prems(1)] response_of_def)
    next
      case False
      with Cons.prems a Inr show ?thesis
        by (simp add: client_execute_idle [OF Cons.prems(1)] response_of_def)
    qed
  qed
qed

lemma client_write_payloads_accepted:
  "idle c t \<Longrightarrow> all_accepted code (answers call t rpcs) \<Longrightarrow>
   fst (client_write_payloads call code rpcs c) = Returns ()"
proof (induction rpcs arbitrary: c t)
  case Nil
  then show ?case by simp
next
  case (Cons rpc rpcs)
  obtain a t' where a: "call t rpc = (a, t')" by (cases "call t rpc")
  from Cons.prems(2) a obtain r where r: "a = Inr r" "function_code r = code"
    and rest: "all_accepted code (answers call t' rpcs)"
    by (cases a) (auto simp: all_accepted_def)
  from Cons.IH [OF idle_Running [OF Cons.prems(1)] rest]
  have "fst (client_write_payloads call code rpcs (c\<lparr>thread := Running t'\<rparr>)) = Returns ()" .
  with a r show ?case
    by (simp add: client_execute_idle [OF Cons.prems(1)] response_of_def)
qed

lemma client_checked_read_idle:
  "idle c t \<Longrightarrow> call t rpc = (Inr resp, t') \<Longrightarrow>
   client_checked_read call c rpc code decode =
     (if function_code resp \<noteq> code then Raises (ModbusResponseError resp) else of_sum (decode resp),
      c\<lparr>thread := Running t'\<rparr>)"
  by (simp add: client_checked_read_def client_execute_idle response_of_def)

lemmas layout_getters =
  get_holding_register_layout_def get_input_register_layout_def get_coil_layout_def
  get_discrete_input_layout_def get_fallible_def

lemmas response_codes =
  ReadCoilsResponse_function_code_def ReadDiscreteInputsResponse_function_code_def
  ReadHoldingRegistersResponse_function_code_def ReadInputRegistersResponse_function_code_def
  WriteMultipleCoilsResponse_function_code_def WriteMultipleRegistersResponse_function_code_def

lemma write_requests_coilsD:
  assumes "write_requests WriteCoils sl unit vals = Some (Inr rpcs)"
  obtains l ps where "coils sl = Some l" and "cl_build_payload l vals = Inr ps"
    and "rpcs = coil_requests unit ps"
proof (cases "coils sl")
  case None
  with assms show ?thesis by simp
next
  case (Some l)
  with assms that show ?thesis by (cases "cl_build_payload l vals") simp_all
qed

lemma write_requests_holdingD:
  assumes "write_requests WriteHoldingRegisters sl unit vals = Some (Inr rpcs)"
  obtains l ps where "holding_registers sl = Some l" and "rl_build_payload l vals = Inr ps"
    and "rpcs = register_requests unit ps"
proof (cases "holding_registers sl")
  case None
  with assms show ?thesis by simp
next
  case (Some l)
  with assms that show ?thesis by (cases "rl_build_payload l vals") simp_all
qed

lemma writes_rejected:
  fixes send :: "'t transport" and layout :: "('v, 'd) server_layout"
  assumes "map_of layout unit = Some sl" and "idle c t"
    and "write_requests wop sl unit vals = Some (Inr rpcs)"
    and "first_rejected (write_code wop) (answers send t rpcs) = Some resp"
  shows "fst (protocol_write wop send layout vals unit t) = Inl (ModbusResponseError resp)"
    and "fst (client_write_all wop send layout vals unit c) = Raises (ModbusResponseError resp)"
proof -
  show "fst (protocol_write wop send layout vals unit t) = Inl (ModbusResponseError resp)"
  proof (cases wop)
    case WriteCoils
    from assms(3) [unfolded WriteCoils] obtain l ps where "coils sl = Some l"
      "cl_build_payload l vals = Inr ps" "rpcs = coil_requests unit ps"
      by (rule write_requests_coilsD)
    with assms WriteCoils show ?thesis
      by (simp add: protocol_write_coils_def layout_getters response_codes
          protocol_write_coil_payloads_rejected)
  next
    case WriteHoldingRegisters
    from assms(3) [unfolded WriteHoldingRegisters] obtain l ps where "holding_registers sl = Some l"
      "rl_build_payload l vals = Inr ps" "rpcs = register_requests unit ps"
      by (rule write_requests_holdingD)
    with assms WriteHoldingRegisters show ?thesis
      by (simp add: protocol_write_holding_registers_def layout_getters response_codes
          protocol_write_register_payloads_rejected)
  qed
  show "fst (client_write_all wop send layout vals unit c) = Raises (ModbusResponseError resp)"
  proof (cases wop)
    case WriteCoils
    from assms(3) [unfolded WriteCoils] obtain l ps where "coils sl = Some l"
      "cl_build_payload l vals = Inr ps" "rpcs = coil_requests unit ps"
      by (rule write_requests_coilsD)
    with assms(1) WriteCoils client_write_payloads_rejected [OF assms(2) assms(4)]
    show ?thesis
      by (simp add: client_write_coils_def layout_getters response_codes coil_requests_def)
  next
    case WriteHoldingRegisters
    from assms(3) [unfolded WriteHoldingRegisters] obtain l ps where "holding_registers sl = Some l"
      "rl_build_payload l vals = Inr ps" "rpcs = register_requests unit ps"
      by (rule write_requests_holdingD)
    with assms(1) WriteHoldingRegisters client_write_payloads_rejected [OF assms(2) assms(4)]
    show ?thesis
      by (simp add: client_write_holding_registers_def layout_getters response_codes
          register_requests_def)
  qed
qed

lemma writes_accepted:
  fixes send :: "'t transport" and layout :: "('v, 'd) server_layout"
  assumes "map_of layout unit = Some sl" and "idle c t"
    and "write_requests wop sl unit vals = Some (Inr rpcs)"
    and "all_accepted (write_code wop) (answers send t rpcs)"
  shows "fst (protocol_write wop send layout vals unit t) = Inr ()"
    and "fst (client_write_all wop send layout vals unit c) = Returns ()"
proof -
  show "fst (protocol_write wop send layout vals unit t) = Inr ()"
  proof (cases wop)
    case WriteCoils
    from assms(3) [unfolded WriteCoils] obtain l ps where "coils sl = Some l"
      "cl_build_payload l vals = Inr ps" "rpcs = coil_requests unit ps"
      by (rule write_requests_coilsD)
    with assms WriteCoils show ?thesis
      by (simp add: protocol_write_coils_def layout_getters response_codes
          protocol_write_coil_payloads_accepted)
  next
    case WriteHoldingRegisters
    from assms(3) [unfolded WriteHoldingRegisters] obtain l ps where "holding_registers sl = Some l"
      "rl_build_payload l vals = Inr ps" "rpcs = register_requests unit ps"
      by (rule write_requests_holdingD)
    with assms WriteHoldingRegisters show ?thesis
      by (simp add: protocol_write_holding_registers_def layout_getters response_codes
          protocol_write_register_payloads_accepted)
  qed
  show "fst (client_write_all wop send layout vals unit c) = Returns ()"
  proof (cases wop)
    case WriteCoils
    from assms(3) [unfolded WriteCoils] obtain l ps where "coils sl = Some l"
      "cl_build_payload l vals = Inr ps" "rpcs = coil_requests unit ps"
      by (rule write_requests_coilsD)
    with assms(1) WriteCoils client_write_payloads_accepted [OF assms(2) assms(4)]
    show ?thesis
      by (simp add: client_write_coils_def layout_getters response_codes coil_requests_def)
  next
    case WriteHoldingRegisters
    from assms(3) [unfolded WriteHoldingRegisters] obtain l ps where "holding_registers sl = Some l"
      "rl_build_payload l vals = Inr ps" "rpcs = register_requests unit ps"
      by (rule write_requests_holdingD)
    with assms(1) WriteHoldingRegisters client_write_payloads_accepted [OF assms(2) assms(4)]
    show ?thesis
      by (simp add: client_write_holding_registers_def layout_getters response_codes
          register_requests_def)
  qed
qed

lemma write_one_is_write_all:
  "protocol_write_one wop send layout var val unit t = protocol_write wop send layout [(var, val)] unit t"
  "client_write_one wop send layout var val unit c = client_write_all wop send layout [(var, val)] unit c"
  by (cases wop; simp add: protocol_write_coil_def protocol_write_holding_register_def
      client_write_coil_def client_write_holding_register_def)+

lemma client_write_dispatch:
  "find rl_contains cl_contains layout var = Inr (unit, write_space wop) \<Longrightarrow>
   client_write send layout var val c = client_write_one wop send layout var val unit c"
  by (cases wop) (simp_all add: client_write_def)

lemma reads_checked:
  fixes send :: "'t transport" and layout :: "('v, 'd) server_layout"
  assumes "map_of layout unit = Some sl" and "idle c t"
    and "read_target rop sl = Some (addr, count, decode)"
    and "send t (read_request rop addr count unit) = (Inr resp, t')"
  shows "protocol_read rop send layout variables unit t =
           (if function_code resp \<noteq> read_code rop then Inl (ModbusResponseError resp)
            else decode resp variables, t')"
    and "client_read rop send layout variables unit c =
           (if function_code resp \<noteq> read_code rop then Raises (ModbusResponseError resp)
            else (case decode resp variables of Inl e \<Rightarrow> Raises e | Inr d \<Rightarrow> Returns d),
            c\<lparr>thread := Running t'\<rparr>)"
  using assms
  by (cases rop;
      auto simp add: protocol_read_coils_def protocol_read_discrete_inputs_def
        protocol_read_holding_registers_def protocol_read_input_registers_def
        client_read_coils_def client_read_discrete_inputs_def
        client_read_holding_registers_def client_read_input_registers_def
        layout_getters response_codes client_checked_read_idle of_sum_def)+

lemma read_one_is_read:
  "protocol_read_one rop send layout var unit t =
     (case protocol_read rop send layout None unit t of
        (Inl e, t') \<Rightarrow> (Inl e, t')
      | (Inr d, t') \<Rightarrow> (subscript d var, t'))"
  "client_read_one rop send layout var unit c =
     client_subscript (client_read rop send layout None unit c) var"
  by (cases rop; simp add: protocol_read_coil_def protocol_read_discrete_input_def
      protocol_read_holding_register_def protocol_read_input_register_def
      client_read_coil_def client_read_discrete_input_def
      client_read_holding_register_def client_read_input_register_def)+

text \<open>
  C7. Let the layout know the unit, and let the threaded client be started and between
  two calls. Reads, for each of the four read operations whose sub-layout the unit has:
  when the transport answers the read request with a response whose function code is not
  the expected one (1 coils, 2 discrete inputs, 3 holding registers, 4 input registers),
  the operation of \<open>Protocol\<close> and of \<open>Client\<close>, for the whole layout and for one variable,
  raises \<open>ModbusResponseError\<close> carrying that response. When the code is the expected one,
  the operation for the whole layout returns the dict that the sub-layout decodes from the
  bits or registers of the response, or raises what the decoding raises, and the operation
  for one variable returns the entry of that variable in the dict decoded for all
  variables, a missing entry being a \<open>KeyError\<close>. Writes, for each of the two write
  operations whose sub-layout the unit has and whose values the sub-layout can build: one
  request is sent per chunk; the first response whose code is not the expected one (15
  coils, 16 registers), no exception of the transport coming before it, is raised in a
  \<open>ModbusResponseError\<close>, and when every response has the expected code the write returns.
  The same holds of the writes of one variable, and of \<open>Client.write\<close> when \<open>find\<close> gives
  the unit and the sub-space of the write.
\<close>

theorem remote_facades_check_function_code:
  fixes send :: "'t transport"
    and layout :: "((string \<times> 'x) list, (string \<times> 'y) list) server_layout"
  assumes "map_of layout unit = Some sl"
    and "idle c t"
  shows
    "(read_target rop sl = Some (addr, count, decode) \<longrightarrow>
      send t (read_request rop addr count unit) = (Inr resp, t') \<longrightarrow>
        (function_code resp \<noteq> read_code rop \<longrightarrow>
           protocol_read rop send layout variables unit t = (Inl (ModbusResponseError resp), t') \<and>
           protocol_read_one rop send layout var unit t = (Inl (ModbusResponseError resp), t') \<and>
           client_read rop send layout variables unit c =
             (Raises (ModbusResponseError resp), c\<lparr>thread := Running t'\<rparr>) \<and>
           client_read_one rop send layout var unit c =
             (Raises (ModbusResponseError resp), c\<lparr>thread := Running t'\<rparr>)) \<and>
        (function_code resp = read_code rop \<longrightarrow>
           protocol_read rop send layout variables unit t = (decode resp variables, t') \<and>
           protocol_read_one rop send layout var unit t =
             (case decode resp None of
                Inl e \<Rightarrow> Inl e
              | Inr d \<Rightarrow> (case map_of d var of None \<Rightarrow> Inl (KeyError var) | Some y \<Rightarrow> Inr y), t') \<and>
           client_read rop send layout variables unit c =
             (case decode resp variables of Inl e \<Rightarrow> Raises e | Inr d \<Rightarrow> Returns d,
              c\<lparr>thread := Running t'\<rparr>) \<and>
           client_read_one rop send layout var unit c =
             (case decode resp None of
                Inl e \<Rightarrow> Raises e
              | Inr d \<Rightarrow> (case map_of d var of None \<Rightarrow> Raises (KeyError var) | Some y \<Rightarrow> Returns y),
              c\<lparr>thread := Running t'\<rparr>))) \<and>
     (write_requests wop sl unit vals = Some (Inr rpcs) \<longrightarrow>
        (first_rejected (write_code wop) (answers send t rpcs) = Some wresp \<longrightarrow>
           fst (protocol_write wop send layout vals unit t) = Inl (ModbusResponseError wresp) \<and>
           fst (client_write_all wop send layout vals unit c) = Raises (ModbusResponseError wresp)) \<and>
        (all_accepted (write_code wop) (answers send t rpcs) \<longrightarrow>
           fst (protocol_write wop send layout vals unit t) = Inr () \<and>
           fst (client_write_all wop send layout vals unit c) = Returns ())) \<and>
     (write_requests wop sl unit [(var, val)] = Some (Inr rpcs_one) \<longrightarrow>
        (first_rejected (write_code wop) (answers send t rpcs_one) = Some wresp_one \<longrightarrow>
           fst (protocol_write_one wop send layout var val unit t) = Inl (ModbusResponseError wresp_one) \<and>
           fst (client_write_one wop send layout var val unit c) = Raises (ModbusResponseError wresp_one) \<and>
           (find rl_contains cl_contains layout var = Inr (unit, write_space wop) \<longrightarrow>
              fst (client_write send layout var val c) = Raises (ModbusResponseError wresp_one))) \<and>
        (all_accepted (write_code wop) (answers send t rpcs_one) \<longrightarrow>
           fst (protocol_write_one wop send layout var val unit t) = Inr () \<and>
           fst (client_write_one wop send layout var val unit c) = Returns () \<and>
           (find rl_contains cl_contains layout var = Inr (unit, write_space wop) \<longrightarrow>
              fst (client_write send layout var val c) = Returns ())))"
proof (intro conjI impI)
  assume tgt: "read_target rop sl = Some (addr, count, decode)"
    and ans: "send t (read_request rop addr count unit) = (Inr resp, t')"
    and bad: "function_code resp \<noteq> read_code rop"
  note rd = reads_checked [where send = send and t = t and variables = variables, OF assms tgt ans]
  note rd1 = reads_checked [where send = send and t = t and variables = None, OF assms tgt ans]
  from bad show "protocol_read rop send layout variables unit t = (Inl (ModbusResponseError resp), t')"
    by (simp add: rd)
  from bad show "protocol_read_one rop send layout var unit t = (Inl (ModbusResponseError resp), t')"
    by (simp add: read_one_is_read rd1)
  from bad show "client_read rop send layout variables unit c =
      (Raises (ModbusResponseError resp), c\<lparr>thread := Running t'\<rparr>)"
    by (simp add: rd)
  from bad show "client_read_one rop send layout var unit c =
      (Raises (ModbusResponseError resp), c\<lparr>thread := Running t'\<rparr>)"
    by (simp add: read_one_is_read rd1 client_subscript_def)
next
  assume tgt: "read_target rop sl = Some (addr, count, decode)"
    and ans: "send t (read_request rop addr count unit) = (Inr resp, t')"
    and good: "function_code resp = read_code rop"
  note rd = reads_checked [where send = send and t = t and variables = variables, OF assms tgt ans]
  note rd1 = reads_checked [where send = send and t = t and variables = None, OF assms tgt ans]
  from good show "protocol_read rop send layout variables unit t = (decode resp variables, t')"
    by (simp add: rd)
  from good show "protocol_read_one rop send layout var unit t =
      (case decode resp None of
         Inl e \<Rightarrow> Inl e
       | Inr d \<Rightarrow> (case map_of d var of None \<Rightarrow> Inl (KeyError var) | Some y \<Rightarrow> Inr y), t')"
    by (simp add: read_one_is_read rd1 subscript_def split: sum.splits)
  from good show "client_read rop send layout variables unit c =
      (case decode resp variables of Inl e \<Rightarrow> Raises e | Inr d \<Rightarrow> Returns d,
       c\<lparr>thread := Running t'\<rparr>)"
    by (simp add: rd)
  from good show "client_read_one rop send layout var unit c =
      (case decode resp None of
         Inl e \<Rightarrow> Raises e
       | Inr d \<Rightarrow> (case map_of d var of None \<Rightarrow> Raises (KeyError var) | Some y \<Rightarrow> Returns y),
       c\<lparr>thread := Running t'\<rparr>)"
    by (simp add: read_one_is_read rd1 client_subscript_def split: sum.splits option.splits)
next
  assume req: "write_requests wop sl unit vals = Some (Inr rpcs)"
    and rej: "first_rejected (write_code wop) (answers send t rpcs) = Some wresp"
  from writes_rejected [OF assms req rej]
  show "fst (protocol_write wop send layout vals unit t) = Inl (ModbusResponseError wresp)"
    and "fst (client_write_all wop send layout vals unit c) = Raises (ModbusResponseError wresp)"
    by simp_all
next
  assume req: "write_requests wop sl unit vals = Some (Inr rpcs)"
    and acc: "all_accepted (write_code wop) (answers send t rpcs)"
  from writes_accepted [OF assms req acc]
  show "fst (protocol_write wop send layout vals unit t) = Inr ()"
    and "fst (client_write_all wop send layout vals unit c) = Returns ()"
    by simp_all
next
  assume req: "write_requests wop sl unit [(var, val)] = Some (Inr rpcs_one)"
    and rej: "first_rejected (write_code wop) (answers send t rpcs_one) = Some wresp_one"
  note wr = writes_rejected [OF assms req rej]
  from wr show "fst (protocol_write_one wop send layout var val unit t) = Inl (ModbusResponseError wresp_one)"
    and one: "fst (client_write_one wop send layout var val unit c) = Raises (ModbusResponseError wresp_one)"
    by (simp_all add: write_one_is_write_all)
  assume "find rl_contains cl_contains layout var = Inr (unit, write_space wop)"
  with one show "fst (client_write send layout var val c) = Raises (ModbusResponseError wresp_one)"
    by (simp add: client_write_dispatch)
next
  assume req: "write_requests wop sl unit [(var, val)] = Some (Inr rpcs_one)"
    and acc: "all_accepted (write_code wop) (answers send t rpcs_one)"
  note wa = writes_accepted [OF assms req acc]
  from wa show "fst (protocol_write_one wop send layout var val unit t) = Inr ()"
    and one: "fst (client_write_one wop send layout var val unit c) = Returns ()"
    by (simp_all add: write_one_is_write_all)
  assume "find rl_contains cl_contains layout var = Inr (unit, write_space wop)"
  with one show "fst (client_write send layout var val c) = Returns ()"
    by (simp add: client_write_dispatch)
qed

lemma idle_started_client: "idle started_client ()"
  by (simp add: idle_def started_client_def client_start_def client_main_def new_client_def)

lemmas demo_defs =
  demo_layout_def demo_slave_layout_def demo_input_layout_def demo_register_layout_def
  demo_coil_layout_def server_transport_def echo_transport_def register_requests_def
  coil_requests_def all_accepted_def find_in_slave_def

theorem remote_facades_check_function_code_witness:
  "input_registers demo_slave_layout = None \<and> discrete_inputs demo_slave_layout = None \<and>
   protocol_read_holding_registers server_transport demo_layout None 0 () =
     (Inr [(''a'', 1024), (''b'', 0)], ()) \<and>
   fst (client_read_holding_registers server_transport demo_layout None 0 started_client) =
     Returns [(''a'', 1024), (''b'', 0)] \<and>
   protocol_read_holding_register server_transport demo_layout ''a'' 0 () = (Inr 1024, ()) \<and>
   fst (client_read_holding_register server_transport demo_layout ''a'' 0 started_client) =
     Returns 1024 \<and>
   fst (client_read_discrete_inputs server_transport demo_layout None 1 started_client) =
     Returns [(''x'', 0), (''y'', 1), (''z'', 0)] \<and>
   fst (client_read_discrete_input server_transport demo_layout ''y'' 1 started_client) = Returns 1 \<and>
   protocol_read_holding_registers echo_transport demo_layout None 0 () =
     (Inl (ModbusResponseError \<lparr>function_code = 1, registers = [], bits = [True]\<rparr>), ()) \<and>
   fst (client_read_holding_register echo_transport demo_layout ''a'' 0 started_client) =
     Raises (ModbusResponseError \<lparr>function_code = 1, registers = [], bits = [True]\<rparr>) \<and>
   fst (protocol_write_coils server_transport demo_layout [(''x'', 1), (''y'', 0)] 0 ()) = Inr () \<and>
   fst (client_write_holding_registers server_transport demo_layout [(''a'', 4), (''b'', 258)] 0
          started_client) = Returns () \<and>
   fst (client_write server_transport demo_layout ''b'' 258 started_client) = Returns () \<and>
   fst (protocol_write_holding_register echo_transport demo_layout ''b'' 258 0 ()) =
     Inl (ModbusResponseError \<lparr>function_code = 1, registers = [], bits = [True]\<rparr>) \<and>
   fst (client_write echo_transport demo_layout ''b'' 258 started_client) =
     Raises (ModbusResponseError \<lparr>function_code = 1, registers = [], bits = [True]\<rparr>)"
proof -
  have lay0: "map_of demo_layout 0 = Some demo_slave_layout"
    and lay1: "map_of demo_layout 1 = Some demo_input_layout"
    by (simp_all add: demo_layout_def)
  have "input_registers demo_slave_layout = None" "discrete_inputs demo_slave_layout = None"
    by (simp_all add: demo_slave_layout_def)
  moreover have "protocol_read_holding_registers server_transport demo_layout None 0 () =
      (Inr [(''a'', 1024), (''b'', 0)], ())"
    "fst (client_read_holding_registers server_transport demo_layout None 0 started_client) =
      Returns [(''a'', 1024), (''b'', 0)]"
    "protocol_read_holding_register server_transport demo_layout ''a'' 0 () = (Inr 1024, ())"
    "fst (client_read_holding_register server_transport demo_layout ''a'' 0 started_client) =
      Returns 1024"
    using remote_facades_check_function_code [where layout = demo_layout and unit = 0
        and c = started_client and t = "()" and send = server_transport
        and rop = ReadHoldingRegisters and addr = 7 and count = 2
        and decode = "\<lambda>resp. rl_decode_registers demo_register_layout (registers resp)"
        and resp = "\<lparr>function_code = 3, registers = [1024, 0], bits = [False, True, False]\<rparr>"
        and t' = "()" and variables = None and var = "''a''", OF lay0 idle_started_client]
    by (simp_all add: demo_defs)
  moreover have "fst (client_read_discrete_inputs server_transport demo_layout None 1 started_client) =
      Returns [(''x'', 0), (''y'', 1), (''z'', 0)]"
    "fst (client_read_discrete_input server_transport demo_layout ''y'' 1 started_client) = Returns 1"
    using remote_facades_check_function_code [where layout = demo_layout and unit = 1
        and c = started_client and t = "()" and send = server_transport
        and rop = ReadDiscreteInputs and addr = 2 and count = 3
        and decode = "\<lambda>resp. cl_decode_coils demo_coil_layout (bits resp)"
        and resp = "\<lparr>function_code = 2, registers = [1024, 0], bits = [False, True, False]\<rparr>"
        and t' = "()" and variables = None and var = "''y''", OF lay1 idle_started_client]
    by (simp_all add: demo_defs)
  moreover have "protocol_read_holding_registers echo_transport demo_layout None 0 () =
      (Inl (ModbusResponseError \<lparr>function_code = 1, registers = [], bits = [True]\<rparr>), ())"
    "fst (client_read_holding_register echo_transport demo_layout ''a'' 0 started_client) =
      Raises (ModbusResponseError \<lparr>function_code = 1, registers = [], bits = [True]\<rparr>)"
    using remote_facades_check_function_code [where layout = demo_layout and unit = 0
        and c = started_client and t = "()" and send = echo_transport
        and rop = ReadHoldingRegisters and addr = 7 and count = 2
        and decode = "\<lambda>resp. rl_decode_registers demo_register_layout (registers resp)"
        and resp = "\<lparr>function_code = 1, registers = [], bits = [True]\<rparr>"
        and t' = "()" and variables = None and var = "''a''", OF lay0 idle_started_client]
    by (simp_all add: demo_defs)
  moreover have "fst (protocol_write_coils server_transport demo_layout [(''x'', 1), (''y'', 0)] 0 ()) = Inr ()"
    using remote_facades_check_function_code [where layout = demo_layout and unit = 0
        and c = started_client and t = "()" and send = server_transport
        and wop = WriteCoils and vals = "[(''x'', 1), (''y'', 0)]"
        and rpcs = "[WriteCoilsRequest 2 [True, False] 0]", OF lay0 idle_started_client]
    by (simp add: demo_defs)
  moreover have "fst (client_write_holding_registers server_transport demo_layout [(''a'', 4), (''b'', 258)] 0
          started_client) = Returns ()"
    using remote_facades_check_function_code [where layout = demo_layout and unit = 0
        and c = started_client and t = "()" and send = server_transport
        and wop = WriteHoldingRegisters and vals = "[(''a'', 4), (''b'', 258)]"
        and rpcs = "[WriteRegistersRequest 7 [[0, 4], [1, 2]] 0]", OF lay0 idle_started_client]
    by (simp add: demo_defs)
  moreover have "fst (client_write server_transport demo_layout ''b'' 258 started_client) = Returns ()"
    using remote_facades_check_function_code [where layout = demo_layout and unit = 0
        and c = started_client and t = "()" and send = server_transport
        and wop = WriteHoldingRegisters and var = "''b''" and val = 258
        and rpcs_one = "[WriteRegistersRequest 7 [[1, 2]] 0]", OF lay0 idle_started_client]
    by (simp add: demo_defs)
  moreover have "fst (protocol_write_holding_register echo_transport demo_layout ''b'' 258 0 ()) =
      Inl (ModbusResponseError \<lparr>function_code = 1, registers = [], bits = [True]\<rparr>)"
    "fst (client_write echo_transport demo_layout ''b'' 258 started_client) =
      Raises (ModbusResponseError \<lparr>function_code = 1, registers = [], bits = [True]\<rparr>)"
    using remote_facades_check_function_code [where layout = demo_layout and unit = 0
        and c = started_client and t = "()" and send = echo_transport
        and wop = WriteHoldingRegisters and var = "''b''" and val = 258
        and rpcs_one = "[WriteRegistersRequest 7 [[1, 2]] 0]"
        and wresp_one = "\<lparr>function_code = 1, registers = [], bits = [True]\<rparr>",
        OF lay0 idle_started_client]
    by (simp_all add: demo_defs)
  ultimately show ?thesis by simp
qed

section \<open>The client shell: the connected flag and the worker's end\<close>

lemma client_execute_not_active:
  "\<not> active c \<Longrightarrow> client_execute call c rpc = (Raises NotConnectedError, c)"
  by (simp add: client_execute_def)

lemma client_execute_before_start:
  "client_execute call new_client rpc = (Raises NotConnectedError, new_client)"
  by (simp add: client_execute_def new_client_def)

lemma run_thread_active: "active (run_thread call c) = active c"
  by (simp add: run_thread_def split: thread_state.splits prod.splits)

lemma client_stop_keeps_active: "active (snd (client_stop call timeout c)) = active c"
  by (simp add: client_stop_def Let_def run_thread_active
      split: list.splits thread_state.splits)

text \<open>
  C6, at the failing input: a client is started on a transport that connects and then
  stopped, both calls returning. The flag that \<open>_execute\<close> tests is still set and the
  worker has ended, so an RPC made now does not raise \<open>NotConnectedError\<close>: it queues its
  command and waits for an answer that never comes.
\<close>

theorem execute_after_stop_is_not_rejected:
  "fst (client_start (Inr ()) echo_transport new_client) = Returns () \<and>
   fst (client_stop echo_transport False
          (snd (client_start (Inr ()) echo_transport new_client))) = Returns () \<and>
   active stopped_client \<and> thread stopped_client = Finished \<and>
   fst (client_execute echo_transport stopped_client (ReadCoilsRequest 0 1 0)) = Blocks \<and>
   fst (client_execute echo_transport stopped_client (ReadCoilsRequest 0 1 0))
     \<noteq> Raises NotConnectedError"
  by (simp add: stopped_client_def client_start_def client_stop_def client_execute_def
      client_main_def run_thread_def new_client_def)

lemma is_envelope_simps [simp]:
  "is_envelope (UnhandledException e)" "\<not> is_envelope (Result r)"
  "\<not> is_envelope CONNECTED" "\<not> is_envelope DISCONNECT_echo"
  by (simp_all add: is_envelope_def)

lemma command_loop_shape:
  "command_loop call t cs = (ms, th, rest) \<Longrightarrow>
   rest = drop (length ms) cs \<and> length (filter is_envelope ms) \<le> 1 \<and>
   (\<forall>e. UnhandledException e \<in> set ms \<longrightarrow> th = Finished \<and> last ms = UnhandledException e)"
proof (induction call t cs arbitrary: ms th rest rule: command_loop.induct)
  case (1 call t)
  then show ?case by simp
next
  case (2 call t cs)
  then show ?case by auto
next
  case (3 call t rpc cs)
  obtain a t' where a: "call t rpc = (a, t')" by (cases "call t rpc")
  show ?case
  proof (cases a)
    case (Inl e)
    with "3.prems" a show ?thesis by auto
  next
    case (Inr r)
    obtain ms' th' rest' where loop: "command_loop call t' cs = (ms', th', rest')"
      by (cases "command_loop call t' cs")
    from "3.IH" [OF a [symmetric] Inr loop]
    have IH: "rest' = drop (length ms') cs" "length (filter is_envelope ms') \<le> 1"
      "\<forall>e. UnhandledException e \<in> set ms' \<longrightarrow> th' = Finished \<and> last ms' = UnhandledException e"
      by simp_all
    from "3.prems" a Inr loop have eq: "ms = Result r # ms'" "th = th'" "rest = rest'"
      by simp_all
    from IH eq show ?thesis by auto
  qed
qed

lemma run_thread_Finished: "thread c = Finished \<Longrightarrow> run_thread call c = c"
  by (simp add: run_thread_def)

text \<open>
  The worker's runs between the calls of the main thread add up to one run of the loop
  on all the commands: commands queued while it waits are handled as if they had been
  there, commands queued after it has ended stay in the queue.
\<close>

lemma command_loop_append:
  "command_loop call t (cs @ cs') =
     (case command_loop call t cs of
        (ms, Running t', rest) \<Rightarrow>
          (case command_loop call t' cs' of (ms', th, rest') \<Rightarrow> (ms @ ms', th, rest'))
      | (ms, th, rest) \<Rightarrow> (ms, th, rest @ cs'))"
proof (induction call t cs rule: command_loop.induct)
  case (1 call t)
  then show ?case by (simp split: prod.splits)
next
  case (2 call t cs)
  then show ?case by simp
next
  case (3 call t rpc cs)
  then show ?case
    by (auto split: prod.splits sum.splits thread_state.splits)
qed

text \<open>
  C10, the counterexample: the factory raises, the worker puts its one envelope and ends,
  \<open>start()\<close> fails its assertion and the flag stays unset. An \<open>_execute\<close> issued now, after
  the worker has died, fails with \<open>NotConnectedError\<close>; it does not queue its command
  and it does not wait.
\<close>

theorem execute_after_failed_connect_counterexample:
  "fst (client_start (Inl (OtherError ''ConnectionRefusedError'')) echo_transport new_client)
     = Raises AssertionError \<and>
   thread unconnected_client = Finished \<and>
   fst (client_execute echo_transport unconnected_client (ReadCoilsRequest 0 1 0))
     = Raises NotConnectedError \<and>
   fst (client_execute echo_transport unconnected_client (ReadCoilsRequest 0 1 0)) \<noteq> Blocks \<and>
   command_queue (snd (client_execute echo_transport unconnected_client (ReadCoilsRequest 0 1 0)))
     = []"
  by (simp add: unconnected_client_def client_start_def client_execute_def client_main_def
      new_client_def)

lemma client_main_shape:
  assumes main: "client_main connect call cs = (ms, th, rest)"
  shows "length (filter is_envelope ms) \<le> 1 \<and>
      (\<forall>e. UnhandledException e \<in> set ms \<longrightarrow> th = Finished \<and> last ms = UnhandledException e) \<and>
      rest = drop (length ms - 1) cs"
proof (cases connect)
  case (Inl e)
  with main show ?thesis by (auto simp: client_main_def)
next
  case (Inr t)
  obtain ms' th' rest' where loop: "command_loop call t cs = (ms', th', rest')"
    by (cases "command_loop call t cs")
  from main Inr loop have eq: "ms = CONNECTED # ms'" "th = th'" "rest = rest'"
    by (simp_all add: client_main_def)
  from command_loop_shape [OF loop] eq show ?thesis by auto
qed

text \<open>
  C10, amended. Let \<open>cs\<close> be the commands that are ever queued. The worker puts at most
  one envelope; if it puts one, that is its last message and the worker has ended; it has
  taken from the queue exactly one command for each message after the first, so none
  after the envelope. A worker that has ended takes nothing more from the queue. An
  \<open>_execute\<close> on a client whose \<open>start()\<close> succeeded (the flag is set), issued after the
  worker has ended and with no message pending, queues its command and never returns.
\<close>

theorem worker_ends_with_its_one_envelope:
  "(client_main connect call cs = (ms, th, rest) \<longrightarrow>
      length (filter is_envelope ms) \<le> 1 \<and>
      (\<forall>e. UnhandledException e \<in> set ms \<longrightarrow> th = Finished \<and> last ms = UnhandledException e) \<and>
      rest = drop (length ms - 1) cs) \<and>
   (thread c = Finished \<longrightarrow> run_thread call c = c) \<and>
   (active c \<and> thread c = Finished \<and> response_queue c = [] \<longrightarrow>
      client_execute call c rpc = (Blocks, c\<lparr>command_queue := command_queue c @ [RpcCall rpc]\<rparr>))"
proof (intro conjI)
  show "client_main connect call cs = (ms, th, rest) \<longrightarrow>
      length (filter is_envelope ms) \<le> 1 \<and>
      (\<forall>e. UnhandledException e \<in> set ms \<longrightarrow> th = Finished \<and> last ms = UnhandledException e) \<and>
      rest = drop (length ms - 1) cs"
    using client_main_shape by blast
next
  show "thread c = Finished \<longrightarrow> run_thread call c = c"
    by (simp add: run_thread_Finished)
next
  show "active c \<and> thread c = Finished \<and> response_queue c = [] \<longrightarrow>
      client_execute call c rpc = (Blocks, c\<lparr>command_queue := command_queue c @ [RpcCall rpc]\<rparr>)"
    by (simp add: client_execute_def run_thread_def)
qed

theorem worker_ends_with_its_one_envelope_witness:
  "client_main (Inr ()) failing_transport
     [RpcCall (ReadCoilsRequest 0 1 0), RpcCall (ReadCoilsRequest 0 1 0), DISCONNECT] =
     ([CONNECTED, UnhandledException (OtherError ''ConnectionException'')], Finished,
      [RpcCall (ReadCoilsRequest 0 1 0), DISCONNECT]) \<and>
   active crashed_client \<and> thread crashed_client = Finished \<and>
   response_queue crashed_client = [] \<and>
   run_thread failing_transport crashed_client = crashed_client \<and>
   client_execute failing_transport crashed_client (ReadCoilsRequest 2 3 0) =
     (Blocks, crashed_client\<lparr>command_queue := [RpcCall (ReadCoilsRequest 2 3 0)]\<rparr>)"
proof -
  have main: "client_main (Inr ()) failing_transport
     [RpcCall (ReadCoilsRequest 0 1 0), RpcCall (ReadCoilsRequest 0 1 0), DISCONNECT] =
     ([CONNECTED, UnhandledException (OtherError ''ConnectionException'')], Finished,
      [RpcCall (ReadCoilsRequest 0 1 0), DISCONNECT])"
    by (simp add: client_main_def failing_transport_def)
  have crashed: "active crashed_client" "thread crashed_client = Finished"
    "response_queue crashed_client = []" "command_queue crashed_client = []"
    by (simp_all add: crashed_client_def client_start_def client_execute_def client_main_def
        run_thread_def new_client_def failing_transport_def)
  from worker_ends_with_its_one_envelope [where connect = "Inr ()" and call = failing_transport
      and cs = "[RpcCall (ReadCoilsRequest 0 1 0), RpcCall (ReadCoilsRequest 0 1 0), DISCONNECT]"
      and ms = "[CONNECTED, UnhandledException (OtherError ''ConnectionException'')]"
      and th = Finished and rest = "[RpcCall (ReadCoilsRequest 0 1 0), DISCONNECT]"
      and c = crashed_client and rpc = "ReadCoilsRequest 2 3 0"] main crashed
  show ?thesis by simp
qed

section \<open>The daemons: the sleep of one round, and exceptions of the job\<close>

lemma DaemonThread_round:
  "dt_thread d = Some True \<Longrightarrow> \<not> dt_event d \<Longrightarrow>
   events (snd (DaemonThread_serve_loop [JobReturns duration] (d, w))) =
     events w @ [JobCalled, Slept (max 0 (dt_period d - duration))]"
  by (simp add: run_job_def sleep_def Let_def)

lemma Daemon_round:
  "d_thread d = Some True \<Longrightarrow>
   events (snd (Daemon_serve_loop [JobReturns duration] (d, w))) =
     events w @ [JobCalled, Slept (max 0 (d_period d - duration))]"
  by (simp add: run_job_def sleep_def Let_def)

lemma AsyncDaemon_round:
  "ad_task d = Some TaskRunning \<Longrightarrow> \<not> ad_event d \<Longrightarrow>
   events (snd (AsyncDaemon_serve_coro [JobReturns duration] (d, w))) =
     events w @ [JobCalled, Slept (max (ad_period d + duration) 0)]"
  by (simp add: run_job_def sleep_def Let_def)

text \<open>
  C4, at the failing input: an \<open>AsyncDaemon\<close> of period 1 whose job runs for a quarter of
  a second. The round calls the job once and then sleeps for 5/4, the period plus the
  elapsed time, where \<open>max(0, period - elapsed)\<close> is 3/4; \<open>DaemonThread\<close> and the threaded
  \<open>Daemon\<close> sleep for 3/4 on the same input.
\<close>

theorem AsyncDaemon_sleeps_period_plus_elapsed:
  "AsyncDaemon_init 1 = Inr \<lparr>ad_period = 1, ad_event = False, ad_task = None\<rparr> \<and>
   events (snd (AsyncDaemon_serve_coro [JobReturns (1/4)]
      (AsyncDaemon_serve \<lparr>ad_period = 1, ad_event = False, ad_task = None\<rparr>, world0)))
     = [JobCalled, Slept (5/4)] \<and>
   max 0 (1 - 1/4) = (3/4 :: real) \<and>
   events (snd (DaemonThread_serve_loop [JobReturns (1/4)]
      (DaemonThread_serve \<lparr>dt_period = 1, dt_event = False, dt_thread = None, dt_queue = []\<rparr>, world0)))
     = [JobCalled, Slept (3/4)] \<and>
   events (snd (Daemon_serve_loop [JobReturns (1/4)]
      (Daemon_serve \<lparr>d_period = 1, d_thread = None\<rparr>, world0)))
     = [JobCalled, Slept (3/4)]"
  by (simp add: AsyncDaemon_init_def AsyncDaemon_serve_def DaemonThread_serve_def Daemon_serve_def
      world0_def run_job_def sleep_def Let_def)

lemma AsyncDaemon_serve_coro_raises:
  "ad_task d = Some TaskRunning \<Longrightarrow> \<not> ad_event d \<Longrightarrow>
   fst (AsyncDaemon_serve_coro (raises_after durations duration x rest) (d, w)) =
     d\<lparr>ad_task := Some (case x of
                         Exception e \<Rightarrow> TaskRaised (if e = StopIteration then RuntimeError else e)
                       | _ \<Rightarrow> TaskLeftLoop x)\<rparr>"
  by (induction durations arbitrary: w)
    (simp_all add: raises_after_def Let_def split: base_exception.splits)

lemma DaemonThread_serve_loop_raises:
  "dt_thread d = Some True \<Longrightarrow> \<not> dt_event d \<Longrightarrow>
   fst (DaemonThread_serve_loop (raises_after durations duration x rest) (d, w)) =
     (case x of
        Exception e \<Rightarrow> d\<lparr>dt_queue := dt_queue d @ [e], dt_thread := Some False\<rparr>
      | _ \<Rightarrow> d\<lparr>dt_thread := Some False\<rparr>)"
  by (induction durations arbitrary: w)
    (simp_all add: raises_after_def Let_def split: base_exception.splits)

lemma Daemon_serve_loop_raises:
  "d_thread d = Some True \<Longrightarrow>
   fst (Daemon_serve_loop (raises_after durations duration x rest) (d, w)) =
     d\<lparr>d_thread := Some False\<rparr>"
  by (induction durations arbitrary: w) (simp_all add: raises_after_def Let_def)

lemmas serve_then_stop_defs =
  AsyncDaemon_serve_then_stop_def DaemonThread_serve_then_stop_def
  AsyncDaemon_init_def DaemonThread_init_def AsyncDaemon_serve_def DaemonThread_serve_def
  AsyncDaemon_stop_def DaemonThread_stop_def DaemonThread_set_and_join_def await_task_def

text \<open>
  C5, the counterexample: the threaded \<open>Daemon\<close> with the job of
  \<open>test_daemon_raises_error\<close>. The \<open>ValueError\<close> ends the thread and is kept nowhere;
  \<open>stop()\<close> does not exist, so calling it raises \<open>AttributeError\<close>, not the exception of
  the job.
\<close>

theorem threaded_Daemon_loses_exception_counterexample:
  "fst (Daemon_serve_loop [JobRaises 0 (Exception (OtherError ''ValueError''))]
          (Daemon_serve \<lparr>d_period = 1/100, d_thread = None\<rparr>, world0))
     = \<lparr>d_period = 1/100, d_thread = Some False\<rparr> \<and>
   Daemon_serve_then_stop (1/100) [JobRaises 0 (Exception (OtherError ''ValueError''))]
     = Raises (AttributeError ''stop'') \<and>
   Daemon_serve_then_stop (1/100) [JobRaises 0 (Exception (OtherError ''ValueError''))]
     \<noteq> Raises (OtherError ''ValueError'')"
  by (simp add: Daemon_serve_then_stop_def Daemon_init_def Daemon_serve_def Daemon_stop_def)

text \<open>
  What is not raised again by \<open>stop()\<close>. \<open>DaemonThread\<close>: a \<^verbatim>\<open>queue.Empty\<close> raised by the
  job is taken from the queue and swallowed; a \<^verbatim>\<open>SystemExit\<close> or \<^verbatim>\<open>KeyboardInterrupt\<close> is
  never put on the queue, and \<open>stop()\<close> returns. \<open>AsyncDaemon\<close>: a \<^verbatim>\<open>StopIteration\<close> comes
  back as a \<open>RuntimeError\<close>; a \<^verbatim>\<open>SystemExit\<close> or \<^verbatim>\<open>KeyboardInterrupt\<close> leaves the event
  loop, and \<open>stop()\<close> is not reached.
\<close>

lemma DaemonThread_swallows_QueueEmpty:
  "DaemonThread_serve_then_stop (1/100) [JobRaises 0 (Exception QueueEmpty)] = Returns ()"
  by (simp add: serve_then_stop_defs)

lemma DaemonThread_does_not_queue_SystemExit:
  "DaemonThread_serve_then_stop (1/100) [JobRaises 0 SystemExit] = Returns ()"
  "DaemonThread_serve_then_stop (1/100) [JobRaises 0 KeyboardInterrupt] = Returns ()"
  by (simp_all add: serve_then_stop_defs)

lemma AsyncDaemon_StopIteration_is_RuntimeError:
  "AsyncDaemon_serve_then_stop (1/100) [JobRaises 0 (Exception StopIteration)]
     = Stopped (Raises RuntimeError)"
  by (simp add: serve_then_stop_defs)

lemma AsyncDaemon_SystemExit_leaves_loop:
  "AsyncDaemon_serve_then_stop (1/100) [JobRaises 0 SystemExit] = LoopLeft SystemExit"
  "AsyncDaemon_serve_then_stop (1/100) [JobRaises 0 KeyboardInterrupt] = LoopLeft KeyboardInterrupt"
  by (simp_all add: serve_then_stop_defs)

text \<open>
  C5, amended. For \<open>AsyncDaemon\<close> and \<open>DaemonThread\<close> with a period that is not negative:
  when the job has raised an instance \<open>e\<close> of \<^verbatim>\<open>Exception\<close> in the background, after any
  number of runs that returned and before \<open>stop()\<close> is called, the exception is kept (by
  the task, on the queue) and is raised again by \<open>stop()\<close>, for the async variant by
  awaiting the handle that \<open>stop()\<close> returns. For \<open>AsyncDaemon\<close> this is said of every such
  exception other than \<^verbatim>\<open>StopIteration\<close>, for \<open>DaemonThread\<close> of every such exception
  other than \<^verbatim>\<open>queue.Empty\<close>.
\<close>

theorem job_exception_is_raised_again_on_stop:
  assumes "0 \<le> period"
  shows "(e \<noteq> StopIteration \<longrightarrow>
            AsyncDaemon_serve_then_stop period (raises_after durations duration (Exception e) rest)
              = Stopped (Raises e)) \<and>
         (e \<noteq> QueueEmpty \<longrightarrow>
            DaemonThread_serve_then_stop period (raises_after durations duration (Exception e) rest)
              = Raises e)"
  using assms
  by (simp add: serve_then_stop_defs AsyncDaemon_serve_coro_raises DaemonThread_serve_loop_raises)

theorem job_exception_is_raised_again_on_stop_witness:
  "(0 :: real) \<le> 1/100 \<and> OtherError ''ValueError'' \<noteq> StopIteration \<and>
   OtherError ''ValueError'' \<noteq> QueueEmpty \<and>
   AsyncDaemon_serve_then_stop (1/100)
     [JobReturns (1/1000), JobReturns (1/500), JobRaises 0 (Exception (OtherError ''ValueError''))]
     = Stopped (Raises (OtherError ''ValueError'')) \<and>
   DaemonThread_serve_then_stop (1/100)
     [JobReturns (1/1000), JobReturns (1/500), JobRaises 0 (Exception (OtherError ''ValueError''))]
     = Raises (OtherError ''ValueError'')"
  using job_exception_is_raised_again_on_stop [of "1/100" "OtherError ''ValueError''"
      "[1/1000, 1/500]" 0 "[]"]
  by (simp add: raises_after_def)

section \<open>The builder and the decoder\<close>

lemma tag_of_name_tag_name [simp]: "tag_of_name (tag_name t) = Some t"
  by (cases t) (simp_all add: tag_of_name_def)

lemma registers_le_range: "r \<in> set (registers_le n v) \<Longrightarrow> 0 \<le> r \<and> r < 65536"
  by (induction n arbitrary: v) auto

lemma length_registers_le [simp]: "length (registers_le n v) = n"
  by (induction n arbitrary: v) auto

lemma from_registers_le_registers_le: "from_registers_le (registers_le n v) = v mod 65536 ^ n"
proof (induction n arbitrary: v)
  case 0
  then show ?case by simp
next
  case (Suc n)
  have "v mod (65536 * 65536 ^ n) = 65536 * (v div 65536 mod 65536 ^ n) + v mod 65536"
    by (rule zmod_zmult2_eq) simp
  with Suc show ?case by simp
qed

lemma uint_byte: "0 \<le> k \<Longrightarrow> k < 256 \<Longrightarrow> uint (word_of_int k :: 8 word) = k"
  by (simp add: uint_word_of_int take_bit_eq_mod)

lemma register_value_register_bytes:
  assumes "0 \<le> r" and "r < 65536"
  shows "register_values byteorder (register_bytes byteorder r @ bs) =
         r # register_values byteorder bs"
proof -
  from assms have hi: "0 \<le> r div 256" "r div 256 < 256" by simp_all
  have lo: "0 \<le> r mod 256" "r mod 256 < 256" by simp_all
  have "256 * (r div 256) + r mod 256 = r" by simp
  with hi lo show ?thesis
    by (cases byteorder) (simp_all add: register_bytes_def register_value_def uint_byte)
qed

lemma register_values_concat:
  "\<forall>r\<in>set rs. 0 \<le> r \<and> r < 65536 \<Longrightarrow>
   register_values byteorder (concat (map (register_bytes byteorder) rs)) = rs"
  by (induction rs) (simp_all add: register_value_register_bytes)

lemma length_register_bytes [simp]: "length (register_bytes byteorder r) = 2"
  by (cases byteorder) (simp_all add: register_bytes_def)

lemma length_concat_register_bytes:
  "length (concat (map (register_bytes byteorder) rs)) = 2 * length rs"
  by (induction rs) simp_all

lemma word_ordered_twice [simp]: "word_ordered wordorder (word_ordered wordorder rs) = rs"
  by (cases wordorder) (simp_all add: word_ordered_def)

lemma set_word_ordered [simp]: "set (word_ordered wordorder rs) = set rs"
  by (cases wordorder) (simp_all add: word_ordered_def)

lemma length_word_ordered [simp]: "length (word_ordered wordorder rs) = length rs"
  by (cases wordorder) (simp_all add: word_ordered_def)

lemma decode_encode_unsigned:
  "from_registers_le (word_ordered wordorder
     (register_values byteorder (take (2 * n) (concat (encode_number byteorder wordorder n v)))))
   = v mod 65536 ^ n"
proof -
  let ?rs = "word_ordered wordorder (registers_le n v)"
  have len: "length (concat (encode_number byteorder wordorder n v)) = 2 * n"
    by (simp add: encode_number_def length_concat_register_bytes)
  have "register_values byteorder (concat (map (register_bytes byteorder) ?rs)) = ?rs"
    by (rule register_values_concat) (simp add: registers_le_range)
  with len show ?thesis
    by (simp add: encode_number_def from_registers_le_registers_le)
qed

lemma signed_value:
  fixes v h :: int
  assumes "- h \<le> v" and "v < h"
  shows "(if h \<le> v mod (2 * h) then v mod (2 * h) - 2 * h else v mod (2 * h)) = v"
proof (cases "0 \<le> v")
  case True
  with assms have "v mod (2 * h) = v" by simp
  with assms show ?thesis by simp
next
  case False
  with assms have "0 \<le> v + 2 * h" "v + 2 * h < 2 * h" by simp_all
  then have "(v + 2 * h) mod (2 * h) = v + 2 * h" by (rule mod_pos_pos_trivial)
  then have "v mod (2 * h) = v + 2 * h" by simp
  with False assms show ?thesis by simp
qed

lemma ldexp_powi: "ldexp x k = x * 2 powi k"
  by (simp add: ldexp_def power_int_def field_simps)

lemma round_half_even_of_int [simp]: "round_half_even (of_int n) = n"
  by (simp add: round_half_even_def)

lemma round_half_even_error: "\<bar>of_int (round_half_even r) - r\<bar> \<le> 1 / 2"
  unfolding round_half_even_def Let_def by (auto; linarith)

lemma round_half_even_lower: "of_int A \<le> r \<Longrightarrow> A \<le> round_half_even r"
proof -
  assume "of_int A \<le> r"
  then have "A \<le> \<lfloor>r\<rfloor>" by (simp add: le_floor_iff)
  then show ?thesis by (auto simp: round_half_even_def Let_def)
qed

lemma round_half_even_upper: "r \<le> of_int B \<Longrightarrow> round_half_even r \<le> B"
proof -
  assume rB: "r \<le> of_int B"
  show ?thesis
  proof (cases "r = of_int B")
    case True
    then show ?thesis by simp
  next
    case False
    with rB have "r < of_int B" by simp
    then have "\<lfloor>r\<rfloor> < B" by (simp add: floor_less_iff)
    then show ?thesis by (auto simp: round_half_even_def Let_def)
  qed
qed

lemma div_mod_block:
  fixes c d r :: int
  assumes "0 \<le> r" and "r < d"
  shows "(c * d + r) div d = c" and "(c * d + r) mod d = r"
  using assms by (simp_all add: div_pos_pos_trivial mod_pos_pos_trivial)

lemma powi_pos [simp]: "0 < (2::real) powi k"
  by (simp add: power_int_def)

lemma powi_nat: "(2::real) powi int n = 2 ^ n"
  by (simp add: power_int_def)

lemma powi_add: "(2::real) powi (i + j) = 2 powi i * 2 powi j"
  by (simp add: power_int_add)

lemma powi_diff: "(2::real) powi (i - j) = 2 powi i / 2 powi j"
  by (simp add: power_int_diff)

lemma float_magnitude_alt:
  "float_magnitude t a =
     float_step t a * 2 ^ float_fraction_bits t + round_half_even (float_scaled t a)"
  by (simp add: float_magnitude_def float_step_def float_scaled_def Let_def)

lemma float_step_nonneg [simp]: "0 \<le> float_step t a"
  by (simp add: float_step_def)

lemma float_scaled_range:
  assumes "0 \<le> a"
  shows "float_scaled t a < 2 ^ (float_fraction_bits t + 1)"
    and "0 \<le> float_scaled t a"
    and "0 < float_step t a \<Longrightarrow> 2 ^ float_fraction_bits t \<le> float_scaled t a"
proof -
  define p where "p = float_fraction_bits t"
  define P where "P = int p - float_emin t"
  define n where "n = \<lfloor>a * 2 powi P\<rfloor>"
  define k where "k = float_step t a"
  have k: "k = max 0 (bitlen n - int p - 1)"
    by (simp add: k_def float_step_def n_def P_def p_def ldexp_powi)
  have s: "float_scaled t a = a * 2 powi P / 2 powi k"
    by (simp add: float_scaled_def ldexp_powi P_def p_def k_def powi_diff)
  from assms have n0: "0 \<le> n" by (simp add: n_def)
  have lo: "of_int n \<le> a * 2 powi P" and hi: "a * 2 powi P < of_int n + 1"
    by (simp_all add: n_def)
  from assms show "0 \<le> float_scaled t a" by (simp add: s)
  have up: "n < 2 ^ nat (int p + 1 + k)"
  proof -
    have "bitlen n \<le> int p + 1 + k" using k by simp
    then show ?thesis by (simp add: bitlen_le_iff_power)
  qed
  have "nat (int p + 1 + k) = p + 1 + nat k" using k by (simp add: nat_add_distrib)
  with up have "n + 1 \<le> 2 ^ (p + 1) * 2 ^ nat k" by (simp add: power_add)
  then have "of_int (n + 1) \<le> (of_int (2 ^ (p + 1) * 2 ^ nat k) :: real)" by (rule of_int_le_iff [THEN iffD2])
  with hi have "a * 2 powi P < 2 ^ (p + 1) * 2 ^ nat k" by simp
  moreover have kk: "(2::real) powi k = 2 ^ nat k" using k by (simp add: power_int_def)
  ultimately have "a * 2 powi P / 2 powi k < 2 ^ (p + 1)"
    by (simp add: pos_divide_less_eq)
  then show "float_scaled t a < 2 ^ (float_fraction_bits t + 1)" by (simp add: s p_def)
  assume "0 < float_step t a"
  then have kpos: "0 < k" by (simp add: k_def)
  with k have bl: "bitlen n = int p + 1 + k" by simp
  with kpos have npos: "0 < n" using bitlen_eq_zero_iff [of n] by (cases "0 < n") simp_all
  from bitlen_bounds [OF npos] have "2 ^ nat (bitlen n - 1) \<le> n" by simp
  moreover from bl kpos have "nat (bitlen n - 1) = p + nat k" by (simp add: nat_add_distrib)
  ultimately have "2 ^ p * 2 ^ nat k \<le> n" by (simp add: power_add)
  then have "(of_int (2 ^ p * 2 ^ nat k) :: real) \<le> of_int n" by (rule of_int_le_iff [THEN iffD2])
  with lo have "2 ^ p * 2 ^ nat k \<le> a * 2 powi P" by simp
  with kk have "2 ^ p \<le> a * 2 powi P / 2 powi k" by (simp add: pos_le_divide_eq)
  then show "2 ^ float_fraction_bits t \<le> float_scaled t a" by (simp add: s p_def)
qed

lemma float_value_powi:
  "float_value t m =
     (if m div 2 ^ float_fraction_bits t = 0
      then of_int (m mod 2 ^ float_fraction_bits t) *
           2 powi (float_emin t - int (float_fraction_bits t))
      else of_int (2 ^ float_fraction_bits t + m mod 2 ^ float_fraction_bits t) *
           2 powi (float_emin t - int (float_fraction_bits t) + (m div 2 ^ float_fraction_bits t - 1)))"
  by (simp add: float_value_def Let_def ldexp_powi add_diff_eq)

lemma float_value_block:
  assumes "0 \<le> k" and "0 \<le> q" and "0 < k \<Longrightarrow> 2 ^ float_fraction_bits t \<le> q"
    and "q \<le> 2 ^ (float_fraction_bits t + 1)"
  shows "float_value t (k * 2 ^ float_fraction_bits t + q) =
         of_int q * 2 powi (float_emin t - int (float_fraction_bits t) + k)"
proof -
  define d :: int where "d = 2 ^ float_fraction_bits t"
  define E where "E = float_emin t - int (float_fraction_bits t)"
  have d: "0 < d" by (simp add: d_def)
  have q2: "q \<le> 2 * d" using assms(4) by (simp add: d_def)
  have v: "float_value t (k * d + q) =
      (if (k * d + q) div d = 0 then of_int ((k * d + q) mod d) * 2 powi E
       else of_int (d + (k * d + q) mod d) * 2 powi (E + ((k * d + q) div d - 1)))"
    unfolding float_value_powi d_def E_def ..
  consider "q < d" | "d \<le> q" "q < 2 * d" | "q = 2 * d" using q2 by linarith
  then have "float_value t (k * d + q) = of_int q * 2 powi (E + k)"
  proof cases
    case 1
    with assms(3) have k0: "k = 0" using assms(1) by (cases "0 < k") (simp_all add: d_def)
    from 1 assms(2) have dv: "(k * d + q) div d = 0" and md: "(k * d + q) mod d = q"
      using div_mod_block [of q d 0] k0 by simp_all
    show ?thesis unfolding v dv md using k0 by simp
  next
    case 2
    have eq: "k * d + q = (k + 1) * d + (q - d)" by (simp add: algebra_simps)
    from 2 have r: "0 \<le> q - d" "q - d < d" by simp_all
    have dv: "(k * d + q) div d = k + 1" and md: "(k * d + q) mod d = q - d"
      unfolding eq using div_mod_block [OF r, of "k + 1"] by blast+
    from assms(1) have ne: "k + 1 \<noteq> 0" by simp
    have ex: "E + (k + 1 - 1) = E + k" by simp
    have sm: "d + (q - d) = q" by simp
    show ?thesis unfolding v dv md ex sm using ne by simp
  next
    case 3
    have eq: "k * d + q = (k + 2) * d + 0" using 3 by (simp add: algebra_simps)
    have r: "(0::int) \<le> 0" "0 < d" using d by simp_all
    have dv: "(k * d + q) div d = k + 2" and md: "(k * d + q) mod d = 0"
      unfolding eq using div_mod_block [OF r, of "k + 2"] by blast+
    from assms(1) have ne: "k + 2 \<noteq> 0" by simp
    have ex: "E + (k + 2 - 1) = (E + k) + 1" by simp
    have "(2::real) powi ((E + k) + 1) = 2 powi (E + k) * 2"
      by (simp add: powi_add)
    then show ?thesis unfolding v dv md ex using ne 3 by simp
  qed
  then show ?thesis by (simp add: d_def E_def)
qed

lemma float_scaled_powi:
  "float_scaled t a =
     a * 2 powi (- (float_emin t - int (float_fraction_bits t) + float_step t a))"
  by (simp add: float_scaled_def ldexp_powi algebra_simps)

lemma float_scaled_back:
  "float_scaled t a * 2 powi (float_emin t - int (float_fraction_bits t) + float_step t a) = a"
proof -
  define e where "e = float_emin t - int (float_fraction_bits t) + float_step t a"
  have "(2::real) powi (- e) * 2 powi e = 2 powi (- e + e)" by (rule powi_add [symmetric])
  then have one: "(2::real) powi (- e) * 2 powi e = 1" by simp
  have "float_scaled t a = a * 2 powi (- e)" unfolding float_scaled_powi e_def ..
  then have "float_scaled t a * 2 powi e = a * (2 powi (- e) * 2 powi e)" by (simp only: mult.assoc)
  with one show ?thesis by (simp add: e_def)
qed

lemma float_rounded_range:
  assumes "0 \<le> a"
  shows "0 \<le> round_half_even (float_scaled t a)"
    and "round_half_even (float_scaled t a) \<le> 2 ^ (float_fraction_bits t + 1)"
    and "0 < float_step t a \<Longrightarrow> 2 ^ float_fraction_bits t \<le> round_half_even (float_scaled t a)"
proof -
  have "of_int 0 \<le> float_scaled t a"
    using float_scaled_range(2) [OF assms, of t] by simp
  then show "0 \<le> round_half_even (float_scaled t a)" by (rule round_half_even_lower)
  have "float_scaled t a \<le> of_int (2 ^ (float_fraction_bits t + 1))"
    using float_scaled_range(1) [OF assms, of t] by simp
  then show "round_half_even (float_scaled t a) \<le> 2 ^ (float_fraction_bits t + 1)"
    by (rule round_half_even_upper)
  assume "0 < float_step t a"
  from float_scaled_range(3) [OF assms this]
  have "of_int (2 ^ float_fraction_bits t) \<le> float_scaled t a" by simp
  then show "2 ^ float_fraction_bits t \<le> round_half_even (float_scaled t a)"
    by (rule round_half_even_lower)
qed

lemma float_magnitude_nonneg: "0 \<le> a \<Longrightarrow> 0 \<le> float_magnitude t a"
  using float_rounded_range(1) [of a t] by (simp add: float_magnitude_alt)

lemma float_value_magnitude:
  assumes "0 \<le> a"
  shows "float_value t (float_magnitude t a) =
         of_int (round_half_even (float_scaled t a)) *
         2 powi (float_emin t - int (float_fraction_bits t) + float_step t a)"
  unfolding float_magnitude_alt
proof (rule float_value_block)
  show "0 \<le> float_step t a" by simp
  show "0 \<le> round_half_even (float_scaled t a)" by (rule float_rounded_range(1) [OF assms])
  show "0 < float_step t a \<Longrightarrow> 2 ^ float_fraction_bits t \<le> round_half_even (float_scaled t a)"
    by (rule float_rounded_range(3) [OF assms])
  show "round_half_even (float_scaled t a) \<le> 2 ^ (float_fraction_bits t + 1)"
    by (rule float_rounded_range(2) [OF assms])
qed

lemma float_step_size:
  assumes "0 \<le> a"
  shows "2 powi (float_emin t - int (float_fraction_bits t) + float_step t a)
         \<le> float_epsilon t * max a (float_min_normal t)"
proof -
  define p where "p = float_fraction_bits t"
  define k where "k = float_step t a"
  define u where "u = (2::real) powi (float_emin t - int p + k)"
  have eps: "float_epsilon t = 2 powi (- int p)"
    by (simp add: float_epsilon_def ldexp_powi p_def)
  have mn: "float_min_normal t = 2 powi float_emin t"
    by (simp add: float_min_normal_def ldexp_powi)
  have upos: "0 < u" by (simp add: u_def)
  have "u \<le> 2 powi (- int p) * max a (2 powi float_emin t)"
  proof (cases "0 < k")
    case False
    then have "k = 0" using float_step_nonneg [of t a] by (simp add: k_def)
    then have "u = 2 powi (- int p) * 2 powi float_emin t"
      by (simp add: u_def powi_add [symmetric])
    also have "\<dots> \<le> 2 powi (- int p) * max a (2 powi float_emin t)"
      by (intro mult_left_mono) simp_all
    finally show ?thesis .
  next
    case True
    then have "2 ^ p \<le> float_scaled t a"
      using float_scaled_range(3) [OF assms, of t] by (simp add: k_def p_def)
    then have "2 ^ p * u \<le> float_scaled t a * u"
      using upos by (simp add: mult_right_mono)
    also have "float_scaled t a * u = a"
      using float_scaled_back [of t a] by (simp add: u_def p_def k_def)
    finally have "2 ^ p * u \<le> a" .
    then have "2 powi int p * u \<le> a" by (simp only: powi_nat)
    then have le: "2 powi (- int p) * (2 powi int p * u) \<le> 2 powi (- int p) * a"
      by (intro mult_left_mono) simp_all
    have "(2::real) powi (- int p) * 2 powi int p = 2 powi (- int p + int p)"
      by (rule powi_add [symmetric])
    then have one: "(2::real) powi (- int p) * 2 powi int p = 1" by simp
    have "2 powi (- int p) * (2 powi int p * u) = (2 powi (- int p) * 2 powi int p) * u"
      by (simp only: mult.assoc)
    also have "\<dots> = u" by (simp only: one mult_1)
    finally have "2 powi (- int p) * (2 powi int p * u) = u" .
    with le have "u \<le> 2 powi (- int p) * a" by (simp only:)
    also have "\<dots> \<le> 2 powi (- int p) * max a (2 powi float_emin t)"
      by (intro mult_left_mono) simp_all
    finally show ?thesis .
  qed
  then show ?thesis by (simp add: eps mn u_def p_def k_def)
qed

lemma float_value_magnitude_error:
  assumes "0 \<le> a"
  shows "\<bar>float_value t (float_magnitude t a) - a\<bar>
         \<le> float_epsilon t / 2 * max a (float_min_normal t)"
proof -
  define u where "u = (2::real) powi (float_emin t - int (float_fraction_bits t) + float_step t a)"
  define s where "s = float_scaled t a"
  define q where "q = round_half_even s"
  have upos: "0 < u" by (simp add: u_def)
  have a: "a = s * u" using float_scaled_back [of t a] by (simp add: s_def u_def)
  have y: "float_value t (float_magnitude t a) = of_int q * u"
    using float_value_magnitude [OF assms, of t] by (simp add: q_def s_def u_def)
  have "\<bar>of_int q * u - s * u\<bar> = \<bar>of_int q - s\<bar> * u"
    using upos by (simp add: left_diff_distrib [symmetric] abs_mult)
  also have "\<dots> \<le> 1 / 2 * u"
    using round_half_even_error [of s] upos by (intro mult_right_mono) (simp_all add: q_def)
  also have "\<dots> \<le> 1 / 2 * (float_epsilon t * max a (float_min_normal t))"
    using float_step_size [OF assms, of t] by (simp add: u_def)
  finally show ?thesis using a y by simp
qed

lemma float_step_le:
  assumes "0 \<le> K"
    and "a * 2 powi (int (float_fraction_bits t) - float_emin t)
         < 2 ^ (float_fraction_bits t + 1) * 2 ^ nat K"
  shows "float_step t a \<le> K"
proof -
  define p where "p = float_fraction_bits t"
  define n where "n = \<lfloor>a * 2 powi (int p - float_emin t)\<rfloor>"
  have "of_int n \<le> a * 2 powi (int p - float_emin t)" by (simp add: n_def)
  also have "\<dots> < 2 ^ (p + 1) * 2 ^ nat K" using assms(2) by (simp only: p_def)
  also have "\<dots> = of_int (2 ^ (p + 1) * 2 ^ nat K)" by simp
  finally have "n < 2 ^ (p + 1) * 2 ^ nat K" by (simp only: of_int_less_iff)
  moreover have "nat (int p + 1 + K) = p + 1 + nat K" using assms(1) by (simp add: nat_add_distrib)
  ultimately have "n < 2 ^ nat (int p + 1 + K)" by (simp add: power_add)
  with assms(1) have "bitlen n \<le> int p + 1 + K" by (simp add: bitlen_le_iff_power)
  with assms(1) show ?thesis by (simp add: float_step_def ldexp_powi p_def n_def)
qed

lemma powi_cancel: "(2::real) powi (- e) * 2 powi (e + k) = 2 powi k"
proof -
  have "(2::real) powi (- e) * 2 powi (e + k) = 2 powi (- e + (e + k))" by (rule powi_add [symmetric])
  then show ?thesis by simp
qed

lemma float_value_exact_block:
  assumes "0 \<le> j" and "j < 2 ^ (float_fraction_bits t + 1)" and "0 \<le> kz"
    and "a = of_int j * 2 powi (float_emin t - int (float_fraction_bits t) + kz)"
  shows "float_value t (float_magnitude t a) = a"
proof -
  define p where "p = float_fraction_bits t"
  define E where "E = float_emin t - int p"
  define k where "k = float_step t a"
  define u where "u = (2::real) powi (E + k)"
  have a: "a = of_int j * 2 powi (E + kz)" using assms(4) by (simp only: E_def p_def)
  have a0: "0 \<le> a" using assms(1) by (simp add: a)
  have negE: "int p - float_emin t = - E" by (simp add: E_def)
  have scaledE: "a * 2 powi (- E) = of_int j * 2 powi kz"
  proof -
    have "a * 2 powi (- E) = of_int j * (2 powi (- E) * 2 powi (E + kz))"
      by (simp only: a mult.assoc mult.commute [of "2 powi (E + kz)"])
    then show ?thesis by (simp only: powi_cancel)
  qed
  have k0n: "(2::real) powi kz = 2 ^ nat kz" using assms(3) by (simp add: power_int_def)
  have "real_of_int j < 2 ^ (p + 1)"
  proof -
    have "real_of_int j < of_int (2 ^ (p + 1))" using assms(2) by (simp only: of_int_less_iff p_def)
    then show ?thesis by simp
  qed
  then have "of_int j * 2 ^ nat kz < (2::real) ^ (p + 1) * 2 ^ nat kz"
    by (intro mult_strict_right_mono) simp_all
  then have "a * 2 powi (int p - float_emin t) < 2 ^ (p + 1) * 2 ^ nat kz"
    by (simp only: negE scaledE k0n)
  then have kle: "k \<le> kz"
    unfolding k_def p_def by (rule float_step_le [OF assms(3)])
  have k0k: "0 \<le> k" by (simp add: k_def)
  have s: "float_scaled t a = of_int (j * 2 ^ nat (kz - k))"
  proof -
    have "float_scaled t a = a * 2 powi (- (E + k))"
      by (simp only: float_scaled_powi E_def p_def k_def)
    also have "\<dots> = of_int j * (2 powi (- (E + k)) * 2 powi (E + k + (kz - k)))"
      by (simp add: a)
    also have "\<dots> = of_int j * 2 powi (kz - k)" by (simp only: powi_cancel)
    also have "2 powi (kz - k) = (2::real) ^ nat (kz - k)" using kle by (simp add: power_int_def)
    finally show ?thesis by simp
  qed
  have "float_value t (float_magnitude t a) = of_int (round_half_even (float_scaled t a)) * u"
    using float_value_magnitude [OF a0, of t] by (simp only: u_def E_def p_def k_def)
  also have "round_half_even (float_scaled t a) = j * 2 ^ nat (kz - k)"
    by (simp only: s round_half_even_of_int)
  also have "of_int (j * 2 ^ nat (kz - k)) * u = float_scaled t a * u" by (simp only: s)
  also have "\<dots> = a" using float_scaled_back [of t a] by (simp only: u_def E_def p_def k_def)
  finally show ?thesis .
qed

lemma float_value_exact:
  assumes "0 \<le> m"
  shows "float_value t (float_magnitude t (float_value t m)) = float_value t m"
proof -
  define d :: int where "d = 2 ^ float_fraction_bits t"
  define E where "E = float_emin t - int (float_fraction_bits t)"
  have d: "0 < d" by (simp add: d_def)
  have f: "0 \<le> m mod d" "m mod d < d" using d by simp_all
  have e: "0 \<le> m div d" using assms d by (simp add: pos_imp_zdiv_nonneg_iff)
  have d2: "2 ^ (float_fraction_bits t + 1) = 2 * d" by (simp add: d_def)
  have v: "float_value t m =
      (if m div d = 0 then of_int (m mod d) * 2 powi E
       else of_int (d + m mod d) * 2 powi (E + (m div d - 1)))"
    unfolding float_value_powi d_def E_def ..
  show ?thesis
  proof (cases "m div d = 0")
    case True
    show ?thesis
    proof (rule float_value_exact_block [where j = "m mod d" and kz = 0])
      show "0 \<le> m mod d" by (rule f)
      show "m mod d < 2 ^ (float_fraction_bits t + 1)" using f d by (simp only: d2)
      show "(0::int) \<le> 0" by simp
      show "float_value t m =
          of_int (m mod d) * 2 powi (float_emin t - int (float_fraction_bits t) + 0)"
        using True by (simp add: v E_def)
    qed
  next
    case False
    show ?thesis
    proof (rule float_value_exact_block [where j = "d + m mod d" and kz = "m div d - 1"])
      show "0 \<le> d + m mod d" using f d by simp
      show "d + m mod d < 2 ^ (float_fraction_bits t + 1)" using f by (simp only: d2)
      show "0 \<le> m div d - 1" using e False by simp
      show "float_value t m =
          of_int (d + m mod d) * 2 powi (float_emin t - int (float_fraction_bits t) + (m div d - 1))"
        using False by (simp add: v E_def)
    qed
  qed
qed

lemma float_value_nonneg: "0 \<le> m \<Longrightarrow> 0 \<le> float_value t m"
  by (simp add: float_value_powi pos_imp_zdiv_nonneg_iff)

lemma float_infinity_split:
  assumes "2 \<le> float_exponent_bits t"
  shows "float_infinity t = (2 ^ float_exponent_bits t - 3 + 2) * 2 ^ float_fraction_bits t"
    and "(0::int) \<le> 2 ^ float_exponent_bits t - 3"
proof -
  show "float_infinity t = (2 ^ float_exponent_bits t - 3 + 2) * 2 ^ float_fraction_bits t"
    by (simp add: float_infinity_def)
  have "(2::int) ^ 2 \<le> 2 ^ float_exponent_bits t"
    using assms by (intro power_increasing) simp_all
  then show "(0::int) \<le> 2 ^ float_exponent_bits t - 3" by simp
qed

lemma float_max_value:
  assumes "2 \<le> float_exponent_bits t"
  shows "float_max t =
         of_int (2 ^ (float_fraction_bits t + 1) - 1) *
         2 powi (float_emin t - int (float_fraction_bits t) + (2 ^ float_exponent_bits t - 3))"
proof -
  define K :: int where "K = 2 ^ float_exponent_bits t - 3"
  have K: "0 \<le> K" using float_infinity_split(2) [OF assms] by (simp add: K_def)
  have "float_infinity t - 1 = K * 2 ^ float_fraction_bits t + (2 ^ (float_fraction_bits t + 1) - 1)"
    by (simp add: float_infinity_split(1) [OF assms] K_def algebra_simps)
  then have "float_max t =
      float_value t (K * 2 ^ float_fraction_bits t + (2 ^ (float_fraction_bits t + 1) - 1))"
    by (simp only: float_max_def)
  also have "\<dots> = of_int (2 ^ (float_fraction_bits t + 1) - 1) *
      2 powi (float_emin t - int (float_fraction_bits t) + K)"
  proof (rule float_value_block)
    show "0 \<le> K" by (rule K)
    show "(0::int) \<le> 2 ^ (float_fraction_bits t + 1) - 1" by simp
    show "(2::int) ^ float_fraction_bits t \<le> 2 ^ (float_fraction_bits t + 1) - 1"
    proof -
      have "(1::int) \<le> 2 ^ float_fraction_bits t" by simp
      then show ?thesis by simp
    qed
    show "(2::int) ^ (float_fraction_bits t + 1) - 1 \<le> 2 ^ (float_fraction_bits t + 1)" by simp
  qed
  finally show ?thesis by (simp only: K_def)
qed

lemma float_magnitude_finite:
  assumes "2 \<le> float_exponent_bits t" and "0 \<le> a" and "a \<le> float_max t"
  shows "float_magnitude t a < float_infinity t"
proof -
  define p where "p = float_fraction_bits t"
  define d :: int where "d = 2 ^ p"
  define K :: int where "K = 2 ^ float_exponent_bits t - 3"
  define E where "E = float_emin t - int p"
  define k where "k = float_step t a"
  define q where "q = round_half_even (float_scaled t a)"
  have K: "0 \<le> K" using float_infinity_split(2) [OF assms(1)] by (simp add: K_def)
  have d: "0 < d" by (simp add: d_def)
  have dd: "2 ^ (p + 1) = 2 * d" by (simp add: d_def)
  have inf: "float_infinity t = (K + 2) * d"
    using float_infinity_split(1) [OF assms(1)] by (simp only: K_def d_def p_def)
  have M: "float_magnitude t a = k * d + q"
    by (simp only: float_magnitude_alt k_def q_def d_def p_def)
  have amax: "a \<le> of_int (2 * d - 1) * 2 powi (E + K)"
    using assms(3) float_max_value [OF assms(1)] by (simp only: K_def E_def p_def dd [symmetric])
  have negE: "int p - float_emin t = - E" by (simp add: E_def)
  have Kn: "(2::real) powi K = 2 ^ nat K" using K by (simp add: power_int_def)
  have "a * 2 powi (- E) \<le> of_int (2 * d - 1) * 2 powi (E + K) * 2 powi (- E)"
    using amax by (intro mult_right_mono) simp_all
  also have "\<dots> = of_int (2 * d - 1) * (2 powi (- E) * 2 powi (E + K))"
    by (simp only: mult.assoc mult.commute [of "2 powi (E + K)"])
  also have "\<dots> = of_int (2 * d - 1) * 2 ^ nat K" by (simp only: powi_cancel Kn)
  finally have scaledE: "a * 2 powi (- E) \<le> of_int (2 * d - 1) * 2 ^ nat K" .
  have "real_of_int (2 * d - 1) < of_int (2 * d)" by (simp only: of_int_less_iff)
  then have "real_of_int (2 * d - 1) * 2 ^ nat K < of_int (2 * d) * 2 ^ nat K"
    by (intro mult_strict_right_mono) simp_all
  also have "real_of_int (2 * d) = 2 ^ (p + 1)" by (simp add: d_def)
  finally have "a * 2 powi (int p - float_emin t) < 2 ^ (p + 1) * 2 ^ nat K"
    using scaledE by (simp only: negE)
  then have kK: "k \<le> K" unfolding k_def p_def by (rule float_step_le [OF K])
  have q2: "q \<le> 2 * d"
    using float_rounded_range(2) [OF assms(2), of t] by (simp only: q_def p_def [symmetric] dd)
  show ?thesis
  proof (cases "k = K")
    case True
    have "float_scaled t a = a * 2 powi (- (E + K))"
      using True by (simp only: float_scaled_powi E_def p_def k_def)
    also have "\<dots> \<le> of_int (2 * d - 1) * 2 powi (E + K) * 2 powi (- (E + K))"
      using amax by (intro mult_right_mono) simp_all
    also have "\<dots> = of_int (2 * d - 1) * (2 powi (- (E + K)) * 2 powi (E + K + 0))"
      by (simp only: mult.assoc mult.commute [of "2 powi (E + K)"] add_0_right)
    also have "\<dots> = of_int (2 * d - 1)" by (simp only: powi_cancel) simp
    finally have "q \<le> 2 * d - 1" unfolding q_def by (rule round_half_even_upper)
    then have "k * d + q < (K + 2) * d" using True by (simp add: algebra_simps)
    then show ?thesis by (simp only: M inf)
  next
    case False
    with kK have "k + 1 \<le> K" by simp
    then have "(k + 1) * d \<le> K * d" using d by (intro mult_right_mono) simp_all
    with q2 d have "k * d + q < (K + 2) * d" by (simp add: algebra_simps)
    then show ?thesis by (simp only: M inf)
  qed
qed

lemma tag_float_bits:
  assumes "tag_float t"
  shows "2 \<le> float_exponent_bits t"
    and "2 * float_sign_bit t = 65536 ^ tag_registers t"
  using assms by (cases t; simp add: float_sign_bit_def)+

lemma float_infinity_less_sign_bit: "float_infinity t < float_sign_bit t"
proof -
  have "(2 ^ float_exponent_bits t - 1) * 2 ^ float_fraction_bits t
      < (2::int) ^ float_exponent_bits t * 2 ^ float_fraction_bits t"
    by (intro mult_strict_right_mono) simp_all
  then show ?thesis by (simp add: float_infinity_def float_sign_bit_def power_add)
qed

lemma float_infinity_nonneg: "0 \<le> float_infinity t"
  by (simp add: float_infinity_def)

lemma bits_float_signed:
  assumes "0 \<le> m" and "m < float_sign_bit t"
  shows "bits_float t ((if negative then float_sign_bit t else 0) + m) =
     (if float_infinity t < m then PyNaN
      else if m = float_infinity t then PyInf negative
      else PyFloat (if negative then - float_value t m else float_value t m))"
proof (cases negative)
  case True
  from assms have "(float_sign_bit t + m) mod float_sign_bit t = m" by simp
  with True assms show ?thesis by (simp add: bits_float_def Let_def)
next
  case False
  from assms have "m mod float_sign_bit t = m" by simp
  with False assms show ?thesis by (simp add: bits_float_def Let_def)
qed

lemma signed_pattern_range:
  assumes "0 \<le> m" and "m < float_sign_bit t"
  shows "0 \<le> (if negative then float_sign_bit t else 0) + m"
    and "(if negative then float_sign_bit t else 0) + m < 2 * float_sign_bit t"
  using assms by simp_all

lemma finite_bits_magnitude:
  assumes "tag_float t" and "\<bar>x\<bar> \<le> float_max t"
  shows "finite_bits t x = (if x < 0 then float_sign_bit t else 0) + float_magnitude t \<bar>x\<bar>"
    and "0 \<le> float_magnitude t \<bar>x\<bar>"
    and "float_magnitude t \<bar>x\<bar> < float_infinity t"
proof -
  show "0 \<le> float_magnitude t \<bar>x\<bar>" by (rule float_magnitude_nonneg) simp
  show fin: "float_magnitude t \<bar>x\<bar> < float_infinity t"
    by (rule float_magnitude_finite [OF tag_float_bits(1) [OF assms(1)] _ assms(2)]) simp
  then show "finite_bits t x = (if x < 0 then float_sign_bit t else 0) + float_magnitude t \<bar>x\<bar>"
    by (simp add: finite_bits_def)
qed

lemma bits_float_finite_bits:
  assumes "tag_float t" and "\<bar>x\<bar> \<le> float_max t"
  shows "bits_float t (finite_bits t x) =
           PyFloat (if x < 0 then - float_value t (float_magnitude t \<bar>x\<bar>)
                    else float_value t (float_magnitude t \<bar>x\<bar>))"
    and "0 \<le> finite_bits t x"
    and "finite_bits t x < 65536 ^ tag_registers t"
proof -
  note m = finite_bits_magnitude [OF assms]
  from m(3) have lt: "float_magnitude t \<bar>x\<bar> < float_sign_bit t"
    using float_infinity_less_sign_bit [of t] by simp
  from bits_float_signed [OF m(2) lt, of "x < 0"] m(3)
  show "bits_float t (finite_bits t x) =
           PyFloat (if x < 0 then - float_value t (float_magnitude t \<bar>x\<bar>)
                    else float_value t (float_magnitude t \<bar>x\<bar>))"
    by (simp only: m(1)) simp
  from signed_pattern_range [OF m(2) lt, of "x < 0"]
  show "0 \<le> finite_bits t x" and "finite_bits t x < 65536 ^ tag_registers t"
    by (simp_all only: m(1) tag_float_bits(2) [OF assms(1), symmetric])
qed

lemma float_bits_representable:
  assumes "tag_float t" and "representable t v"
  shows "0 \<le> float_bits t v" and "float_bits t v < 65536 ^ tag_registers t"
proof -
  have "0 \<le> float_bits t v \<and> float_bits t v < 65536 ^ tag_registers t"
  proof (cases v)
    case (PyInt i)
    with assms have "\<bar>real_of_int i\<bar> \<le> float_max t" by (simp add: representable_def)
    from bits_float_finite_bits(2,3) [OF assms(1) this] PyInt show ?thesis
      by (simp add: float_bits_def)
  next
    case (PyFloat x)
    with assms have "\<bar>x\<bar> \<le> float_max t" by (simp add: representable_def)
    from bits_float_finite_bits(2,3) [OF assms(1) this] PyFloat show ?thesis
      by (simp add: float_bits_def)
  next
    case (PyInf negative)
    from signed_pattern_range [OF float_infinity_nonneg float_infinity_less_sign_bit, of negative t]
    have "0 \<le> float_bits t v" "float_bits t v < 2 * float_sign_bit t"
      by (simp_all add: float_bits_def PyInf)
    then show ?thesis by (simp only: tag_float_bits(2) [OF assms(1)])
  next
    case PyNaN
    with assms show ?thesis by (simp add: representable_def)
  qed
  then show "0 \<le> float_bits t v" and "float_bits t v < 65536 ^ tag_registers t" by simp_all
qed

lemma float_round_trip:
  assumes "tag_float t" and "\<bar>x\<bar> \<le> float_max t"
  shows "\<exists>y. bits_float t (finite_bits t x) = PyFloat y \<and>
             \<bar>y - x\<bar> \<le> float_epsilon t / 2 * max \<bar>x\<bar> (float_min_normal t) \<and>
             (\<forall>m. 0 \<le> m \<and> m < float_infinity t \<and> \<bar>x\<bar> = float_value t m \<longrightarrow> y = x)"
proof -
  define y where "y = float_value t (float_magnitude t \<bar>x\<bar>)"
  have err: "\<bar>y - \<bar>x\<bar>\<bar> \<le> float_epsilon t / 2 * max \<bar>x\<bar> (float_min_normal t)"
    unfolding y_def by (rule float_value_magnitude_error) simp
  have exact: "y = \<bar>x\<bar>" if "0 \<le> m" "\<bar>x\<bar> = float_value t m" for m
    using float_value_exact [OF that(1), of t] that(2) by (simp add: y_def)
  show ?thesis
  proof (cases "x < 0")
    case True
    then have "\<bar>- y - x\<bar> = \<bar>y - \<bar>x\<bar>\<bar>" by simp
    with err True exact bits_float_finite_bits(1) [OF assms] show ?thesis
      by (auto simp: y_def)
  next
    case False
    then have "\<bar>x\<bar> = x" by simp
    with err False exact bits_float_finite_bits(1) [OF assms] show ?thesis
      by (auto simp: y_def)
  qed
qed

lemma decode_pattern:
  assumes "0 \<le> u" and "u < 65536 ^ tag_registers t"
  shows "decode_number
           (PayloadDecoder (concat (encode_number byteorder wordorder (tag_registers t) u))
              byteorder wordorder) (tag_name t)
         = (Inr (if tag_float t then bits_float t u
                 else PyInt (if tag_signed t \<and> 65536 ^ tag_registers t div 2 \<le> u
                             then u - 65536 ^ tag_registers t else u)),
            PayloadDecoder [] byteorder wordorder)"
proof -
  let ?n = "tag_registers t"
  have len: "length (concat (encode_number byteorder wordorder ?n u)) = 2 * ?n"
    by (simp add: encode_number_def length_concat_register_bytes)
  from assms have "u mod 65536 ^ ?n = u" by simp
  with len show ?thesis
    by (simp add: decode_number_def PayloadDecoder_def Let_def decode_encode_unsigned
        del: take_all)
qed

lemma decode_number_encode_number:
  assumes "\<not> tag_float t" and "tag_min t \<le> v" and "v \<le> tag_max t"
  shows "decode_number
           (PayloadDecoder (concat (encode_number byteorder wordorder (tag_registers t) v))
              byteorder wordorder) (tag_name t)
         = (Inr (PyInt v), PayloadDecoder [] byteorder wordorder)"
proof -
  let ?n = "tag_registers t"
  let ?u = "v mod 65536 ^ ?n"
  have len: "length (concat (encode_number byteorder wordorder ?n v)) = 2 * ?n"
    by (simp add: encode_number_def length_concat_register_bytes)
  have val: "(if tag_signed t \<and> 65536 ^ ?n div 2 \<le> ?u then ?u - 65536 ^ ?n else ?u) = v"
  proof (cases "tag_signed t")
    case True
    obtain h :: int where h: "65536 ^ ?n = 2 * h" "65536 ^ ?n div 2 = h"
      by (cases t) simp_all
    from assms True h have "- h \<le> v" "v < h"
      by (simp_all add: tag_min_def tag_max_def)
    from signed_value [OF this] True h show ?thesis by (auto split: if_splits)
  next
    case False
    with assms have "0 \<le> v" "v < 65536 ^ ?n"
      by (auto simp: tag_min_def tag_max_def split: if_splits)
    with False show ?thesis by simp
  qed
  from len val assms(1) show ?thesis
    by (auto simp add: decode_number_def PayloadDecoder_def Let_def decode_encode_unsigned
        simp del: take_all split: if_splits)
qed

lemma add_number_bits:
  assumes "number_bits (tag_name t) t v = Inr u"
  shows "add_number (PayloadBuilder byteorder wordorder) (tag_name t) v =
     Inr \<lparr>b_byteorder = byteorder, b_wordorder = wordorder,
          b_chunks = encode_number byteorder wordorder (tag_registers t) u\<rparr>"
  using assms by (simp add: add_number_def PayloadBuilder_def)

lemma number_bits_representable:
  assumes "representable t v"
  shows "number_bits name t v =
     Inr (if tag_float t then float_bits t v else (case v of PyInt i \<Rightarrow> i | _ \<Rightarrow> 0))"
  using assms by (cases v) (auto simp: number_bits_def representable_def split: if_splits)

lemma number_encode_sized:
  assumes "representable t x" and "var_kind v = tag_name t" and "var_size v = tag_registers t"
  shows "\<exists>cells. number_encode byteorder wordorder v x = Inr cells \<and> length cells = var_size v"
  using assms
  by (simp add: number_encode_def add_number_bits [OF number_bits_representable] build_def
      encode_number_def)

text \<open>
  C1. For every tag, byteorder and wordorder and every value the tag can represent, the
  builder accepts the value and the decoder, applied to the concatenation of the chunks
  built, returns a number \<open>r\<close>. For an integer tag and an int of its range, \<open>r\<close> is that
  int. For a float tag and an infinity, \<open>r\<close> is that infinity. For a float tag and a
  finite number \<open>x\<close> within the finite range of the tag, \<open>r\<close> is a float \<open>y\<close> that differs
  from \<open>x\<close> by at most half the machine epsilon of the tag, relative to \<open>x\<close> (to the
  smallest normal value of the tag when \<open>x\<close> is smaller); and \<open>y = x\<close> when \<open>x\<close> is a value
  of the tag's format, as every Python float is under \<open>f64\<close>.
\<close>

theorem decode_inverts_encode:
  assumes "representable t v"
  shows "\<exists>b r. add_number (PayloadBuilder byteorder wordorder) (tag_name t) v = Inr b \<and>
           fst (decode_number (PayloadDecoder (concat (build b)) byteorder wordorder) (tag_name t))
             = Inr r \<and>
           (\<not> tag_float t \<longrightarrow> r = v) \<and>
           (tag_float t \<longrightarrow>
              (case number_value v of
                 None \<Rightarrow> r = v
               | Some x \<Rightarrow>
                   (\<exists>y. r = PyFloat y \<and>
                        \<bar>y - x\<bar> \<le> float_epsilon t / 2 * max \<bar>x\<bar> (float_min_normal t) \<and>
                        (\<forall>m. 0 \<le> m \<and> m < float_infinity t \<and> \<bar>x\<bar> = float_value t m
                           \<longrightarrow> y = x))))"
proof (cases "tag_float t")
  case False
  with assms obtain i where v: "v = PyInt i" and r: "tag_min t \<le> i" "i \<le> tag_max t"
    by (cases v) (simp_all add: representable_def)
  from False r have "number_bits (tag_name t) t v = Inr i" by (auto simp: number_bits_def v)
  from add_number_bits [OF this] decode_number_encode_number [OF False r] False v
  show ?thesis by (simp add: build_def)
next
  case True
  let ?u = "float_bits t v"
  from True have nb: "number_bits (tag_name t) t v = Inr ?u" by (simp add: number_bits_def)
  note range = float_bits_representable [OF True assms]
  note dec = decode_pattern [OF range, of byteorder wordorder]
  have "case number_value v of
          None \<Rightarrow> bits_float t ?u = v
        | Some x \<Rightarrow>
            (\<exists>y. bits_float t ?u = PyFloat y \<and>
                 \<bar>y - x\<bar> \<le> float_epsilon t / 2 * max \<bar>x\<bar> (float_min_normal t) \<and>
                 (\<forall>m. 0 \<le> m \<and> m < float_infinity t \<and> \<bar>x\<bar> = float_value t m \<longrightarrow> y = x))"
  proof (cases v)
    case (PyInt i)
    with assms True have "\<bar>real_of_int i\<bar> \<le> float_max t" by (simp add: representable_def)
    from float_round_trip [OF True this] PyInt show ?thesis by (simp add: float_bits_def)
  next
    case (PyFloat x)
    with assms True have "\<bar>x\<bar> \<le> float_max t" by (simp add: representable_def)
    from float_round_trip [OF True this] PyFloat show ?thesis by (simp add: float_bits_def)
  next
    case (PyInf negative)
    from bits_float_signed [OF float_infinity_nonneg float_infinity_less_sign_bit, of t negative]
    show ?thesis by (simp add: PyInf float_bits_def)
  next
    case PyNaN
    with assms show ?thesis by (simp add: representable_def)
  qed
  with add_number_bits [OF nb, of byteorder wordorder] dec True
  show ?thesis by (simp add: build_def)
qed

theorem decode_inverts_encode_witness:
  "representable F16 (PyFloat (17 / 5)) \<and>
   representable I64 (PyInt (-123456789123456789)) \<and>
   (\<exists>b. add_number (PayloadBuilder Little Big) ''f16'' (PyFloat (17 / 5)) = Inr b \<and>
        build b = [[0xcd, 0x42]] \<and>
        fst (decode_number (PayloadDecoder (concat (build b)) Little Big) ''f16'')
          = Inr (PyFloat (1741 / 512)) \<and>
        \<bar>1741 / 512 - 17 / 5 :: real\<bar>
          \<le> float_epsilon F16 / 2 * max \<bar>17 / 5\<bar> (float_min_normal F16)) \<and>
   (\<exists>b. add_number (PayloadBuilder Little Big) ''i64'' (PyInt (-123456789123456789)) = Inr b \<and>
        fst (decode_number (PayloadDecoder (concat (build b)) Little Big) ''i64'')
          = Inr (PyInt (-123456789123456789)))"
proof -
  have r1: "representable F16 (PyFloat (17 / 5))" by code_simp
  have r2: "representable I64 (PyInt (-123456789123456789))"
    by (simp add: representable_def tag_min_def tag_max_def)
  have a1: "add_number (PayloadBuilder Little Big) ''f16'' (PyFloat (17 / 5)) =
      Inr \<lparr>b_byteorder = Little, b_wordorder = Big, b_chunks = [[0xcd, 0x42]]\<rparr>"
    by code_simp
  have d1: "fst (decode_number (PayloadDecoder [0xcd, 0x42] Little Big) ''f16'')
      = Inr (PyFloat (1741 / 512))"
    by code_simp
  from decode_inverts_encode [OF r1, of Little Big] a1 d1
  have e1: "\<bar>1741 / 512 - 17 / 5 :: real\<bar>
      \<le> float_epsilon F16 / 2 * max \<bar>17 / 5\<bar> (float_min_normal F16)"
    by (auto simp: build_def)
  from decode_inverts_encode [OF r2, of Little Big]
  have e2: "\<exists>b. add_number (PayloadBuilder Little Big) ''i64'' (PyInt (-123456789123456789)) = Inr b \<and>
        fst (decode_number (PayloadDecoder (concat (build b)) Little Big) ''i64'')
          = Inr (PyInt (-123456789123456789))"
    by auto
  from r1 r2 a1 d1 e1 e2 show ?thesis by (simp add: build_def)
qed

text \<open>
  The vectors of \<^verbatim>\<open>test_encode_number_single\<close> and \<^verbatim>\<open>test_decode_single\<close> hold of the
  modelled builder and decoder. The float 3.141 lies in the binade 1023 above the lowest
  of \<open>f64\<close>, and its pattern is \<open>0x400920C49BA5E354\<close>; decoding the pattern gives the double
  nearest to 3.141.
\<close>

lemma float_step_eq:
  assumes "0 \<le> k"
    and "2 ^ float_fraction_bits t
         \<le> ldexp a (int (float_fraction_bits t) - float_emin t - k)"
    and "ldexp a (int (float_fraction_bits t) - float_emin t - k)
         < 2 ^ (float_fraction_bits t + 1)"
  shows "float_step t a = k"
proof -
  define p where "p = float_fraction_bits t"
  define P where "P = int p - float_emin t"
  define n where "n = \<lfloor>a * 2 powi P\<rfloor>"
  have kn: "(2::real) powi k = 2 ^ nat k" using assms(1) by (simp add: power_int_def)
  have split: "a * 2 powi P = a * 2 powi (P - k) * 2 ^ nat k"
  proof -
    have "(2::real) powi (P - k) * 2 powi k = 2 powi (P - k + k)" by (rule powi_add [symmetric])
    then have "(2::real) powi (P - k) * 2 ^ nat k = 2 powi P" by (simp add: kn)
    then show ?thesis by (simp only: mult.assoc)
  qed
  have lo: "2 ^ p \<le> a * 2 powi (P - k)" and hi: "a * 2 powi (P - k) < 2 ^ (p + 1)"
    using assms(2,3) by (simp_all only: ldexp_powi p_def P_def)
  from hi have "a * 2 powi (P - k) * 2 ^ nat k < 2 ^ (p + 1) * 2 ^ nat k"
    by (intro mult_strict_right_mono) simp_all
  then have "a * 2 powi P < 2 ^ (p + 1) * 2 ^ nat k"
    by (simp only: split)
  then have "a * 2 powi (int p - float_emin t) < 2 ^ (p + 1) * 2 ^ nat k"
    by (simp only: P_def)
  then have le: "float_step t a \<le> k" unfolding p_def by (rule float_step_le [OF assms(1)])
  from lo have "2 ^ p * 2 ^ nat k \<le> a * 2 powi (P - k) * 2 ^ nat k"
    by (intro mult_right_mono) simp_all
  then have "of_int (2 ^ p * 2 ^ nat k) \<le> a * 2 powi P" by (simp add: split)
  then have "2 ^ p * 2 ^ nat k \<le> n" unfolding n_def by (simp only: le_floor_iff)
  moreover have "nat (int p + 1 + k) - 1 = p + nat k" using assms(1) by (simp add: nat_add_distrib)
  ultimately have "2 ^ (nat (int p + 1 + k) - 1) \<le> n" by (simp add: power_add)
  then have "int p + 1 + k \<le> bitlen n" by (simp add: bitlen_ge_iff_power)
  then have "k \<le> float_step t a"
    by (simp add: float_step_def ldexp_powi n_def P_def p_def)
  with le show ?thesis by simp
qed

lemma f64_3141: "float_bits F64 (PyFloat (3141 / 1000)) = 0x400920C49BA5E354"
proof -
  have step: "float_step F64 (3141 / 1000) = 1023"
    by (rule float_step_eq) (simp_all add: float_emin_def ldexp_def)
  have sc: "float_scaled F64 (3141 / 1000) = 3141 / 1000 * 2 ^ 51"
    unfolding float_scaled_def step by (simp add: float_emin_def ldexp_def)
  have rh: "round_half_even (3141 / 1000 * 2 ^ 51) = 7072903214785364"
    by code_simp
  have "float_magnitude F64 (3141 / 1000) = 1023 * 2 ^ 52 + 7072903214785364"
    unfolding float_magnitude_alt step sc rh by simp
  then show ?thesis
    by (simp add: float_bits_def finite_bits_def float_infinity_def)
qed

lemma test_encode_number_single:
  "map_sum id build (add_number (PayloadBuilder Little Big) ''i16'' (PyInt 777)) = Inr [[0x09, 0x03]]"
  "map_sum id build (add_number (PayloadBuilder Big Big) ''i16'' (PyInt 777)) = Inr [[0x03, 0x09]]"
  "map_sum id build (add_number (PayloadBuilder Little Big) ''i16'' (PyInt (-555))) = Inr [[0xd5, 0xfd]]"
  "map_sum id build (add_number (PayloadBuilder Little Big) ''u16'' (PyInt 64981)) = Inr [[0xd5, 0xfd]]"
  "map_sum id build (add_number (PayloadBuilder Little Big) ''i32'' (PyInt (-555666777)))
     = Inr [[0xe1, 0xde], [0xa7, 0x32]]"
  "map_sum id build (add_number (PayloadBuilder Little Big) ''i64'' (PyInt 288230389103853584))
     = Inr [[0x00, 0x04], [0x03, 0x00], [0x02, 0x04], [0x10, 0x00]]"
  "map_sum id build (add_number (PayloadBuilder Big Little) ''i64'' (PyInt 288230389103853584))
     = Inr [[0x00, 0x10], [0x04, 0x02], [0x00, 0x03], [0x04, 0x00]]"
  "add_number (PayloadBuilder Little Big) ''i8'' (PyInt 0) = Inl (UnknownTypeError ''i8'')"
  "add_number (PayloadBuilder Little Big) ''i16'' (PyInt 32768) = Inl (OutOfBoundsError ''i16'' 32768)"
  "add_number (PayloadBuilder Little Big) ''u16'' (PyInt (-1)) = Inl (OutOfBoundsError ''u16'' (-1))"
  by code_simp+

lemma test_encode_number_single_f64:
  "map_sum id build (add_number (PayloadBuilder Little Big) ''f64'' (PyFloat (3141 / 1000)))
     = Inr [[0x09, 0x40], [0xc4, 0x20], [0xa5, 0x9b], [0x54, 0xe3]]"
  "map_sum id build (add_number (PayloadBuilder Big Little) ''f64'' (PyFloat (3141 / 1000)))
     = Inr [[0xe3, 0x54], [0x9b, 0xa5], [0x20, 0xc4], [0x40, 0x09]]"
proof -
  have t: "tag_of_name ''f64'' = Some F64" by (simp add: tag_of_name_def)
  have nb: "number_bits ''f64'' F64 (PyFloat (3141 / 1000)) = Inr 0x400920C49BA5E354"
    unfolding number_bits_def f64_3141 by simp
  have e1: "encode_number Little Big 4 0x400920C49BA5E354
      = [[0x09, 0x40], [0xc4, 0x20], [0xa5, 0x9b], [0x54, 0xe3]]"
    and e2: "encode_number Big Little 4 0x400920C49BA5E354
      = [[0xe3, 0x54], [0x9b, 0xa5], [0x20, 0xc4], [0x40, 0x09]]"
    by code_simp+
  show "map_sum id build (add_number (PayloadBuilder Little Big) ''f64'' (PyFloat (3141 / 1000)))
     = Inr [[0x09, 0x40], [0xc4, 0x20], [0xa5, 0x9b], [0x54, 0xe3]]"
    unfolding add_number_def t option.case nb sum.case PayloadBuilder_def
    by (simp add: e1 build_def)
  show "map_sum id build (add_number (PayloadBuilder Big Little) ''f64'' (PyFloat (3141 / 1000)))
     = Inr [[0xe3, 0x54], [0x9b, 0xa5], [0x20, 0xc4], [0x40, 0x09]]"
    unfolding add_number_def t option.case nb sum.case PayloadBuilder_def
    by (simp add: e2 build_def)
qed

lemma test_decode_single:
  "fst (decode_number (PayloadDecoder [0x49, 0xfe, 0xb4, 0x64, 0x2f, 0x53, 0xeb, 0xa0] Little Big)
     ''i64'') = Inr (PyInt (-123456789123456789))"
  "fst (decode_number (PayloadDecoder [0x49, 0xfe, 0xb4, 0x64, 0x2f, 0x53, 0xeb, 0xa0] Little Big)
     ''u64'') = Inr (PyInt 18323287284586094827)"
  "fst (decode_number (PayloadDecoder [0x00, 0x00, 0x00, 0x04] Little Little) ''i32'')
     = Inr (PyInt 67108864)"
  "fst (decode_number (PayloadDecoder [0x09, 0x40, 0xc4, 0x20, 0xa5, 0x9b, 0x54, 0xe3] Little Big)
     ''f64'') = Inr (PyFloat (7072903214785364 / 2 ^ 51))"
  by code_simp+

lemma register_bytes_Little: "register_bytes Little r = rev (register_bytes Big r)"
  by (simp add: register_bytes_def)

lemma encode_number_orders:
  "encode_number byteorder wordorder n v =
     swap_words wordorder (swap_bytes byteorder (encode_number Big Big n v))"
  by (cases byteorder; cases wordorder)
    (simp_all add: encode_number_def swap_words_def swap_bytes_def word_ordered_def
      register_bytes_Little rev_map)

lemma swap_commute:
  "swap_words wordorder (swap_bytes byteorder chunks) =
   swap_bytes byteorder (swap_words wordorder chunks)"
  by (cases byteorder; cases wordorder) (simp_all add: swap_words_def swap_bytes_def rev_map)

text \<open>
  C3. The i32 value 67108864 is built as \<open>[00 04, 00 00]\<close> under byteorder little and
  wordorder big, as \<open>[00 00, 00 04]\<close> under little and little, as \<open>[04 00, 00 00]\<close> under big
  and big. In general, whenever the builder accepts a number under some byteorder and
  wordorder, it accepts it under big and big, and the chunks it adds are those added under
  big and big with the two bytes of each chunk swapped if the byteorder is little and the
  order of the chunks reversed if the wordorder is little; earlier chunks stay as they
  are, and the two permutations commute.
\<close>

theorem byteorder_and_wordorder_are_orthogonal:
  "map_sum id build (add_number (PayloadBuilder Little Big) ''i32'' (PyInt 67108864))
     = Inr [[0x00, 0x04], [0x00, 0x00]] \<and>
   map_sum id build (add_number (PayloadBuilder Little Little) ''i32'' (PyInt 67108864))
     = Inr [[0x00, 0x00], [0x00, 0x04]] \<and>
   map_sum id build (add_number (PayloadBuilder Big Big) ''i32'' (PyInt 67108864))
     = Inr [[0x04, 0x00], [0x00, 0x00]] \<and>
   (add_number b name v = Inr b' \<longrightarrow>
      (\<exists>b0. add_number (PayloadBuilder Big Big) name v = Inr b0 \<and>
            build b' = build b @ swap_words (b_wordorder b) (swap_bytes (b_byteorder b) (build b0)) \<and>
            swap_words (b_wordorder b) (swap_bytes (b_byteorder b) (build b0)) =
              swap_bytes (b_byteorder b) (swap_words (b_wordorder b) (build b0))))"
proof (intro conjI impI)
  show "map_sum id build (add_number (PayloadBuilder Little Big) ''i32'' (PyInt 67108864))
     = Inr [[0x00, 0x04], [0x00, 0x00]]"
    "map_sum id build (add_number (PayloadBuilder Little Little) ''i32'' (PyInt 67108864))
     = Inr [[0x00, 0x00], [0x00, 0x04]]"
    "map_sum id build (add_number (PayloadBuilder Big Big) ''i32'' (PyInt 67108864))
     = Inr [[0x04, 0x00], [0x00, 0x00]]"
    by code_simp+
next
  assume add: "add_number b name v = Inr b'"
  then obtain t u where t: "tag_of_name name = Some t"
    and ok: "number_bits name t v = Inr u"
    and b': "b' = b\<lparr>b_chunks := b_chunks b @
                 encode_number (b_byteorder b) (b_wordorder b) (tag_registers t) u\<rparr>"
    by (auto simp: add_number_def split: option.splits sum.splits)
  let ?b0 = "\<lparr>b_byteorder = Big, b_wordorder = Big,
               b_chunks = encode_number Big Big (tag_registers t) u\<rparr>"
  from t ok have "add_number (PayloadBuilder Big Big) name v = Inr ?b0"
    by (auto simp: add_number_def PayloadBuilder_def)
  moreover from b' have "build b' = build b @
      swap_words (b_wordorder b) (swap_bytes (b_byteorder b) (build ?b0))"
    by (simp add: build_def encode_number_orders [of "b_byteorder b" "b_wordorder b"])
  moreover have "swap_words (b_wordorder b) (swap_bytes (b_byteorder b) (build ?b0)) =
      swap_bytes (b_byteorder b) (swap_words (b_wordorder b) (build ?b0))"
    by (rule swap_commute)
  ultimately show "\<exists>b0. add_number (PayloadBuilder Big Big) name v = Inr b0 \<and>
            build b' = build b @ swap_words (b_wordorder b) (swap_bytes (b_byteorder b) (build b0)) \<and>
            swap_words (b_wordorder b) (swap_bytes (b_byteorder b) (build b0)) =
              swap_bytes (b_byteorder b) (swap_words (b_wordorder b) (build b0))"
    by blast
qed

theorem byteorder_and_wordorder_are_orthogonal_witness:
  "add_number \<lparr>b_byteorder = Little, b_wordorder = Little, b_chunks = [[0x09, 0x03]]\<rparr>
      ''i32'' (PyInt 67108864)
     = Inr \<lparr>b_byteorder = Little, b_wordorder = Little,
            b_chunks = [[0x09, 0x03], [0x00, 0x00], [0x00, 0x04]]\<rparr> \<and>
   add_number (PayloadBuilder Big Big) ''i32'' (PyInt 67108864)
     = Inr \<lparr>b_byteorder = Big, b_wordorder = Big, b_chunks = [[0x04, 0x00], [0x00, 0x00]]\<rparr> \<and>
   [[0x09, 0x03], [0x00, 0x00], [0x00, 0x04 :: 8 word]] =
     [[0x09, 0x03]] @ swap_words Little (swap_bytes Little [[0x04, 0x00], [0x00, 0x00]])"
proof -
  have a: "add_number \<lparr>b_byteorder = Little, b_wordorder = Little, b_chunks = [[0x09, 0x03]]\<rparr>
      ''i32'' (PyInt 67108864)
     = Inr \<lparr>b_byteorder = Little, b_wordorder = Little,
            b_chunks = [[0x09, 0x03], [0x00, 0x00], [0x00, 0x04]]\<rparr>"
    by code_simp
  have b: "add_number (PayloadBuilder Big Big) ''i32'' (PyInt 67108864)
     = Inr \<lparr>b_byteorder = Big, b_wordorder = Big, b_chunks = [[0x04, 0x00], [0x00, 0x00]]\<rparr>"
    by code_simp
  from byteorder_and_wordorder_are_orthogonal
    [of "\<lparr>b_byteorder = Little, b_wordorder = Little, b_chunks = [[0x09, 0x03]]\<rparr>"
      "''i32''" "PyInt 67108864"
      "\<lparr>b_byteorder = Little, b_wordorder = Little,
            b_chunks = [[0x09, 0x03], [0x00, 0x00], [0x00, 0x04]]\<rparr>"] a b
  show ?thesis by (simp add: build_def)
qed

section \<open>The payload planner\<close>

lemma place_ascending: "place next ds = Inr vs \<Longrightarrow> ascending next vs"
proof (induction ds arbitrary: "next" vs)
  case Nil
  then show ?case by simp
next
  case (Cons d ds)
  then show ?case
    by (auto simp: Let_def split: if_splits sum.splits option.splits)
qed

lemma Layout_ascending: "Layout ds = Inr vs \<Longrightarrow> ascending 0 vs"
  by (auto simp: Layout_def place_ascending split: if_splits option.splits)

lemma ascending_weaken: "ascending lb vs \<Longrightarrow> lb' \<le> lb \<Longrightarrow> ascending lb' vs"
  by (cases vs) auto

lemma items_ascending_weaken:
  "items_ascending lb items \<Longrightarrow> lb' \<le> lb \<Longrightarrow> items_ascending lb' items"
  by (induction lb items rule: items_ascending.induct) auto

lemma item_cells_simps [simp]:
  "item_cells None = []" "item_cells (Some (v, cells)) = variable_cells v cells"
  by (simp_all add: item_cells_def)

lemma sized_simps [simp]:
  "sized None" "sized (Some (v, cells)) \<longleftrightarrow> length cells = var_size v"
  by (simp_all add: sized_def)

lemma chunk_cells_fresh [simp]:
  "chunk_cells \<lparr>chunk_address = a, chunk_values = cells\<rparr> = zip [a ..< a + length cells] cells"
  by (simp add: chunk_cells_def)

lemma encode_variables_items:
  "encodable enc vars vals \<Longrightarrow> encode_variables enc vars vals = Inr (map (item_of enc vals) vars)"
  by (induction vars) (auto simp: encodable_def item_of_def split: option.splits sum.splits)

lemma sized_items: "encodable enc vars vals \<Longrightarrow> list_all sized (map (item_of enc vals) vars)"
  by (induction vars) (auto simp: encodable_def item_of_def split: option.splits sum.splits)

lemma items_ascending_items:
  "ascending lb vars \<Longrightarrow> items_ascending lb (map (item_of enc vals) vars)"
proof (induction vars arbitrary: lb)
  case Nil
  then show ?case by simp
next
  case (Cons v vs)
  then have rest: "items_ascending (var_address v + var_size v) (map (item_of enc vals) vs)"
    and lb: "lb \<le> var_address v"
    by simp_all
  show ?case
  proof (cases "item_of enc vals v")
    case None
    from items_ascending_weaken [OF rest] lb have "items_ascending lb (map (item_of enc vals) vs)"
      by simp
    with None show ?thesis by simp
  next
    case (Some a)
    then obtain cells where "item_of enc vals v = Some (v, cells)"
      by (auto simp: item_of_def split: option.splits sum.splits)
    with rest lb show ?thesis by simp
  qed
qed

lemma written_items:
  "encodable enc vars vals \<Longrightarrow>
   map (map_option fst) (map (item_of enc vals) vars) = written vars (map fst vals)"
proof (induction vars)
  case Nil
  then show ?case by (simp add: written_def)
next
  case (Cons v vs)
  then have rest: "map (map_option fst) (map (item_of enc vals) vs) = written vs (map fst vals)"
    by (simp add: encodable_def)
  show ?case
  proof (cases "map_of vals (var_name v)")
    case None
    then have "var_name v \<notin> set (map fst vals)" by (simp add: map_of_eq_None_iff)
    with None rest show ?thesis by (simp add: written_def item_of_def)
  next
    case (Some x)
    then have "var_name v \<in> set (map fst vals)"
      using map_of_eq_None_iff [of vals "var_name v"] by auto
    with Some Cons.prems rest show ?thesis
      by (auto simp: written_def item_of_def encodable_def split: sum.splits)
  qed
qed

lemma length_merge_chunks:
  "length (merge_chunks cur items) =
     (case cur of None \<Rightarrow> 0 | Some ec \<Rightarrow> 1)
     + run_starts (map_option fst cur) (map (map_option fst) items)"
  by (induction cur items rule: merge_chunks.induct) simp_all

lemma upt_split: "[a ..< a + (m + n)] = [a ..< a + m] @ [a + m ..< a + m + n]"
proof -
  have "[a ..< (a + m) + n] = [a ..< a + m] @ [a + m ..< a + m + n]"
    by (rule upt_add_eq_append) simp
  then show ?thesis by (simp only: add.assoc)
qed

lemma chunk_cells_append:
  "chunk_cells (c\<lparr>chunk_values := chunk_values c @ cells\<rparr>) =
   chunk_cells c @
   zip [chunk_address c + length (chunk_values c) ..<
        chunk_address c + length (chunk_values c) + length cells] cells"
proof -
  let ?a = "chunk_address c" and ?m = "length (chunk_values c)" and ?n = "length cells"
  have "chunk_cells (c\<lparr>chunk_values := chunk_values c @ cells\<rparr>) =
      zip [?a ..< ?a + (?m + ?n)] (chunk_values c @ cells)"
    by (simp add: chunk_cells_def)
  also have "\<dots> = zip ([?a ..< ?a + ?m] @ [?a + ?m ..< ?a + ?m + ?n]) (chunk_values c @ cells)"
    by (simp only: upt_split)
  also have "\<dots> = zip [?a ..< ?a + ?m] (chunk_values c) @ zip [?a + ?m ..< ?a + ?m + ?n] cells"
    by (rule zip_append) simp
  finally show ?thesis by (simp add: chunk_cells_def)
qed

lemma cells_merge_chunks:
  "(case cur of None \<Rightarrow> True | Some (e, c) \<Rightarrow> e = chunk_address c + length (chunk_values c)) \<Longrightarrow>
   list_all sized items \<Longrightarrow>
   concat (map chunk_cells (merge_chunks cur items)) =
     (case cur of None \<Rightarrow> [] | Some (e, c) \<Rightarrow> chunk_cells c) @ concat (map item_cells items)"
proof (induction cur items rule: merge_chunks.induct)
  case 1
  then show ?case by simp
next
  case (2 e c)
  then show ?case by simp
next
  case (3 items)
  then show ?case by simp
next
  case (4 e c items)
  then show ?case by simp
next
  case (5 v cells items)
  then show ?case
    by (simp add: variable_cells_def)
next
  case (6 e c v cells items)
  from "6.prems" have e: "e = chunk_address c + length (chunk_values c)"
    and len: "length cells = var_size v" and rest: "list_all sized items"
    by simp_all
  show ?case
  proof (cases "e = var_address v")
    case True
    with e len have "concat (map chunk_cells (merge_chunks
        (Some (var_address v + var_size v, c\<lparr>chunk_values := chunk_values c @ cells\<rparr>)) items)) =
      chunk_cells (c\<lparr>chunk_values := chunk_values c @ cells\<rparr>) @ concat (map item_cells items)"
      using "6.IH"(1) [OF True] rest by simp
    with True e len show ?thesis
      by (simp add: chunk_cells_append variable_cells_def)
  next
    case False
    with len have "concat (map chunk_cells (merge_chunks
        (Some (var_address v + var_size v,
               \<lparr>chunk_address = var_address v, chunk_values = cells\<rparr>)) items)) =
      chunk_cells \<lparr>chunk_address = var_address v, chunk_values = cells\<rparr> @
      concat (map item_cells items)"
      using "6.IH"(2) [OF False] rest by simp
    with False len show ?thesis
      by (simp add: variable_cells_def)
  qed
qed

lemma sorted_merge_chunks:
  "items_ascending lb items \<Longrightarrow>
   (case cur of None \<Rightarrow> True | Some (e, c) \<Rightarrow> chunk_address c \<le> e \<and> e \<le> lb) \<Longrightarrow>
   sorted (map chunk_address (merge_chunks cur items)) \<and>
   (\<forall>a\<in>set (map chunk_address (merge_chunks cur items)).
      (case cur of None \<Rightarrow> lb | Some (e, c) \<Rightarrow> chunk_address c) \<le> a)"
proof (induction cur items arbitrary: lb rule: merge_chunks.induct)
  case 1
  then show ?case by simp
next
  case (2 e c)
  then show ?case by simp
next
  case (3 items)
  from "3.IH" [of lb] "3.prems" show ?case by simp
next
  case (4 e c items)
  from "4.IH" [of lb] "4.prems" show ?case by fastforce
next
  case (5 v cells items)
  from "5.IH" [of "var_address v + var_size v"] "5.prems" show ?case by fastforce
next
  case (6 e c v cells items)
  show ?case
  proof (cases "e = var_address v")
    case True
    from "6.IH"(1) [OF True, of "var_address v + var_size v"] "6.prems" True
    show ?thesis by fastforce
  next
    case False
    from "6.IH"(2) [OF False, of "var_address v + var_size v"] "6.prems" False
    show ?thesis by fastforce
  qed
qed

lemma sorted_item_cells:
  "list_all sized items \<Longrightarrow> items_ascending lb items \<Longrightarrow>
   sorted_wrt (<) (map fst (concat (map item_cells items))) \<and>
   (\<forall>a\<in>set (map fst (concat (map item_cells items))). lb \<le> a)"
proof (induction lb items rule: items_ascending.induct)
  case (1 lb)
  then show ?case by simp
next
  case (2 lb items)
  then show ?case by simp
next
  case (3 lb v cells items)
  from "3.prems" have len: "length cells = var_size v" and rest: "list_all sized items"
    and lb: "lb \<le> var_address v" and asc: "items_ascending (var_address v + var_size v) items"
    by simp_all
  from len have cells: "map fst (item_cells (Some (v, cells))) =
      [var_address v ..< var_address v + var_size v]"
    by (simp add: variable_cells_def)
  from "3.IH" [OF rest asc] cells lb show ?case
    by (fastforce simp: sorted_wrt_append)
qed

lemma expected_cells_items:
  "expected_cells enc vars vals = concat (map item_cells (map (item_of enc vals) vars))"
proof -
  have "(\<lambda>v. case map_of vals (var_name v) of
                None \<Rightarrow> []
              | Some x \<Rightarrow> (case enc v x of Inl e \<Rightarrow> [] | Inr cells \<Rightarrow> variable_cells v cells))
      = item_cells \<circ> item_of enc vals"
    by (rule ext) (simp add: item_of_def split: option.splits sum.splits)
  then show ?thesis by (simp add: expected_cells_def)
qed

lemma unknown_keys_empty: "unknown_keys vars keys = [] \<longleftrightarrow> set keys \<subseteq> set (map var_name vars)"
  by (auto simp: unknown_keys_def filter_empty_conv)

text \<open>
  C2. For a layout that the constructor accepted, a values map whose keys all belong to
  the layout and whose values the variables' encoders accept, \<open>build_payload\<close> returns
  chunks such that: their addresses ascend; the cells they write, with their addresses,
  are exactly the cells of the written variables at the variables' own addresses, in
  address order, and no address is written twice; their number is the number of maximal
  runs of address-adjacent written variables, a declared variable that is not written
  ending a run. The empty map gives the empty list. The coil layout of the tests
  (x at 2 of size 3, y at 7 of size 1, then z of size 5, u of size 1, v of size 2) puts z
  at 8, u at 13, v at 14, and writing x, y, z and v gives the chunks
  \<open>(2, [0,1,0])\<close>, \<open>(7, [1,0,0,1,1,0])\<close>, \<open>(14, [0,1])\<close>.
\<close>

theorem build_payload_merges_adjacent_runs:
  assumes "Layout decls = Inr vars"
    and "set (map fst vals) \<subseteq> set (map var_name vars)"
    and "encodable enc vars vals"
  shows "(\<exists>chunks. build_payload enc vars vals = Inr chunks \<and>
            sorted (map chunk_address chunks) \<and>
            concat (map chunk_cells chunks) = expected_cells enc vars vals \<and>
            sorted_wrt (<) (map fst (concat (map chunk_cells chunks))) \<and>
            length chunks = maximal_runs vars (map fst vals)) \<and>
         build_payload enc vars [] = Inr [] \<and>
         Layout test_coil_declarations = Inr test_coil_layout \<and>
         build_payload coil_encode test_coil_layout test_coil_values =
           Inr [\<lparr>chunk_address = 2, chunk_values = [False, True, False]\<rparr>,
                \<lparr>chunk_address = 7, chunk_values = [True, False, False, True, True, False]\<rparr>,
                \<lparr>chunk_address = 14, chunk_values = [False, True]\<rparr>]"
proof (intro conjI)
  let ?items = "map (item_of enc vals) vars"
  let ?chunks = "merge_chunks None ?items"
  from assms(2) have known: "unknown_keys vars (map fst vals) = []"
    by (simp add: unknown_keys_empty)
  with assms(3) have built: "build_payload enc vars vals = Inr ?chunks"
    by (simp add: build_payload_def encode_variables_items)
  have asc: "items_ascending 0 ?items"
    by (rule items_ascending_items) (rule Layout_ascending [OF assms(1)])
  have sz: "list_all sized ?items" by (rule sized_items [OF assms(3)])
  have sorted: "sorted (map chunk_address ?chunks)"
    using sorted_merge_chunks [OF asc, of None] by simp
  have cells: "concat (map chunk_cells ?chunks) = expected_cells enc vars vals"
    using cells_merge_chunks [of None ?items] sz by (simp add: expected_cells_items)
  have once: "sorted_wrt (<) (map fst (concat (map chunk_cells ?chunks)))"
    using sorted_item_cells [OF sz asc] cells by (simp add: expected_cells_items)
  have runs: "length ?chunks = maximal_runs vars (map fst vals)"
    by (simp add: length_merge_chunks maximal_runs_def written_items [OF assms(3)] del: map_map)
  from built sorted cells once runs
  show "\<exists>chunks. build_payload enc vars vals = Inr chunks \<and>
            sorted (map chunk_address chunks) \<and>
            concat (map chunk_cells chunks) = expected_cells enc vars vals \<and>
            sorted_wrt (<) (map fst (concat (map chunk_cells chunks))) \<and>
            length chunks = maximal_runs vars (map fst vals)"
    by blast
next
  have "encodable enc vars []" by (induction vars) (simp_all add: encodable_def)
  then have "encode_variables enc vars [] = Inr (map (item_of enc []) vars)"
    by (rule encode_variables_items)
  moreover have "merge_chunks None (map (item_of enc []) vars) = []"
    by (induction vars) (simp_all add: item_of_def)
  ultimately show "build_payload enc vars [] = Inr []"
    by (simp add: build_payload_def unknown_keys_def)
next
  show "Layout test_coil_declarations = Inr test_coil_layout"
    by code_simp
next
  show "build_payload coil_encode test_coil_layout test_coil_values =
           Inr [\<lparr>chunk_address = 2, chunk_values = [False, True, False]\<rparr>,
                \<lparr>chunk_address = 7, chunk_values = [True, False, False, True, True, False]\<rparr>,
                \<lparr>chunk_address = 14, chunk_values = [False, True]\<rparr>]"
    by code_simp
qed

theorem build_payload_merges_adjacent_runs_witness:
  "Layout test_coil_declarations = Inr test_coil_layout \<and>
   set (map fst test_coil_values) \<subseteq> set (map var_name test_coil_layout) \<and>
   encodable coil_encode test_coil_layout test_coil_values \<and>
   maximal_runs test_coil_layout (map fst test_coil_values) = 3 \<and>
   (\<exists>chunks. build_payload coil_encode test_coil_layout test_coil_values = Inr chunks \<and>
      sorted (map chunk_address chunks) \<and>
      concat (map chunk_cells chunks) =
        expected_cells coil_encode test_coil_layout test_coil_values \<and>
      sorted_wrt (<) (map fst (concat (map chunk_cells chunks))) \<and>
      length chunks = 3)"
proof -
  have lay: "Layout test_coil_declarations = Inr test_coil_layout" by code_simp
  have keys: "set (map fst test_coil_values) \<subseteq> set (map var_name test_coil_layout)"
    by (simp add: test_coil_values_def test_coil_layout_def)
  have enc: "encodable coil_encode test_coil_layout test_coil_values" by code_simp
  have runs: "maximal_runs test_coil_layout (map fst test_coil_values) = 3" by code_simp
  have "\<exists>chunks. build_payload coil_encode test_coil_layout test_coil_values = Inr chunks \<and>
      sorted (map chunk_address chunks) \<and>
      concat (map chunk_cells chunks) =
        expected_cells coil_encode test_coil_layout test_coil_values \<and>
      sorted_wrt (<) (map fst (concat (map chunk_cells chunks))) \<and>
      length chunks = maximal_runs test_coil_layout (map fst test_coil_values)"
    using build_payload_merges_adjacent_runs [OF lay keys enc] by (rule conjunct1)
  with lay keys enc runs show ?thesis by (simp only: simp_thms)
qed

text \<open>
  C9. When one or more of the keys of the values map given to \<open>build_payload\<close>, or of the
  names given to the decoding, are not declared in the layout, the operation fails with
  \<open>VariableNotFoundError\<close>, and the error carries every key that the layout does not
  declare, not only the first.
\<close>

theorem unknown_keys_are_all_reported:
  assumes "\<not> set keys \<subseteq> set (map var_name vars)" and "map fst vals = keys"
  shows "build_payload enc vars vals = Inl (VariableNotFoundError (unknown_keys vars keys)) \<and>
         decode_layout dec vars raw (Some keys) =
           Inl (VariableNotFoundError (unknown_keys vars keys)) \<and>
         set (unknown_keys vars keys) = set keys - set (map var_name vars) \<and>
         unknown_keys vars keys \<noteq> []"
proof -
  from assms(1) have ne: "unknown_keys vars keys \<noteq> []"
    by (simp add: unknown_keys_empty)
  have all: "set (unknown_keys vars keys) = set keys - set (map var_name vars)"
    by (auto simp: unknown_keys_def)
  from ne all assms(2) show ?thesis
    by (simp add: build_payload_def decode_layout_def Let_def)
qed

theorem unknown_keys_are_all_reported_witness:
  "\<not> set [''x'', ''a'', ''b''] \<subseteq> set (map var_name test_coil_layout) \<and>
   build_payload coil_encode test_coil_layout
     [(''x'', CoilBits [True, False, True]), (''a'', CoilBit False), (''b'', CoilBit True)]
     = Inl (VariableNotFoundError [''a'', ''b'']) \<and>
   decode_layout coil_decode test_coil_layout (replicate 14 False) (Some [''x'', ''a'', ''b''])
     = Inl (VariableNotFoundError [''a'', ''b''])"
proof -
  have keys: "\<not> set [''x'', ''a'', ''b''] \<subseteq> set (map var_name test_coil_layout)"
    by (simp add: test_coil_layout_def)
  have unknown: "unknown_keys test_coil_layout [''x'', ''a'', ''b''] = [''a'', ''b'']"
    by (simp add: unknown_keys_def test_coil_layout_def)
  from unknown_keys_are_all_reported [OF keys, of
      "[(''x'', CoilBits [True, False, True]), (''a'', CoilBit False), (''b'', CoilBit True)]"
      coil_encode coil_decode "replicate 14 False"] keys unknown
  show ?thesis by simp
qed



end
